(* ===== verification/Prelude.thy ===== *)
theory Prelude
  imports Main "HOL-Library.Word" "HOL-Library.Char_ord"
begin

text \<open>
  What every component shares: the machine types, the C library functions on
  \<open>char\<close> arrays that the firmware uses, and the environment interface.  The
  firmware talks to hardware and to the RTOS only through calls whose outcome it
  cannot decide (an SPI transfer may time out, a mutex may not be obtained, a
  status register may read busy).  Each such interaction consumes one
  \<open>hw_event\<close> of a list that every theorem quantifies over; the empty list is
  hardware that always answers.

  Conventions: a \<open>uint8_t\<close> buffer is a \<open>u8 list\<close>; a \<open>char\<close> array is a
  \<open>string\<close> of the array's full length, NUL bytes included; a \<open>const char *\<close>
  argument is a string of which the part before the first NUL (\<open>c_str\<close>) counts; an input pointer the code compares with
  NULL is an \<open>option\<close>; an output pointer is a component of the result.
\<close>

unbundle bit_operations_syntax

type_synonym u8 = "8 word"
type_synonym u16 = "16 word"
type_synonym u32 = "32 word"
type_synonym u64 = "64 word"

text \<open>\<open>codec\<close> collects the equations that decode an encoding, \<open>recode\<close> those that
  encode a decoding.\<close>

named_theorems codec
named_theorems recode

datatype HealthCheck_StatusTypeDef = HEALTH_CHECK_STATUS_OK | HEALTH_CHECK_STATUS_ERROR

subsection \<open>The environment's answers\<close>

record hw_event =
  ev_ok :: bool
  ev_busy :: bool
  ev_data :: "nat \<Rightarrow> u8"

definition quiet_event :: hw_event where
  "quiet_event = \<lparr>ev_ok = True, ev_busy = False, ev_data = (\<lambda>_. 0)\<rparr>"

fun next_event :: "hw_event list \<Rightarrow> hw_event \<times> hw_event list" where
  "next_event [] = (quiet_event, [])"
| "next_event (e # es) = (e, es)"

definition quiet :: "hw_event list \<Rightarrow> bool" where
  "quiet es = list_all (\<lambda>e. ev_ok e \<and> \<not> ev_busy e) es"

subsection \<open>C strings in fixed arrays\<close>

definition c_str :: "string \<Rightarrow> string" where
  "c_str a = takeWhile (\<lambda>c. c \<noteq> CHR 0x00) a"

definition strncpy :: "string \<Rightarrow> string \<Rightarrow> nat \<Rightarrow> string" where
  "strncpy dst src n =
     take n (c_str src) @ replicate (n - length (c_str src)) (CHR 0x00) @ drop n dst"

definition memset_chars :: "nat \<Rightarrow> string" where
  "memset_chars n = replicate n (CHR 0x00)"

subsection \<open>Generic facts\<close>

lemma quiet_Nil [simp]: "quiet []"
  by (simp add: quiet_def)

lemma quiet_next [simp]:
  assumes "quiet es"
  shows "ev_ok (fst (next_event es))" "\<not> ev_busy (fst (next_event es))" "quiet (snd (next_event es))"
  using assms by (cases es; simp add: quiet_def quiet_event_def)+

lemma length_strncpy [simp]: "n \<le> length dst \<Longrightarrow> length (strncpy dst src n) = length dst"
  by (simp add: strncpy_def)

lemma c_str_NUL_free [simp]: "CHR 0x00 \<notin> set s \<Longrightarrow> c_str s = s"
  by (auto simp: c_str_def takeWhile_eq_all_conv)

lemma c_str_length: "length (c_str a) \<le> length a"
  by (simp add: c_str_def length_takeWhile_le)

lemma NUL_notin_c_str [simp]: "CHR 0x00 \<notin> set (c_str a)"
  by (auto simp: c_str_def dest: set_takeWhileD)

lemma c_str_append_NUL [simp]:
  "CHR 0x00 \<notin> set s \<Longrightarrow> c_str (s @ CHR 0x00 # t) = s"
  by (simp add: c_str_def takeWhile_append)

text \<open>Copying a string shorter than the array into a cleared array and reading it
  back gives the string.\<close>

lemma c_str_strncpy:
  assumes "length (c_str src) \<le> n" "n < m"
  shows "c_str (strncpy (memset_chars m) src n) = c_str src"
proof -
  have "replicate (n - length (c_str src)) (CHR 0x00) @ drop n (replicate m (CHR 0x00))
        = CHR 0x00 # replicate (m - length (c_str src) - 1) (CHR 0x00)"
    using assms by (simp flip: replicate_add replicate_Suc)
  then show ?thesis
    using assms by (simp add: strncpy_def memset_chars_def del: replicate_append_same)
qed

lemma xor_cancel_right [simp]:
  fixes a b c :: "'a::len word"
  shows "a XOR c = b XOR c \<longleftrightarrow> a = b"
  by (metis xor.assoc xor.right_neutral xor_self_eq)

lemma xor_cancel_left [simp]:
  fixes a b c :: "'a::len word"
  shows "c XOR a = c XOR b \<longleftrightarrow> a = b"
  by (metis xor.assoc xor.left_neutral xor_self_eq)

lemma unat_u8_less [simp]: "unat (b :: u8) < 256"
  by (rule order_less_le_trans[OF unsigned_less]) simp

lemma unat_u32_less [simp]: "unat (w :: u32) < 4294967296"
  by (rule order_less_le_trans[OF unsigned_less]) simp

lemma unat_add_no_wrap:
  fixes a b :: "'a::len word"
  assumes "unat a + unat b < 2 ^ LENGTH('a)"
  shows "unat (a + b) = unat a + unat b"
  using assms by (simp add: unat_word_ariths)

lemma unat_minus_1_u32: "unat (- 1 :: u32) = 4294967295"
proof -
  have "(- 1 :: u32) = 4294967295"
    by simp
  then show ?thesis
    by (simp only:) simp
qed

lemma u32_less_succ:
  assumes "g \<noteq> - 1"
  shows "g < g + (1 :: u32)"
proof -
  have "unat g \<noteq> unat (- 1 :: u32)"
    using assms by (metis word_unat_eq_iff)
  then have "unat g < 4294967295"
    using unat_u32_less[of g] unat_minus_1_u32 by linarith
  then show ?thesis
    by (simp add: word_less_nat_alt unat_add_no_wrap)
qed

end
