(* ===== verification/Crc32.thy ===== *)
theory Crc32
  imports Prelude
begin

text \<open>
  The CRC-32 every persistent record carries.  The same bitwise loop appears in
  \<open>healthCheckConfig_Crc\<close>, \<open>healthCheckLog_Crc\<close>, \<open>callbackConfig_Crc\<close>,
  \<open>userStore_Crc\<close>, \<open>tlsTrustStore_Crc\<close> and \<open>tlsServerCredentials_Crc\<close>; each
  component defines its own function over the loop modelled here.  The lemmas show
  that the loop is injective in its state and in each byte, hence that corruption
  confined to one byte never keeps the checksum.
\<close>

subsection \<open>The bitwise loop\<close>

definition crc_bit :: "u32 \<Rightarrow> u32" where
  "crc_bit crc = drop_bit 1 crc XOR (if crc AND 1 \<noteq> 0 then 0xEDB88320 else 0)"

primrec crc_bits :: "nat \<Rightarrow> u32 \<Rightarrow> u32" where
  "crc_bits 0 crc = crc"
| "crc_bits (Suc n) crc = crc_bits n (crc_bit crc)"

definition crc_byte :: "u32 \<Rightarrow> u8 \<Rightarrow> u32" where
  "crc_byte crc b = crc_bits 8 (crc XOR ucast b)"

fun crc_loop :: "u32 \<Rightarrow> u8 list \<Rightarrow> u32" where
  "crc_loop crc [] = crc"
| "crc_loop crc (b # bs) = crc_loop (crc_byte crc b) bs"

definition crc32 :: "u8 list \<Rightarrow> u32" where
  "crc32 bs = NOT (crc_loop 0xFFFFFFFF bs)"

subsection \<open>Injectivity\<close>

lemma crc_bit_top: "bit (crc_bit z) 31 \<longleftrightarrow> bit z 0"
proof -
  have "\<not> bit z 32"
    by (metis bit_imp_le_length len_bit0 len_num1 less_irrefl mult_1_right numeral_Bit0_eq_double)
  then show ?thesis
    by (auto simp: crc_bit_def bit_simps and_one_eq bit_0 even_iff_mod_2_eq_zero)
qed

lemma crc_bit_inj: "inj crc_bit"
proof (rule injI)
  fix x y :: u32
  assume eq: "crc_bit x = crc_bit y"
  then have low: "bit x 0 = bit y 0"
    by (metis crc_bit_top)
  then have "drop_bit 1 x = drop_bit 1 y"
    using eq by (simp add: crc_bit_def and_one_eq bit_0 even_iff_mod_2_eq_zero split: if_splits)
  then have high: "bit x (Suc n) = bit y (Suc n)" for n
    by (metis bit_drop_bit_eq comp_apply plus_1_eq_Suc)
  have "bit x n = bit y n" for n
    using low high by (cases n) auto
  then show "x = y"
    by (simp add: bit_eq_iff)
qed

lemma crc_bits_inj: "inj (crc_bits n)"
proof (induction n)
  case (Suc n)
  then have "inj (crc_bits n \<circ> crc_bit)"
    by (intro inj_compose crc_bit_inj)
  then show ?case
    by (simp add: comp_def inj_def)
qed (simp add: inj_def)

lemma crc_bits_eq_iff [simp]: "crc_bits n x = crc_bits n y \<longleftrightarrow> x = y"
  using crc_bits_inj by (auto dest: injD)

lemma ucast_byte_eq_iff [simp]: "(ucast a :: u32) = ucast b \<longleftrightarrow> a = (b :: u8)"
proof
  assume "(ucast a :: u32) = ucast b"
  then have "(ucast (ucast a :: u32) :: u8) = ucast (ucast b :: u32)"
    by simp
  then show "a = b"
    by (simp add: ucast_up_ucast_id is_up)
qed simp

lemma crc_byte_state_iff [simp]: "crc_byte x b = crc_byte y b \<longleftrightarrow> x = y"
  by (simp add: crc_byte_def)

lemma crc_byte_data_iff [simp]: "crc_byte x a = crc_byte x b \<longleftrightarrow> a = b"
  by (simp add: crc_byte_def)

lemma crc_loop_append: "crc_loop c (xs @ ys) = crc_loop (crc_loop c xs) ys"
  by (induction c xs rule: crc_loop.induct) simp_all

lemma crc_loop_state_iff [simp]: "crc_loop x bs = crc_loop y bs \<longleftrightarrow> x = y"
  by (induction bs arbitrary: x y) simp_all

lemma not_word_eq_iff [simp]: "NOT a = NOT b \<longleftrightarrow> a = (b :: u32)"
  by (metis bit.double_compl)

subsection \<open>Linearity and bursts\<close>

lemma crc_bit_xor: "crc_bit (x XOR y) = crc_bit x XOR crc_bit y"
  by (rule bit_word_eqI)
    (auto simp: crc_bit_def bit_simps and_one_eq even_iff_mod_2_eq_zero[symmetric] bit_0[symmetric])

lemma crc_bits_xor: "crc_bits n (x XOR y) = crc_bits n x XOR crc_bits n y"
  by (induction n arbitrary: x y) (simp_all add: crc_bit_xor)

text \<open>Steps shift zero low bits out without feedback, so the bytes of a burst can
  be collected into one word before any step is taken.\<close>

lemma crc_bit_double:
  assumes "unat w < 2 ^ 31"
  shows "crc_bit (2 * w) = w"
proof -
  have "2 * w div 2 = w"
    using assms by (simp add: word_unat_eq_iff unat_div unat_word_ariths)
  moreover have "(2 * w) AND 1 = 0"
    by (simp add: and_one_eq even_iff_mod_2_eq_zero[symmetric])
  ultimately show ?thesis
    by (simp add: crc_bit_def drop_bit_eq_div)
qed

lemma unat_power_mult_le: "unat (2 ^ n * w :: u32) \<le> 2 ^ n * unat w"
proof -
  have "unat (2 ^ n :: u32) \<le> 2 ^ n"
    using unat_of_nat[where 'a=32, of "2 ^ n"] by (simp add: of_nat_power)
  then show ?thesis
    by (metis (no_types) mult_le_mono1 mod_less_eq_dividend order_trans unat_word_ariths(2))
qed

lemma crc_bits_double: "2 ^ n * unat w < 2 ^ 32 \<Longrightarrow> crc_bits n (2 ^ n * w) = w"
proof (induction n)
  case (Suc n)
  then have "unat (2 ^ n * w) < 2 ^ 31"
    using unat_power_mult_le[of n w] by (simp add: mult.commute)
  then have "crc_bit (2 ^ Suc n * w) = 2 ^ n * w"
    using crc_bit_double[of "2 ^ n * w"] by (simp add: mult.assoc)
  then show ?case
    using Suc by (simp add: mult.commute)
qed simp


definition pack4 :: "u8 \<Rightarrow> u8 \<Rightarrow> u8 \<Rightarrow> u8 \<Rightarrow> u32" where
  "pack4 a b c d = ucast a XOR push_bit 8 (ucast b) XOR push_bit 16 (ucast c) XOR push_bit 24 (ucast d)"

lemma byte_bit_high [simp]: "8 \<le> n \<Longrightarrow> \<not> bit (b :: u8) n"
  using bit_imp_le_length[of b n] by auto

lemma pack4_bits:
  assumes "n < 8"
  shows "bit (pack4 a b c d) n = bit a n" "bit (pack4 a b c d) (n + 8) = bit b n"
    "bit (pack4 a b c d) (n + 16) = bit c n" "bit (pack4 a b c d) (n + 24) = bit d n"
  using assms by (auto simp: pack4_def bit_simps)

lemma byte_eqI: "(\<And>n. n < 8 \<Longrightarrow> bit a n = bit b n) \<Longrightarrow> a = (b :: u8)"
  by (rule bit_word_eqI) simp

lemma pack4_inj: "pack4 a b c d = pack4 a' b' c' d' \<longleftrightarrow> a = a' \<and> b = b' \<and> c = c' \<and> d = d'"
  by (auto intro!: byte_eqI) (metis pack4_bits)+

lemma unat_ucast_byte: "unat (ucast (b :: u8) :: u32) < 2 ^ 8"
proof -
  have "take_bit 32 (unat b) \<le> unat b"
    by (rule take_bit_nat_less_eq_self)
  also have "unat b < 2 ^ 8"
    by simp
  finally show ?thesis
    by (simp add: unsigned_ucast_eq)
qed

lemma crc_loop_pack4: "crc_loop s [a, b, c, d] = crc_bits 32 (s XOR pack4 a b c d)"
proof -
  have twice: "crc_bits m (crc_bits n x) = crc_bits (n + m) x" for m n x
    by (induction n arbitrary: x) simp_all
  have sh: "crc_bits n x XOR ucast v = crc_bits n (x XOR 2 ^ n * ucast v)" if "n \<le> 24" for n x and v :: u8
  proof -
    have "2 ^ n * unat (ucast v :: u32) < (2::nat) ^ n * 2 ^ 8"
      using unat_ucast_byte[of v] by simp
    also have "\<dots> \<le> 2 ^ 32"
      using power_increasing[OF that, of "2::nat"] by simp
    finally show ?thesis
      by (simp add: crc_bits_xor crc_bits_double)
  qed
  have "crc_loop s [a, b, c, d] =
      crc_bits 8 (crc_bits 8 (crc_bits 8 (crc_bits 8 (s XOR ucast a) XOR ucast b) XOR ucast c) XOR ucast d)"
    by (simp only: crc_loop.simps crc_byte_def)
  also have "\<dots> = crc_bits 32 (s XOR ucast a XOR 2 ^ 8 * ucast b XOR 2 ^ 16 * ucast c XOR 2 ^ 24 * ucast d)"
    by (simp add: sh[of 8, simplified] sh[of 16, simplified] sh[of 24, simplified] twice xor.assoc)
  finally show ?thesis
    by (simp add: pack4_def push_bit_eq_mult xor.assoc mult.commute)
qed


lemma crc_loop_burst:
  assumes "length xs = 4" "length ys = 4"
  shows "crc_loop s xs = crc_loop s ys \<longleftrightarrow> xs = ys"
proof -
  obtain a b c d a' b' c' d' where "xs = [a, b, c, d]" "ys = [a', b', c', d']"
    using assms by (auto simp: eval_nat_numeral length_Suc_conv)
  then show ?thesis
    by (simp only: crc_loop_pack4 crc_bits_eq_iff xor_cancel_left pack4_inj list.inject) auto
qed

lemma crc_loop_short_burst:
  assumes "length xs = length ys" "length xs \<le> 4"
  shows "crc_loop s xs = crc_loop s ys \<longleftrightarrow> xs = ys"
proof -
  let ?z = "replicate (4 - length xs) (0 :: u8)"
  have "crc_loop s (xs @ ?z) = crc_loop s (ys @ ?z) \<longleftrightarrow> xs @ ?z = ys @ ?z"
    using assms by (intro crc_loop_burst) simp_all
  then show ?thesis
    by (simp add: crc_loop_append)
qed

text \<open>C19: two byte strings of equal length that differ only inside a window of four
  consecutive bytes (a burst of at most 32 bits, torn or flipped) have different
  checksums, wherever the window lies and whatever surrounds it.\<close>

theorem crc32_detects_burst:
  assumes "length xs = length ys" "length xs \<le> 4" "xs \<noteq> ys"
  shows "crc32 (pre @ xs @ post) \<noteq> crc32 (pre @ ys @ post)"
  using assms by (simp add: crc32_def crc_loop_append crc_loop_short_burst)

theorem crc32_detects_burst_witness:
  "crc32 ([1, 2] @ [0xFF, 0xFF, 0xFF] @ [7]) \<noteq> crc32 ([1, 2] @ [3, 0, 0xFF] @ [7])"
  by (rule crc32_detects_burst) simp_all

end
