(* ===== verification/Object_Rep.thy ===== *)
theory Object_Rep
  imports Prelude
begin

text \<open>
  Object representations: how the little-endian Cortex-M7 lays the firmware's
  structs out in memory, which is what \<open>W25Q64_Program\<close> writes, \<open>W25Q64_Read\<close>
  reads back and the checksums cover.  \<open>put_*\<close> gives the bytes of one member,
  \<open>get_*\<close> splits a member off the front of a byte string.  A struct is encoded
  member by member in declaration order, its padding bytes included as members of
  the record.  The lemmas in \<open>codec\<close> decode what was
  encoded, those in \<open>recode\<close> encode what was decoded, so that every struct round
  trips in both directions.
\<close>

subsection \<open>Members\<close>

definition put_u8 :: "u8 \<Rightarrow> u8 list" where
  "put_u8 w = [w]"

definition put_u16 :: "u16 \<Rightarrow> u8 list" where
  "put_u16 w = [ucast w, ucast (drop_bit 8 w)]"

definition put_u32 :: "u32 \<Rightarrow> u8 list" where
  "put_u32 w = [ucast w, ucast (drop_bit 8 w), ucast (drop_bit 16 w), ucast (drop_bit 24 w)]"

definition put_chars :: "string \<Rightarrow> u8 list" where
  "put_chars s = map of_char s"

definition get_u8 :: "u8 list \<Rightarrow> u8 \<times> u8 list" where
  "get_u8 bs = (bs ! 0, drop 1 bs)"

definition get_u16 :: "u8 list \<Rightarrow> u16 \<times> u8 list" where
  "get_u16 bs = (ucast (bs ! 0) OR push_bit 8 (ucast (bs ! 1)), drop 2 bs)"

definition get_u32 :: "u8 list \<Rightarrow> u32 \<times> u8 list" where
  "get_u32 bs = (ucast (bs ! 0) OR push_bit 8 (ucast (bs ! 1)) OR
     push_bit 16 (ucast (bs ! 2)) OR push_bit 24 (ucast (bs ! 3)), drop 4 bs)"

definition get_bytes :: "nat \<Rightarrow> u8 list \<Rightarrow> u8 list \<times> u8 list" where
  "get_bytes n bs = (take n bs, drop n bs)"

definition get_chars :: "nat \<Rightarrow> u8 list \<Rightarrow> string \<times> u8 list" where
  "get_chars n bs = (map (char_of \<circ> unat) (take n bs), drop n bs)"

fun get_array :: "nat \<Rightarrow> (u8 list \<Rightarrow> 'a \<times> u8 list) \<Rightarrow> u8 list \<Rightarrow> 'a list \<times> u8 list" where
  "get_array 0 get bs = ([], bs)"
| "get_array (Suc n) get bs =
     (let (x, bs1) = get bs; (xs, bs2) = get_array n get bs1 in (x # xs, bs2))"

definition put_array :: "('a \<Rightarrow> u8 list) \<Rightarrow> 'a list \<Rightarrow> u8 list" where
  "put_array put xs = concat (map put xs)"

subsection \<open>Lengths\<close>

lemma length_put [simp]:
  "length (put_u8 a) = 1" "length (put_u16 b) = 2" "length (put_u32 c) = 4"
  "length (put_chars s) = length s"
  by (simp_all add: put_u8_def put_u16_def put_u32_def put_chars_def)

lemma length_put_array:
  "(\<And>x. x \<in> set xs \<Longrightarrow> length (put x) = n) \<Longrightarrow> length (put_array put xs) = n * length xs"
  by (induction xs) (simp_all add: put_array_def)

lemma snd_get [simp]:
  "snd (get_u8 bs) = drop 1 bs" "snd (get_u16 bs) = drop 2 bs" "snd (get_u32 bs) = drop 4 bs"
  "snd (get_bytes n bs) = drop n bs" "snd (get_chars n bs) = drop n bs"
  by (simp_all add: get_u8_def get_u16_def get_u32_def get_bytes_def get_chars_def)

subsection \<open>Decoding what was encoded\<close>

lemma get_put_u8 [codec, simp]: "get_u8 (put_u8 w @ r) = (w, r)"
  by (simp add: get_u8_def put_u8_def)

lemma get_put_u16 [codec, simp]: "get_u16 (put_u16 w @ r) = (w, r)"
  by (auto simp: get_u16_def put_u16_def bit_simps intro!: bit_word_eqI)

lemma get_put_u32 [codec, simp]: "get_u32 (put_u32 w @ r) = (w, r)"
proof -
  have "bit (fst (get_u32 (put_u32 w @ r))) n = bit w n" if "n < 32" for n
  proof -
    consider "n < 8" | "8 \<le> n" "n < 16" | "16 \<le> n" "n < 24" | "24 \<le> n" "n < 32"
      using \<open>n < 32\<close> by linarith
    then show ?thesis
      by cases (auto simp: get_u32_def put_u32_def bit_simps)
  qed
  then have "fst (get_u32 (put_u32 w @ r)) = w"
    by (intro bit_word_eqI) simp
  then show ?thesis
    by (metis length_put(3) append_eq_conv_conj prod.collapse snd_get(3))
qed

lemma get_put_bytes [codec, simp]: "length bs = n \<Longrightarrow> get_bytes n (bs @ r) = (bs, r)"
  by (simp add: get_bytes_def)

lemma char_byte [simp]: "char_of (unat (of_char c :: u8)) = c"
proof -
  have "(of_char c :: u8) = of_nat (of_char c)"
    by (rule of_nat_of_char[symmetric])
  then have "unat (of_char c :: u8) = of_char c"
    by (simp add: unat_of_nat take_bit_nat_eq_self del: of_nat_of_char)
  then show ?thesis
    by simp
qed

lemma byte_char [simp]: "of_char (char_of (unat b)) = (b :: u8)"
proof -
  have "(of_char (char_of (unat b)) :: u8) = of_nat (of_char (char_of (unat b)))"
    by (rule of_nat_of_char[symmetric])
  also have "\<dots> = b"
    by (simp del: of_nat_of_char)
  finally show ?thesis .
qed

lemma get_put_chars [codec, simp]: "length s = n \<Longrightarrow> get_chars n (put_chars s @ r) = (s, r)"
  by (simp add: get_chars_def put_chars_def comp_def)

lemma get_put_array [codec]:
  "(\<And>x r. x \<in> set xs \<Longrightarrow> get (put x @ r) = (x, r)) \<Longrightarrow> length xs = n \<Longrightarrow>
     get_array n get (put_array put xs @ r) = (xs, r)"
  by (induction xs arbitrary: n) (auto simp: put_array_def)

subsection \<open>Encoding what was decoded\<close>

lemma u8_bit_high [simp]: "8 \<le> n \<Longrightarrow> \<not> bit (b :: u8) n"
  using bit_imp_le_length[of b n] by auto

lemma put_get_u16_Cons: "put_u16 (fst (get_u16 (a # b # r))) = [a, b]"
  by (auto simp: put_u16_def get_u16_def bit_simps intro!: bit_word_eqI)

lemma put_get_u32_Cons: "put_u32 (fst (get_u32 (a # b # c # d # r))) = [a, b, c, d]"
  by (auto simp: put_u32_def get_u32_def bit_simps intro!: bit_word_eqI)

lemma put_get_u8 [recode]: "1 \<le> length bs \<Longrightarrow> put_u8 (fst (get_u8 bs)) = take 1 bs"
  by (cases bs) (simp_all add: put_u8_def get_u8_def)

lemma put_get_u16 [recode]:
  assumes "2 \<le> length bs"
  shows "put_u16 (fst (get_u16 bs)) = take 2 bs"
proof -
  have "Suc (Suc 0) \<le> length bs"
    using assms by simp
  then obtain a b r where "bs = a # b # r"
    by (metis Suc_le_length_iff)
  then show ?thesis
    by (simp add: put_get_u16_Cons)
qed

lemma put_get_u32 [recode]:
  assumes "4 \<le> length bs"
  shows "put_u32 (fst (get_u32 bs)) = take 4 bs"
proof -
  have "Suc (Suc (Suc (Suc 0))) \<le> length bs"
    using assms by simp
  then obtain a b c d r where "bs = a # b # c # d # r"
    by (metis Suc_le_length_iff)
  then show ?thesis
    by (simp add: put_get_u32_Cons)
qed

lemma put_get_chars [recode]: "put_chars (fst (get_chars m bs)) = take m bs"
  by (simp add: put_chars_def get_chars_def comp_def)

lemma fst_get_bytes [recode]: "fst (get_bytes m bs) = take m bs"
  by (simp add: get_bytes_def)

lemma length_fst_get [simp]:
  "length (fst (get_chars m bs)) = min m (length bs)"
  "length (fst (get_bytes m bs)) = min m (length bs)"
  by (simp_all add: get_chars_def get_bytes_def min.commute)

lemma get_u32_blank: "4 \<le> n \<Longrightarrow> fst (get_u32 (replicate n 0xFF)) = 0xFFFFFFFF"
proof -
  assume "4 \<le> n"
  then have "get_u32 (replicate n 0xFF) = (ucast (0xFF :: u8) OR push_bit 8 (ucast (0xFF :: u8)) OR
      push_bit 16 (ucast (0xFF :: u8)) OR push_bit 24 (ucast (0xFF :: u8)), drop 4 (replicate n 0xFF))"
    by (simp add: get_u32_def)
  then show ?thesis
    by simp
qed

text \<open>Arrays: when every element decodes \<open>k\<close> bytes and encodes back to them, so
  does the array.\<close>

lemma snd_get_array:
  "(\<And>bs. snd (get bs) = drop k bs) \<Longrightarrow> snd (get_array n get bs) = drop (n * k) bs"
  by (induction n arbitrary: bs) (simp_all add: case_prod_unfold Let_def add.commute)

lemma length_get_array [simp]: "length (fst (get_array n get bs)) = n"
  by (induction n arbitrary: bs) (simp_all add: case_prod_unfold Let_def)

lemma put_get_array:
  assumes "\<And>bs. snd (get bs) = drop k bs"
    and "\<And>bs. k \<le> length bs \<Longrightarrow> put (fst (get bs)) = take k bs"
    and "n * k \<le> length bs"
  shows "put_array put (fst (get_array n get bs)) = take (n * k) bs"
  using assms(3)
proof (induction n arbitrary: bs)
  case (Suc n)
  then have "put_array put (fst (get_array n get (drop k bs))) = take (n * k) (drop k bs)"
    by simp
  then show ?case
    using Suc.prems assms(1,2) by (simp add: case_prod_unfold Let_def put_array_def take_add)
qed (simp add: put_array_def)

lemma wf_get_array:
  assumes "\<And>bs. k \<le> length bs \<Longrightarrow> P (fst (get bs))" "\<And>bs. snd (get bs) = drop k bs" "n * k \<le> length bs"
  shows "list_all P (fst (get_array n get bs))"
  using assms(3)
proof (induction n arbitrary: bs)
  case (Suc n)
  then show ?case
    using assms(1,2) by (simp add: case_prod_unfold Let_def)
qed simp

text \<open>Consecutive members join to the bytes they were split from.\<close>

lemma take_join [recode]:
  "take k bs @ take j (drop k bs) = take (k + j) bs"
  "take k bs @ take j (drop k bs) @ xs = take (k + j) bs @ xs"
  by (simp_all add: take_add)

lemma take_drop_join [recode]:
  "m = n + k \<Longrightarrow> take k (drop n bs) @ take j (drop m bs) = take (k + j) (drop n bs)"
  "m = n + k \<Longrightarrow> take k (drop n bs) @ take j (drop m bs) @ xs = take (k + j) (drop n bs) @ xs"
  by (simp_all add: take_add add.commute[of k n])

end
