(* ===== verification/Flash_Chip.thy ===== *)
theory Flash_Chip
  imports Prelude
begin

text \<open>
  The hardware below the driver \<open>Periph/Src/w25q64.c\<close>: the W25Q64 NOR flash chip
  behind the blocking \<open>Spi1_Transfer\<close>.  No line of this theory is firmware; it is
  the environment the driver talks to, as the chip's data sheet and the comments of
  the firmware describe it.  A selection (chip select low) collects the bytes
  clocked out; the chip answers reads while selected and executes a modifying
  command when deselected.  Erasing sets a sector to \<open>0xFF\<close>, programming clears
  bits, a status read without the busy bit means the operation has finished.

  Everything the firmware cannot rely on is left to the event list: a transfer may
  time out, the busy bit may stay set, and the cells under an operation that is not
  known to have finished hold arbitrary bytes (\<open>ev_data\<close>).  Loss of power in the
  middle of an operation leaves the same cells as a transfer that times out there,
  so statements about every event list cover it.
\<close>

record env =
  flashMutex :: bool
  jedec :: "u8 list"
  cells :: "nat \<Rightarrow> u8"
  write_enabled :: bool
  inflight :: "(nat \<times> nat \<times> (nat \<Rightarrow> u8)) option"
  bus :: "u8 list"
  bus_fault :: bool
  bus_noise :: "nat \<Rightarrow> u8"
  events :: "hw_event list"
  ticks :: u32

datatype Spi_StatusTypeDef = SPI_STATUS_OK | SPI_STATUS_TIMEOUT

subsection \<open>Cells\<close>

definition overlay :: "nat \<Rightarrow> nat \<Rightarrow> (nat \<Rightarrow> u8) \<Rightarrow> (nat \<Rightarrow> u8) \<Rightarrow> nat \<Rightarrow> u8" where
  "overlay a n new old = (\<lambda>i. if a \<le> i \<and> i < a + n then new i else old i)"

definition cells_at :: "(nat \<Rightarrow> u8) \<Rightarrow> nat \<Rightarrow> nat \<Rightarrow> u8 list" where
  "cells_at c a n = map (\<lambda>i. c (a + i)) [0..<n]"

definition address24 :: "u8 \<Rightarrow> u8 \<Rightarrow> u8 \<Rightarrow> nat" where
  "address24 a2 a1 a0 = unat a2 * 65536 + unat a1 * 256 + unat a0"

subsection \<open>The chip\<close>

definition pop_event :: "env \<Rightarrow> hw_event \<times> env" where
  "pop_event env = (let (e, es) = next_event (events env) in (e, env\<lparr>events := es\<rparr>))"

definition xSemaphoreTake :: "env \<Rightarrow> bool \<times> env" where
  "xSemaphoreTake env = (let (e, env1) = pop_event env in (ev_ok e, env1))"

definition xSemaphoreCreateMutexStatic :: "env \<Rightarrow> bool \<times> env" where
  "xSemaphoreCreateMutexStatic env = (let (e, env1) = pop_event env in (ev_ok e, env1))"

definition w25q64_Select :: "env \<Rightarrow> env" where
  "w25q64_Select env = env\<lparr>bus := [], bus_fault := False\<rparr>"

definition spi_status :: "hw_event \<Rightarrow> Spi_StatusTypeDef" where
  "spi_status e = (if ev_ok e then SPI_STATUS_OK else SPI_STATUS_TIMEOUT)"

definition spi_send :: "u8 list \<Rightarrow> env \<Rightarrow> Spi_StatusTypeDef \<times> env" where
  "spi_send tx env =
     (let (e, env1) = pop_event env
      in (spi_status e, env1\<lparr>bus := bus env1 @ tx, bus_fault := bus_fault env1 \<or> \<not> ev_ok e,
                             bus_noise := ev_data e\<rparr>))"

fun chip_response :: "u8 list \<Rightarrow> nat \<Rightarrow> hw_event \<Rightarrow> env \<Rightarrow> u8 list" where
  "chip_response [c] n e env =
     (if c = 0x9F then take n (jedec env)
      else if c = 0x05 then [if ev_busy e then 1 else 0]
      else map (ev_data e) [0..<n])"
| "chip_response [c, a2, a1, a0] n e env =
     (if c = 0x03 then cells_at (cells env) (address24 a2 a1 a0) n
      else map (ev_data e) [0..<n])"
| "chip_response _ n e env = map (ev_data e) [0..<n]"

definition chip_finish :: "env \<Rightarrow> env" where
  "chip_finish env =
     (case inflight env of None \<Rightarrow> env
      | Some (a, n, final) \<Rightarrow> env\<lparr>cells := overlay a n final (cells env), inflight := None\<rparr>)"

definition spi_receive :: "nat \<Rightarrow> env \<Rightarrow> Spi_StatusTypeDef \<times> u8 list \<times> env" where
  "spi_receive n env =
     (let (e, env1) = pop_event env in
      if \<not> ev_ok e then (SPI_STATUS_TIMEOUT, map (ev_data e) [0..<n], env1)
      else (SPI_STATUS_OK, chip_response (bus env1) n e env1,
            if bus env1 = [0x05] \<and> \<not> ev_busy e then chip_finish env1 else env1))"

fun chip_modifies :: "u8 list \<Rightarrow> env \<Rightarrow> (nat \<times> nat \<times> (nat \<Rightarrow> u8)) option" where
  "chip_modifies (c # a2 # a1 # a0 # data) env =
     (let a = address24 a2 a1 a0 in
      if \<not> write_enabled env then None
      else if c = 0x20 \<and> data = [] then Some (a - a mod 4096, 4096, \<lambda>_. 0xFF)
      else if c = 0x02 \<and> data \<noteq> [] then
        if a mod 256 + length data \<le> 256
        then Some (a, length data, \<lambda>i. cells env i AND data ! (i - a))
        else Some (a - a mod 256, 256, bus_noise env)
      else None)"
| "chip_modifies _ env = None"

definition w25q64_Deselect :: "env \<Rightarrow> env" where
  "w25q64_Deselect env =
     (if bus env = [0x06] then (if bus_fault env then env else env\<lparr>write_enabled := True\<rparr>)
      else case chip_modifies (bus env) env of
        None \<Rightarrow> env
      | Some (a, n, final) \<Rightarrow>
          env\<lparr>cells := overlay a n (bus_noise env) (cells env), write_enabled := False,
              inflight := (if bus_fault env then None else Some (a, n, final))\<rparr>)"

text \<open>A factory-fresh board: every cell erased, the driver's mutex created, hardware
  that answers.\<close>

definition blank_env :: env where
  "blank_env = \<lparr>flashMutex = True, jedec = [0xEF, 0x40, 0x17], cells = (\<lambda>_. 0xFF),
     write_enabled = False, inflight = None, bus = [], bus_fault = False, bus_noise = (\<lambda>_. 0),
     events = [], ticks = 0\<rparr>"

subsection \<open>Facts about cells\<close>

lemma length_cells_at [simp]: "length (cells_at c a n) = n"
  by (simp add: cells_at_def)

lemma nth_cells_at [simp]: "i < n \<Longrightarrow> cells_at c a n ! i = c (a + i)"
  by (simp add: cells_at_def)

lemma cells_at_cong: "(\<And>i. a \<le> i \<Longrightarrow> i < a + n \<Longrightarrow> c i = d i) \<Longrightarrow> cells_at c a n = cells_at d a n"
  by (simp add: cells_at_def)

lemma cells_at_Nil [simp]: "cells_at c a 0 = []"
  by (simp add: cells_at_def)

lemma take_cells_at: "m \<le> n \<Longrightarrow> take m (cells_at c a n) = cells_at c a m"
  by (simp add: cells_at_def take_map)

lemma cells_at_eq_iff:
  "cells_at c a n = bs \<longleftrightarrow> length bs = n \<and> (\<forall>i<n. c (a + i) = bs ! i)"
  by (auto simp: list_eq_iff_nth_eq)

lemma overlay_outside [simp]: "\<not> (a \<le> i \<and> i < a + n) \<Longrightarrow> overlay a n new old i = old i"
  by (auto simp: overlay_def)

lemma overlay_overlay [simp]: "overlay a n x (overlay a n y c) = overlay a n x c"
  by (auto simp: overlay_def)

lemma overlay_empty [simp]: "overlay a 0 new old = old"
  by (auto simp: overlay_def fun_eq_iff)

end
