(* ===== verification/W25q64.thy ===== *)
theory W25q64
  imports Flash_Chip
begin

text \<open>
  The flash driver \<open>Periph/Src/w25q64.c\<close>: range validation on 32-bit words, the
  command framing, the bounded busy wait, the page-splitting program loop and the
  descending range erase.  The locale \<open>nor_flash\<close> is the contract the persistent
  stores rely on; it is interpreted here on the driver's own operations.
\<close>

datatype W25Q64_StatusTypeDef =
    W25Q64_STATUS_OK
  | W25Q64_STATUS_INVALID_ARGUMENT
  | W25Q64_STATUS_IO_ERROR
  | W25Q64_STATUS_TIMEOUT
  | W25Q64_STATUS_UNAVAILABLE

abbreviation (input) W25Q64_CAPACITY_BYTES :: "'a::numeral" where
  "W25Q64_CAPACITY_BYTES \<equiv> 8388608"

abbreviation (input) W25Q64_SECTOR_SIZE :: "'a::numeral" where
  "W25Q64_SECTOR_SIZE \<equiv> 4096"

abbreviation (input) W25Q64_PAGE_SIZE :: "'a::numeral" where
  "W25Q64_PAGE_SIZE \<equiv> 256"

subsection \<open>Commands\<close>

definition w25q64_Command ::
  "u8 list \<Rightarrow> nat \<Rightarrow> env \<Rightarrow> W25Q64_StatusTypeDef \<times> u8 list \<times> env" where
  "w25q64_Command command receiveLength env =
     (let (spiStatus, env1) = spi_send command (w25q64_Select env);
          (spiStatus, receive, env2) =
            (if spiStatus = SPI_STATUS_OK \<and> receiveLength \<noteq> 0
             then spi_receive receiveLength env1 else (spiStatus, [], env1));
          env3 = w25q64_Deselect env2
      in (if spiStatus = SPI_STATUS_OK then W25Q64_STATUS_OK
          else if spiStatus = SPI_STATUS_TIMEOUT then W25Q64_STATUS_TIMEOUT
          else W25Q64_STATUS_IO_ERROR, receive, env3))"

definition w25q64_WriteEnable :: "env \<Rightarrow> W25Q64_StatusTypeDef \<times> env" where
  "w25q64_WriteEnable env =
     (let (status, _, env1) = w25q64_Command [0x06] 0 env in (status, env1))"

text \<open>The argument counts the polls that are left: \<open>timeoutMs - elapsedMs\<close>.\<close>

fun w25q64_WaitReady :: "nat \<Rightarrow> env \<Rightarrow> W25Q64_StatusTypeDef \<times> env" where
  "w25q64_WaitReady 0 env = (W25Q64_STATUS_TIMEOUT, env)"
| "w25q64_WaitReady (Suc n) env =
     (let (st, receive, env1) = w25q64_Command [0x05] 1 env in
      if st \<noteq> W25Q64_STATUS_OK then (W25Q64_STATUS_IO_ERROR, env1)
      else if receive ! 0 AND 0x01 = 0 then (W25Q64_STATUS_OK, env1)
      else w25q64_WaitReady n env1)"

definition w25q64_IsRangeValid :: "u32 \<Rightarrow> u32 \<Rightarrow> bool" where
  "w25q64_IsRangeValid address len \<longleftrightarrow>
     len \<noteq> 0 \<and> len \<le> W25Q64_CAPACITY_BYTES \<and> address \<le> W25Q64_CAPACITY_BYTES - len"

definition w25q64_AddressBytes :: "u8 \<Rightarrow> u32 \<Rightarrow> u8 list" where
  "w25q64_AddressBytes command address =
     [command, ucast (drop_bit 16 address), ucast (drop_bit 8 address), ucast address]"

definition w25q64_EraseSectorUnlocked :: "u32 \<Rightarrow> env \<Rightarrow> W25Q64_StatusTypeDef \<times> env" where
  "w25q64_EraseSectorUnlocked address env =
     (let (status, env1) = w25q64_WriteEnable env;
          (status, env2) =
            (if status = W25Q64_STATUS_OK
             then let (st, _, env2) = w25q64_Command (w25q64_AddressBytes 0x20 address) 0 env1 in (st, env2)
             else (status, env1))
      in if status = W25Q64_STATUS_OK then w25q64_WaitReady 2000 env2 else (status, env2))"

subsection \<open>Public operations\<close>

definition take_flash :: "env \<Rightarrow> bool \<times> env" where
  "take_flash env = (if \<not> flashMutex env then (False, env) else xSemaphoreTake env)"

definition W25Q64_IsAvailable :: "env \<Rightarrow> bool \<times> env" where
  "W25Q64_IsAvailable env =
     (let (locked, env1) = take_flash env in
      if \<not> locked then (False, env1)
      else
        let (status, identity, env2) = w25q64_Command [0x9F] 3 env1
        in (status = W25Q64_STATUS_OK \<and> identity = [0xEF, 0x40, 0x17], env2))"

definition W25Q64_Init :: "env \<Rightarrow> W25Q64_StatusTypeDef \<times> env" where
  "W25Q64_Init env =
     (let env1 = (if flashMutex env then env
                  else let (created, env1) = xSemaphoreCreateMutexStatic env
                       in env1\<lparr>flashMutex := created\<rparr>) in
      if \<not> flashMutex env1 then (W25Q64_STATUS_IO_ERROR, env1)
      else
        let (available, env2) = W25Q64_IsAvailable env1
        in (if available then W25Q64_STATUS_OK else W25Q64_STATUS_UNAVAILABLE, env2))"

definition W25Q64_Read :: "u32 \<Rightarrow> u32 \<Rightarrow> env \<Rightarrow> W25Q64_StatusTypeDef \<times> u8 list \<times> env" where
  "W25Q64_Read address len env =
     (if \<not> w25q64_IsRangeValid address len then (W25Q64_STATUS_INVALID_ARGUMENT, [], env)
      else
        let (locked, env1) = take_flash env in
        if \<not> locked then (W25Q64_STATUS_IO_ERROR, [], env1)
        else w25q64_Command (w25q64_AddressBytes 0x03 address) (unat len) env1)"

definition W25Q64_EraseSector :: "u32 \<Rightarrow> env \<Rightarrow> W25Q64_StatusTypeDef \<times> env" where
  "W25Q64_EraseSector address env =
     (if address \<ge> W25Q64_CAPACITY_BYTES \<or> address mod W25Q64_SECTOR_SIZE \<noteq> 0
      then (W25Q64_STATUS_INVALID_ARGUMENT, env)
      else
        let (locked, env1) = take_flash env in
        if \<not> locked then (W25Q64_STATUS_IO_ERROR, env1)
        else w25q64_EraseSectorUnlocked address env1)"

text \<open>The loop of \<open>W25Q64_EraseRange\<close> from \<open>currentAddress\<close> down to
  \<open>firstAddress\<close>.  The first argument is fuel: the device has 2048 sectors, and
  \<open>EraseDown_sectors\<close> below shows that an aligned range inside it never runs out.\<close>

fun w25q64_EraseDown :: "nat \<Rightarrow> u32 \<Rightarrow> u32 \<Rightarrow> env \<Rightarrow> W25Q64_StatusTypeDef \<times> env" where
  "w25q64_EraseDown 0 firstAddress currentAddress env = (W25Q64_STATUS_TIMEOUT, env)"
| "w25q64_EraseDown (Suc n) firstAddress currentAddress env =
     (let (status, env1) = w25q64_EraseSectorUnlocked currentAddress env in
      if status \<noteq> W25Q64_STATUS_OK \<or> currentAddress = firstAddress then (status, env1)
      else w25q64_EraseDown n firstAddress (currentAddress - W25Q64_SECTOR_SIZE) env1)"

definition W25Q64_EraseRange :: "u32 \<Rightarrow> u32 \<Rightarrow> env \<Rightarrow> W25Q64_StatusTypeDef \<times> env" where
  "W25Q64_EraseRange address len env =
     (if len = 0 \<or> address mod W25Q64_SECTOR_SIZE \<noteq> 0 \<or> len mod W25Q64_SECTOR_SIZE \<noteq> 0
         \<or> \<not> w25q64_IsRangeValid address len
      then (W25Q64_STATUS_INVALID_ARGUMENT, env)
      else
        let (locked, env1) = take_flash env in
        if \<not> locked then (W25Q64_STATUS_IO_ERROR, env1)
        else w25q64_EraseDown 2048 address (address + len - W25Q64_SECTOR_SIZE) env1)"

text \<open>One pass of the loop of \<open>W25Q64_Program\<close>: the chunk lies inside one page.\<close>

definition w25q64_ProgramPage :: "u32 \<Rightarrow> u8 list \<Rightarrow> env \<Rightarrow> W25Q64_StatusTypeDef \<times> env" where
  "w25q64_ProgramPage address chunk env =
     (let (status, env1) = w25q64_WriteEnable env;
          (status, env2) =
            (if status = W25Q64_STATUS_OK then
               let (s1, e1) = spi_send (w25q64_AddressBytes 0x02 address) (w25q64_Select env1);
                   (s2, e2) = (if s1 \<noteq> SPI_STATUS_OK then (s1, e1) else spi_send chunk e1)
               in (if s1 \<noteq> SPI_STATUS_OK \<or> s2 \<noteq> SPI_STATUS_OK then W25Q64_STATUS_IO_ERROR
                   else W25Q64_STATUS_OK, w25q64_Deselect e2)
             else (status, env1))
      in if status = W25Q64_STATUS_OK then w25q64_WaitReady 100 env2 else (status, env2))"

function w25q64_ProgramPages :: "u32 \<Rightarrow> u8 list \<Rightarrow> env \<Rightarrow> W25Q64_StatusTypeDef \<times> env" where
  "w25q64_ProgramPages address data env =
     (if data = [] then (W25Q64_STATUS_OK, env)
      else
        let chunk = min (W25Q64_PAGE_SIZE - unat (address mod W25Q64_PAGE_SIZE)) (length data);
            (status, env1) = w25q64_ProgramPage address (take chunk data) env
        in if status \<noteq> W25Q64_STATUS_OK then (status, env1)
           else w25q64_ProgramPages (address + of_nat chunk) (drop chunk data) env1)"
  by pat_completeness auto
termination
proof (relation "measure (\<lambda>(_, data, _). length data)", goal_cases)
  case (2 address data env chunk x status env1)
  have "unat (address mod 256) < 256"
    by (simp add: unat_mod)
  with 2 show ?case
    by simp
qed simp

definition W25Q64_Program :: "u32 \<Rightarrow> u8 list option \<Rightarrow> env \<Rightarrow> W25Q64_StatusTypeDef \<times> env" where
  "W25Q64_Program address data env =
     (case data of
        None \<Rightarrow> (W25Q64_STATUS_INVALID_ARGUMENT, env)
      | Some source \<Rightarrow>
          if \<not> w25q64_IsRangeValid address (of_nat (length source))
          then (W25Q64_STATUS_INVALID_ARGUMENT, env)
          else
            let (locked, env1) = take_flash env in
            if \<not> locked then (W25Q64_STATUS_IO_ERROR, env1)
            else w25q64_ProgramPages address source env1)"

declare w25q64_ProgramPages.simps [simp del]

subsection \<open>What the lemmas speak about\<close>

text \<open>\<open>healthy\<close>: the mutex exists and the hardware answers every request.
  \<open>touches a n\<close>: only cells of the range may differ.  \<open>writes a n new\<close>: the range
  alone changes, it holds \<open>new\<close> when the operation reports success, and the operation
  succeeds when the hardware answers.\<close>

definition healthy :: "env \<Rightarrow> bool" where
  "healthy env \<longleftrightarrow> flashMutex env \<and> quiet (events env)"

definition touches :: "nat \<Rightarrow> nat \<Rightarrow> env \<Rightarrow> env \<Rightarrow> bool" where
  "touches a n env env' \<longleftrightarrow>
     (\<forall>i. \<not> (a \<le> i \<and> i < a + n) \<longrightarrow> cells env' i = cells env i) \<and>
     flashMutex env' = flashMutex env \<and> jedec env' = jedec env \<and> ticks env' = ticks env \<and>
     (quiet (events env) \<longrightarrow> quiet (events env'))"

definition finishes :: "env \<Rightarrow> env \<Rightarrow> W25Q64_StatusTypeDef \<Rightarrow> bool" where
  "finishes env env' s \<longleftrightarrow>
     cells env' = (if s = W25Q64_STATUS_OK then cells (chip_finish env) else cells env) \<and>
     flashMutex env' = flashMutex env \<and> jedec env' = jedec env \<and> ticks env' = ticks env \<and>
     (quiet (events env) \<longrightarrow> quiet (events env'))"

definition writes :: "nat \<Rightarrow> nat \<Rightarrow> (nat \<Rightarrow> u8) \<Rightarrow> env \<Rightarrow> W25Q64_StatusTypeDef \<times> env \<Rightarrow> bool" where
  "writes a n new env r \<longleftrightarrow>
     touches a n env (snd r) \<and>
     (fst r = W25Q64_STATUS_OK \<longrightarrow> cells (snd r) = overlay a n new (cells env)) \<and>
     (quiet (events env) \<longrightarrow> fst r = W25Q64_STATUS_OK)"

text \<open>What a modifying command leaves behind: the range is disturbed and, when every
  byte was clocked out, the chip is working towards \<open>new\<close>.\<close>

definition starts :: "nat \<Rightarrow> nat \<Rightarrow> (nat \<Rightarrow> u8) \<Rightarrow> env \<Rightarrow> W25Q64_StatusTypeDef \<times> env \<Rightarrow> bool" where
  "starts a n new env r \<longleftrightarrow>
     touches a n env (snd r) \<and>
     (fst r = W25Q64_STATUS_OK \<longrightarrow> inflight (snd r) = Some (a, n, new)) \<and>
     (quiet (events env) \<longrightarrow> fst r = W25Q64_STATUS_OK)"

definition commits :: "nat \<Rightarrow> nat \<Rightarrow> (nat \<Rightarrow> u8) \<Rightarrow> env \<Rightarrow> W25Q64_StatusTypeDef \<times> env \<Rightarrow> bool" where
  "commits a n new env r \<longleftrightarrow>
     touches a n env (snd r) \<and>
     (fst r = W25Q64_STATUS_OK \<longrightarrow> cells (snd r) = overlay a n new (cells env))"

lemma touches_refl [simp]: "touches a n env env"
  by (simp add: touches_def)

lemma touches_trans: "touches a n e1 e2 \<Longrightarrow> touches a n e2 e3 \<Longrightarrow> touches a n e1 e3"
  by (simp add: touches_def)

lemma touches_mono: "touches a n e1 e2 \<Longrightarrow> b \<le> a \<Longrightarrow> a + n \<le> b + m \<Longrightarrow> touches b m e1 e2"
  by (simp add: touches_def) (metis le_trans less_le_trans)

lemma touches_nothing: "touches a 0 e1 e2 \<Longrightarrow> touches b n e1 e2" "touches a 0 e1 e2 \<Longrightarrow> cells e2 = cells e1"
  by (simp_all add: touches_def fun_eq_iff)

lemma touches_healthy: "touches a n e1 e2 \<Longrightarrow> healthy e1 \<Longrightarrow> healthy e2"
  by (simp add: touches_def healthy_def)

lemma touches_cells_at:
  "touches a n e1 e2 \<Longrightarrow> b + m \<le> a \<or> a + n \<le> b \<Longrightarrow> cells_at (cells e2) b m = cells_at (cells e1) b m"
  by (rule cells_at_cong) (auto simp: touches_def)

subsection \<open>Facts about commands\<close>

lemma Command_send:
  "w25q64_Command cmd 0 env =
     (let (e, es) = next_event (events env)
      in (if ev_ok e then W25Q64_STATUS_OK else W25Q64_STATUS_TIMEOUT, [],
          w25q64_Deselect (env\<lparr>events := es, bus := cmd, bus_fault := \<not> ev_ok e, bus_noise := ev_data e\<rparr>)))"
  by (simp add: w25q64_Command_def spi_send_def w25q64_Select_def pop_event_def spi_status_def
      case_prod_unfold Let_def)

lemma take_flash_touches:
  assumes "take_flash env = (b, env')"
  shows "touches a 0 env env'" "healthy env \<Longrightarrow> b" 
  using assms
  by (auto simp: take_flash_def xSemaphoreTake_def pop_event_def touches_def healthy_def 
      case_prod_unfold Let_def split: if_splits)

lemma WriteEnable_cases:
  assumes "w25q64_WriteEnable env = (s, env')"
  shows "cells env' = cells env" "touches a 0 env env'" "s = W25Q64_STATUS_OK \<Longrightarrow> write_enabled env'"
    "inflight env' = inflight env" "quiet (events env) \<Longrightarrow> s = W25Q64_STATUS_OK"
  using assms
  by (auto simp: w25q64_WriteEnable_def Command_send w25q64_Deselect_def touches_def
      case_prod_unfold Let_def split: if_splits)

lemma address24_bytes:
  assumes "unat a < 2 ^ 24"
  shows "address24 (ucast (drop_bit 16 a)) (ucast (drop_bit 8 a)) (ucast (a :: u32)) = unat a"
proof -
  have "unat (ucast (drop_bit k a) :: u8) = (unat a div 2 ^ k) mod 256" for k
    unfolding unsigned_ucast_eq unsigned_drop_bit_eq by (simp add: take_bit_eq_mod drop_bit_eq_div)
  note bytes = this[of 0] this[of 8] this[of 16]
  have "x div 65536 * 65536 + (x div 256) mod 256 * 256 + x mod 256 = x" for x :: nat
  proof -
    have "x div 65536 = x div 256 div 256"
      by (simp flip: div_mult2_eq)
    moreover have "(x div 256 div 256) * 256 + x div 256 mod 256 = x div 256"
      "x div 256 * 256 + x mod 256 = x"
      by (rule div_mult_mod_eq)+
    ultimately show ?thesis
      by linarith
  qed
  then show ?thesis
    using assms bytes by (simp add: address24_def)
qed


lemma Command_status:
  "w25q64_Command [0x05] (Suc 0) env =
     (let (e, es) = next_event (events env); (e', es') = next_event es;
          env1 = env\<lparr>events := es, bus := [0x05], bus_fault := \<not> ev_ok e, bus_noise := ev_data e\<rparr>
      in if \<not> ev_ok e then (W25Q64_STATUS_TIMEOUT, [], env1)
         else if \<not> ev_ok e' then (W25Q64_STATUS_TIMEOUT, [ev_data e' 0], env1\<lparr>events := es'\<rparr>)
         else (W25Q64_STATUS_OK, [if ev_busy e' then 1 else 0],
               if ev_busy e' then env1\<lparr>events := es'\<rparr> else chip_finish (env1\<lparr>events := es'\<rparr>)))"
  by (simp add: w25q64_Command_def spi_send_def spi_receive_def w25q64_Select_def w25q64_Deselect_def
      pop_event_def spi_status_def chip_finish_def case_prod_unfold Let_def split: option.splits)

lemma chip_finish_simps [simp]:
  "flashMutex (chip_finish env) = flashMutex env" "jedec (chip_finish env) = jedec env"
  "ticks (chip_finish env) = ticks env" "events (chip_finish env) = events env"
  by (simp_all add: chip_finish_def split: option.splits)

lemma cells_chip_finish:
  "cells (chip_finish env) =
     (case inflight env of None \<Rightarrow> cells env | Some (a, n, f) \<Rightarrow> overlay a n f (cells env))"
  by (simp add: chip_finish_def split: option.splits)

lemma WaitReady_finishes:
  "w25q64_WaitReady n env = (s, env') \<Longrightarrow> finishes env env' s"
proof (induction n arbitrary: env)
  case (Suc n)
  show ?case
  proof (cases "ev_ok (fst (next_event (events env))) \<and> ev_ok (fst (next_event (snd (next_event (events env)))))
      \<and> ev_busy (fst (next_event (snd (next_event (events env)))))")
    case True
    then show ?thesis
      using Suc.prems
      by (auto simp: Command_status finishes_def cells_chip_finish case_prod_unfold Let_def split: option.splits
          dest!: Suc.IH)
  next
    case False
    then show ?thesis
      using Suc.prems
      by (auto simp: Command_status finishes_def cells_chip_finish case_prod_unfold Let_def
          split: if_splits option.splits)
  qed
qed (simp add: finishes_def)

lemma WaitReady_quiet: "quiet (events env) \<Longrightarrow> 0 < n \<Longrightarrow> fst (w25q64_WaitReady n env) = W25Q64_STATUS_OK"
  by (cases n) (simp_all add: Command_status case_prod_unfold Let_def)


subsection \<open>Sector erase and page program\<close>

lemma AddressBytes_modifies:
  assumes "unat a < 2 ^ 24"
  shows "chip_modifies (w25q64_AddressBytes 0x20 a) env =
      (if write_enabled env then Some (unat a - unat a mod 4096, 4096, \<lambda>_. 0xFF) else None)"
    and "chip_modifies (w25q64_AddressBytes 0x02 a) env = None"
    and "data \<noteq> [] \<Longrightarrow> unat a mod 256 + length data \<le> 256 \<Longrightarrow>
      chip_modifies (w25q64_AddressBytes 0x02 a @ data) env =
      (if write_enabled env then Some (unat a, length data, \<lambda>i. cells env i AND data ! (i - unat a)) else None)"
  using assms by (simp_all add: w25q64_AddressBytes_def address24_bytes Let_def)

lemma AddressBytes_not_special [simp]:
  "w25q64_AddressBytes c a \<noteq> [x]" "w25q64_AddressBytes c a @ data \<noteq> [x]"
  by (simp_all add: w25q64_AddressBytes_def)

lemma WaitReady_writes:
  assumes "starts a n new env (W25Q64_STATUS_OK, env2)" "0 < k"
  shows "writes a n new env (w25q64_WaitReady k env2)"
proof -
  obtain s env' where w: "w25q64_WaitReady k env2 = (s, env')"
    by fastforce
  have "overlay a n new (cells env2) = overlay a n new (cells env)"
    using assms(1) by (auto simp: starts_def touches_def overlay_def)
  moreover have "quiet (events env2) \<longrightarrow> s = W25Q64_STATUS_OK"
    using WaitReady_quiet[of env2 k] assms(2) w by simp
  ultimately show ?thesis
    using WaitReady_finishes[OF w] assms(1)
    by (simp add: w writes_def starts_def finishes_def touches_def cells_chip_finish overlay_def)
qed

lemma modify_writes:
  assumes send: "\<And>env1. write_enabled env1 \<Longrightarrow> cells env1 = cells env \<Longrightarrow> starts a n new env1 (send env1)"
    and "0 < k"
  shows "writes a n new env
    (let (s1, env1) = w25q64_WriteEnable env;
         (s2, env2) = (if s1 = W25Q64_STATUS_OK then send env1 else (s1, env1))
     in if s2 = W25Q64_STATUS_OK then w25q64_WaitReady k env2 else (s2, env2))"
proof -
  obtain s1 env1 where we: "w25q64_WriteEnable env = (s1, env1)"
    by fastforce
  note en = WriteEnable_cases[OF we]
  have frame: "touches a n env env1"
    using en(2)[of a] by (rule touches_mono) simp_all
  show ?thesis
  proof (cases "s1 = W25Q64_STATUS_OK")
    case False
    then show ?thesis
      using frame en by (auto simp: we writes_def)
  next
    case True
    obtain s2 env2 where sd: "send env1 = (s2, env2)"
      by fastforce
    have st: "starts a n new env1 (s2, env2)"
      using send[of env1] en True sd by simp
    moreover have "quiet (events env) \<longrightarrow> quiet (events env1)"
      using frame by (simp add: touches_def)
    ultimately have "starts a n new env (s2, env2)"
      using touches_trans[OF frame] by (auto simp: starts_def)
    then show ?thesis
      using True WaitReady_writes[OF _ \<open>0 < k\<close>, of a n new env env2]
      by (simp add: we sd) (auto simp: starts_def writes_def)
  qed
qed

lemma EraseSectorUnlocked_writes:
  assumes "unat a < 2 ^ 24" "unat a mod 4096 = 0"
  shows "writes (unat a) 4096 (\<lambda>_. 0xFF) env (w25q64_EraseSectorUnlocked a env)"
  unfolding w25q64_EraseSectorUnlocked_def
  by (rule modify_writes)
    (use assms in \<open>simp_all add: Command_send w25q64_Deselect_def AddressBytes_modifies starts_def
      touches_def case_prod_unfold Let_def\<close>)

lemma ProgramPage_writes:
  assumes "unat a < 2 ^ 24" "unat a mod 256 + length chunk \<le> 256" "chunk \<noteq> []"
  shows "writes (unat a) (length chunk) (\<lambda>i. cells env i AND chunk ! (i - unat a)) env
    (w25q64_ProgramPage a chunk env)"
  unfolding w25q64_ProgramPage_def
proof (rule modify_writes, goal_cases)
  case (1 env1)
  then show ?case
    using assms quiet_next(1)[of "events env1"]
    by (cases "ev_ok (fst (next_event (events env1)))")
      (auto simp: spi_send_def w25q64_Select_def pop_event_def spi_status_def w25q64_Deselect_def
        AddressBytes_modifies starts_def touches_def case_prod_unfold Let_def)
qed simp

subsection \<open>Ranges\<close>

lemma IsRangeValid_iff:
  "w25q64_IsRangeValid a n \<longleftrightarrow> 0 < unat n \<and> unat a + unat n \<le> W25Q64_CAPACITY_BYTES"
proof (cases "n \<le> (W25Q64_CAPACITY_BYTES :: u32)")
  case True
  then have "unat (W25Q64_CAPACITY_BYTES - n) = W25Q64_CAPACITY_BYTES - unat n"
    by (simp add: unat_sub)
  with True show ?thesis
    by (auto simp: w25q64_IsRangeValid_def word_le_nat_alt unat_gt_0)
next
  case False
  then show ?thesis
    by (auto simp: w25q64_IsRangeValid_def word_le_nat_alt)
qed

lemma writes_seq:
  assumes w1: "writes b m f env (W25Q64_STATUS_OK, env1)" and w2: "writes a k g env1 r"
    and cover: "\<And>i. c \<le> i \<and> i < c + n \<longleftrightarrow> b \<le> i \<and> i < b + m \<or> a \<le> i \<and> i < a + k"
    and f: "\<And>i. b \<le> i \<Longrightarrow> i < b + m \<Longrightarrow> \<not> (a \<le> i \<and> i < a + k) \<Longrightarrow> h i = f i"
    and g: "\<And>i. a \<le> i \<Longrightarrow> i < a + k \<Longrightarrow> h i = g i"
  shows "writes c n h env r"
proof -
  have t: "touches c n env env1" "touches c n env1 (snd r)"
    using w1 w2 unfolding writes_def touches_def by (simp_all add: cover)
  moreover have "quiet (events env) \<longrightarrow> quiet (events env1)"
    using t(1) by (simp add: touches_def)
  moreover have "overlay a k g (overlay b m f d) = overlay c n h d" for d
    unfolding overlay_def fun_eq_iff cover using f g by auto
  ultimately show ?thesis
    using w1 w2 touches_trans[OF t] by (auto simp: writes_def)
qed

lemma ProgramPages_writes:
  assumes "unat a + length data \<le> W25Q64_CAPACITY_BYTES"
  shows "writes (unat a) (length data) (\<lambda>i. cells env i AND data ! (i - unat a)) env
    (w25q64_ProgramPages a data env)"
  using assms
proof (induction a data env rule: w25q64_ProgramPages.induct)
  case (1 a data env)
  show ?case
  proof (cases "data = []")
    case True
    then show ?thesis
      by (simp add: w25q64_ProgramPages.simps writes_def)
  next
    case False
    define k where "k = min (256 - unat (a mod 256)) (length data)"
    have amod: "unat (a mod 256) = unat a mod 256"
      by (simp add: unat_mod)
    then have k: "0 < k" "k \<le> length data" "unat a mod 256 + k \<le> 256"
      using False by (simp_all add: k_def)
    obtain s1 env1 where p: "w25q64_ProgramPage a (take k data) env = (s1, env1)"
      by fastforce
    have w1: "writes (unat a) k (\<lambda>i. cells env i AND take k data ! (i - unat a)) env (s1, env1)"
      using ProgramPage_writes[of a "take k data" env] "1.prems" k False p
      by (simp add: min.absorb2)
    have next_a: "unat (a + of_nat k) = unat a + k"
      using "1.prems" k by (subst unat_add_no_wrap) (simp_all add: unat_of_nat take_bit_nat_eq_self)
    have unfold: "w25q64_ProgramPages a data env =
        (if s1 \<noteq> W25Q64_STATUS_OK then (s1, env1)
         else w25q64_ProgramPages (a + of_nat k) (drop k data) env1)"
      using False p by (simp add: w25q64_ProgramPages.simps[of a data] k_def Let_def)
    show ?thesis
    proof (cases "s1 = W25Q64_STATUS_OK")
      case s1: False
      then show ?thesis
        using w1 k(2) by (auto simp: unfold writes_def elim: touches_mono)
    next
      case True
      then have w1': "writes (unat a) k (\<lambda>i. cells env i AND take k data ! (i - unat a)) env
          (W25Q64_STATUS_OK, env1)"
        using w1 by simp
      have "writes (unat (a + of_nat k)) (length (drop k data))
          (\<lambda>i. cells env1 i AND drop k data ! (i - unat (a + of_nat k))) env1
          (w25q64_ProgramPages (a + of_nat k) (drop k data) env1)"
        using "1.IH"[OF False k_def p[symmetric]] True "1.prems" k next_a by simp
      then have w2: "writes (unat a + k) (length data - k)
          (\<lambda>i. cells env1 i AND drop k data ! (i - (unat a + k))) env1
          (w25q64_ProgramPages (a + of_nat k) (drop k data) env1)"
        by (simp add: next_a)
      have "writes (unat a) (k + (length data - k)) (\<lambda>i. cells env i AND data ! (i - unat a)) env
          (w25q64_ProgramPages (a + of_nat k) (drop k data) env1)"
        using w1' by (intro writes_seq[OF w1' w2]) (auto simp: writes_def touches_def)
      then show ?thesis
        using k True by (simp add: unfold)
    qed
  qed
qed

lemma EraseDown_writes:
  assumes "unat first mod 4096 = 0" "unat current = unat first + 4096 * m" "m < n"
    "unat current + 4096 \<le> W25Q64_CAPACITY_BYTES"
  shows "writes (unat first) (4096 * m + 4096) (\<lambda>_. 0xFF) env (w25q64_EraseDown n first current env)"
  using assms
proof (induction m arbitrary: n current env)
  case 0
  then have "current = first"
    by (simp add: word_unat_eq_iff)
  with 0 show ?case
    using EraseSectorUnlocked_writes[of first env]
    by (cases n) (auto simp: case_prod_unfold Let_def)
next
  case (Suc m)
  then obtain n' where n: "n = Suc n'" "m < n'"
    by (cases n) auto
  have ne: "current \<noteq> first"
    using Suc.prems by auto
  have prev: "unat (current - 4096) = unat first + 4096 * m"
    using Suc.prems by (subst unat_sub) (auto simp: word_le_nat_alt)
  obtain s1 env1 where e: "w25q64_EraseSectorUnlocked current env = (s1, env1)"
    by fastforce
  have "unat current mod 4096 = 0"
    using Suc.prems by (simp only: mod_mult_self2)
  then have w1: "writes (unat current) 4096 (\<lambda>_. 0xFF) env (s1, env1)"
    using EraseSectorUnlocked_writes[of current env] Suc.prems e by simp
  show ?case
  proof (cases "s1 = W25Q64_STATUS_OK")
    case False
    then show ?thesis
      using w1 Suc.prems by (auto simp: n e writes_def elim: touches_mono)
  next
    case True
    have w2: "writes (unat first) (4096 * m + 4096) (\<lambda>_. 0xFF) env1
        (w25q64_EraseDown n' first (current - 4096) env1)"
      using Suc.prems n prev by (intro Suc.IH) auto
    have "writes (unat first) (4096 * Suc m + 4096) (\<lambda>_. 0xFF) env
        (w25q64_EraseDown n' first (current - 4096) env1)"
      using w1 True Suc.prems by (intro writes_seq[OF _ w2]) auto
    then show ?thesis
      using True ne by (simp add: n e)
  qed
qed
lemma take_flash_cells: "take_flash env = (b, env') \<Longrightarrow> cells env' = cells env"
  by (auto simp: take_flash_def xSemaphoreTake_def pop_event_def case_prod_unfold Let_def split: if_splits)

lemma locked_writes:
  assumes "\<And>env1. cells env1 = cells env \<Longrightarrow> writes a n new env1 (f env1)"
  shows "commits a n new env
      (case take_flash env of (locked, env1) \<Rightarrow>
         if \<not> locked then (W25Q64_STATUS_IO_ERROR, env1) else f env1)"
    and "healthy env \<Longrightarrow> fst
      (case take_flash env of (locked, env1) \<Rightarrow>
         if \<not> locked then (W25Q64_STATUS_IO_ERROR, env1) else f env1)
      = W25Q64_STATUS_OK"
proof -
  obtain l env1 where l: "take_flash env = (l, env1)"
    by fastforce
  have t: "touches a n env env1"
    using take_flash_touches(1)[OF l, of a] by (rule touches_mono) simp_all
  have w: "writes a n new env1 (f env1)"
    using assms take_flash_cells[OF l] by simp
  show "commits a n new env
      (case take_flash env of (locked, env1) \<Rightarrow>
         if \<not> locked then (W25Q64_STATUS_IO_ERROR, env1) else f env1)"
    using t w touches_trans[OF t] take_flash_cells[OF l] by (simp add: l commits_def writes_def)
  show "healthy env \<Longrightarrow> fst
      (case take_flash env of (locked, env1) \<Rightarrow>
         if \<not> locked then (W25Q64_STATUS_IO_ERROR, env1) else f env1)
      = W25Q64_STATUS_OK"
    using take_flash_touches(2)[OF l] touches_healthy[OF t] w by (simp add: l writes_def healthy_def)
qed

lemma commits_refused [simp]: "commits a n new env (W25Q64_STATUS_INVALID_ARGUMENT, env)"
  by (simp add: commits_def)

lemma EraseSector_range:
  "\<not> (a \<ge> W25Q64_CAPACITY_BYTES \<or> a mod W25Q64_SECTOR_SIZE \<noteq> (0 :: u32)) \<longleftrightarrow>
     unat a < W25Q64_CAPACITY_BYTES \<and> unat a mod W25Q64_SECTOR_SIZE = 0"
  by (simp add: word_less_nat_alt word_le_nat_alt word_unat_eq_iff unat_mod not_le)

lemma EraseSector_commits: "commits (unat a) 4096 (\<lambda>_. 0xFF) env (W25Q64_EraseSector a env)"
  using EraseSector_range[of a]
  by (auto simp: W25Q64_EraseSector_def simp del: One_nat_def intro!: locked_writes(1) EraseSectorUnlocked_writes)

lemma EraseSector_healthy:
  "healthy env \<Longrightarrow> unat a < W25Q64_CAPACITY_BYTES \<Longrightarrow> unat a mod W25Q64_SECTOR_SIZE = 0 \<Longrightarrow>
     fst (W25Q64_EraseSector a env) = W25Q64_STATUS_OK"
  using EraseSector_range[of a]
  by (auto simp: W25Q64_EraseSector_def intro!: locked_writes(2) EraseSectorUnlocked_writes)

lemma Program_commits:
  assumes "length data < 2 ^ 32"
  shows "commits (unat a) (length data) (\<lambda>i. cells env i AND data ! (i - unat a)) env
    (W25Q64_Program a (Some data) env)"
proof (cases "w25q64_IsRangeValid a (of_nat (length data))")
  case True
  then have "unat a + length data \<le> W25Q64_CAPACITY_BYTES"
    using assms by (simp add: IsRangeValid_iff unat_of_nat take_bit_nat_eq_self)
  then have "writes (unat a) (length data) (\<lambda>i. cells env i AND data ! (i - unat a)) env1
      (w25q64_ProgramPages a data env1)" if "cells env1 = cells env" for env1
    using ProgramPages_writes[of a data env1] that by simp
  with True show ?thesis
    by (auto simp: W25Q64_Program_def intro!: locked_writes(1))
qed (simp add: W25Q64_Program_def)

lemma Program_healthy:
  assumes "healthy env" "data \<noteq> []" "unat a + length data \<le> W25Q64_CAPACITY_BYTES"
  shows "fst (W25Q64_Program a (Some data) env) = W25Q64_STATUS_OK"
proof -
  have "w25q64_IsRangeValid a (of_nat (length data))"
    using assms by (simp add: IsRangeValid_iff unat_of_nat take_bit_nat_eq_self)
  moreover have "writes (unat a) (length data) (\<lambda>i. cells env i AND data ! (i - unat a)) env1
      (w25q64_ProgramPages a data env1)" if "cells env1 = cells env" for env1
    using ProgramPages_writes[of a data env1] that assms by simp
  ultimately show ?thesis
    using assms(1) by (auto simp: W25Q64_Program_def intro!: locked_writes(2))
qed

lemma EraseRange_sectors:
  assumes "w25q64_IsRangeValid a n" "unat n mod 4096 = 0"
  obtains m where "unat n = 4096 * m + 4096" "unat (a + n - 4096) = unat a + 4096 * m"
proof -
  obtain k where "unat n = 4096 * k" "k \<noteq> 0"
    using assms by (auto simp: IsRangeValid_iff)
  then obtain m where m: "unat n = 4096 * m + 4096"
    by (cases k) auto
  have "unat (a + n) = unat a + unat n"
    using assms(1) by (intro unat_add_no_wrap) (simp add: IsRangeValid_iff)
  then have "unat (a + n - 4096) = unat a + 4096 * m"
    using m by (subst unat_sub) (auto simp: word_le_nat_alt)
  with m show ?thesis
    by (rule that)
qed

lemma EraseRange_writes:
  assumes "w25q64_IsRangeValid a n" "unat a mod 4096 = 0" "unat n mod 4096 = 0"
  shows "writes (unat a) (unat n) (\<lambda>_. 0xFF) env (w25q64_EraseDown 2048 a (a + n - 4096) env)"
proof -
  obtain m where "unat n = 4096 * m + 4096" "unat (a + n - 4096) = unat a + 4096 * m"
    using EraseRange_sectors[OF assms(1,3)] .
  then show ?thesis
    using EraseDown_writes[of a "a + n - 4096" m 2048 env] assms by (simp add: IsRangeValid_iff)
qed

lemma EraseRange_guard:
  "\<not> (n = 0 \<or> a mod W25Q64_SECTOR_SIZE \<noteq> (0 :: u32) \<or> n mod W25Q64_SECTOR_SIZE \<noteq> (0 :: u32)
      \<or> \<not> w25q64_IsRangeValid a n) \<longleftrightarrow>
     w25q64_IsRangeValid a n \<and> unat a mod 4096 = 0 \<and> unat n mod 4096 = 0"
  by (auto simp: word_unat_eq_iff unat_mod w25q64_IsRangeValid_def)

lemma EraseRange_commits: "commits (unat a) (unat n) (\<lambda>_. 0xFF) env (W25Q64_EraseRange a n env)"
  using EraseRange_guard[of n a]
  by (auto simp: W25Q64_EraseRange_def intro!: locked_writes(1) EraseRange_writes)

lemma EraseRange_healthy:
  "healthy env \<Longrightarrow> w25q64_IsRangeValid a n \<Longrightarrow> unat a mod 4096 = 0 \<Longrightarrow> unat n mod 4096 = 0 \<Longrightarrow>
     fst (W25Q64_EraseRange a n env) = W25Q64_STATUS_OK"
  using EraseRange_guard[of n a]
  by (auto simp: W25Q64_EraseRange_def intro!: locked_writes(2) EraseRange_writes)

lemma Command_read_eq:
  assumes "unat a < 2 ^ 24" "n \<noteq> 0"
  shows "w25q64_Command (w25q64_AddressBytes 0x03 a) n env =
     (let (e, es) = next_event (events env); (e', es') = next_event es;
          env1 = env\<lparr>events := es, bus := w25q64_AddressBytes 0x03 a, bus_fault := \<not> ev_ok e,
                     bus_noise := ev_data e\<rparr>
      in if \<not> ev_ok e then (W25Q64_STATUS_TIMEOUT, [], env1)
         else if \<not> ev_ok e' then (W25Q64_STATUS_TIMEOUT, map (ev_data e') [0..<n], env1\<lparr>events := es'\<rparr>)
         else (W25Q64_STATUS_OK, cells_at (cells env) (unat a) n, env1\<lparr>events := es'\<rparr>))"
proof -
  have none: "chip_modifies (w25q64_AddressBytes 0x03 a) e = None" for e
    by (simp add: w25q64_AddressBytes_def Let_def)
  have resp: "chip_response (w25q64_AddressBytes 0x03 a) n e e' = cells_at (cells e') (unat a) n" for e e'
    using assms by (simp add: w25q64_AddressBytes_def address24_bytes)
  show ?thesis
    using assms(2)
    by (simp add: w25q64_Command_def spi_send_def spi_receive_def w25q64_Select_def w25q64_Deselect_def
        pop_event_def spi_status_def none resp case_prod_unfold Let_def)
qed

lemma Command_read:
  assumes "unat a < 2 ^ 24" "n \<noteq> 0"
    and "w25q64_Command (w25q64_AddressBytes 0x03 a) n env = (s, d, env')"
  shows "cells env' = cells env" "touches b 0 env env'"
    "s = W25Q64_STATUS_OK \<Longrightarrow> d = cells_at (cells env) (unat a) n"
    "quiet (events env) \<Longrightarrow> s = W25Q64_STATUS_OK"
  using assms(3) unfolding Command_read_eq[OF assms(1,2)]
  by (auto simp: touches_def case_prod_unfold Let_def split: if_splits)

lemma Read_spec:
  assumes "W25Q64_Read a n env = (s, d, env')"
  shows "cells env' = cells env" "touches b 0 env env'"
    "s = W25Q64_STATUS_OK \<Longrightarrow> d = cells_at (cells env) (unat a) (unat n)"
    "healthy env \<Longrightarrow> 0 < unat n \<Longrightarrow> unat a + unat n \<le> W25Q64_CAPACITY_BYTES \<Longrightarrow> s = W25Q64_STATUS_OK"
proof -
  obtain l env1 where l: "take_flash env = (l, env1)"
    by fastforce
  note lk = take_flash_cells[OF l] take_flash_touches[OF l]
  have "cells env' = cells env \<and> touches b 0 env env' \<and>
      (s = W25Q64_STATUS_OK \<longrightarrow> d = cells_at (cells env) (unat a) (unat n)) \<and>
      (healthy env \<longrightarrow> w25q64_IsRangeValid a n \<longrightarrow> s = W25Q64_STATUS_OK)"
  proof (cases "w25q64_IsRangeValid a n \<and> l")
    case True
    then have "unat a < 2 ^ 24" "unat n \<noteq> 0"
      by (auto simp: IsRangeValid_iff)
    moreover have "w25q64_Command (w25q64_AddressBytes 0x03 a) (unat n) env1 = (s, d, env')"
      using assms True l by (simp add: W25Q64_Read_def)
    ultimately show ?thesis
      using Command_read[of a "unat n" env1 s d env'] lk touches_trans[of b 0 env env1 env']
        touches_healthy[of b 0 env env1] by (auto simp: healthy_def)
  next
    case False
    then show ?thesis
      using assms l lk by (auto simp: W25Q64_Read_def split: if_splits)
  qed
  then show "cells env' = cells env" "touches b 0 env env'"
    "s = W25Q64_STATUS_OK \<Longrightarrow> d = cells_at (cells env) (unat a) (unat n)"
    "healthy env \<Longrightarrow> 0 < unat n \<Longrightarrow> unat a + unat n \<le> W25Q64_CAPACITY_BYTES \<Longrightarrow> s = W25Q64_STATUS_OK"
    by (auto simp: IsRangeValid_iff)
qed

lemma u8_ones_and [simp]: "0xFF AND b = (b :: u8)" "b AND 0xFF = (b :: u8)"
proof -
  have "(0xFF :: u8) = - 1"
    by simp
  then show "0xFF AND b = (b :: u8)" "b AND 0xFF = (b :: u8)"
    by (simp_all only: and.left_neutral and.right_neutral)
qed

subsection \<open>Order of a range erase\<close>

text \<open>A range erase that fails has erased every sector above some boundary sector and
  has not reached any below it.\<close>

lemma EraseDown_boundary:
  assumes "unat first mod 4096 = 0" "unat current = unat first + 4096 * m" "m < n"
    "unat current + 4096 \<le> W25Q64_CAPACITY_BYTES"
    and "w25q64_EraseDown n first current env = (s, env')" "s \<noteq> W25Q64_STATUS_OK"
  shows "\<exists>j\<le>m. (\<forall>i. i < unat first + 4096 * j \<longrightarrow> cells env' i = cells env i) \<and>
    (\<forall>i. unat first + 4096 * j + 4096 \<le> i \<and> i < unat first + 4096 * m + 4096 \<longrightarrow> cells env' i = 0xFF)"
  using assms
proof (induction n arbitrary: m current env)
  case (Suc n)
  obtain s1 env1 where e: "w25q64_EraseSectorUnlocked current env = (s1, env1)"
    by fastforce
  have "unat current mod 4096 = 0"
    using Suc.prems(1,2) by simp
  then have w1: "writes (unat current) 4096 (\<lambda>_. 0xFF) env (s1, env1)"
    using EraseSectorUnlocked_writes[of current env] Suc.prems(4) e by simp
  show ?case
  proof (cases "s1 \<noteq> W25Q64_STATUS_OK \<or> current = first")
    case True
    then have "env' = env1" "s1 = s"
      using Suc.prems(5) e by auto
    then show ?thesis
      using w1 Suc.prems(2) by (intro exI[of _ m]) (auto simp: writes_def touches_def)
  next
    case False
    then obtain m' where m: "m = Suc m'"
      using Suc.prems(2) by (cases m) (auto simp: word_unat_eq_iff)
    have prev: "unat (current - 4096) = unat first + 4096 * m'"
      using Suc.prems(2) m by (subst unat_sub) (auto simp: word_le_nat_alt)
    have rec: "w25q64_EraseDown n first (current - 4096) env1 = (s, env')"
      using Suc.prems(5) e False by simp
    have c: "m' < n" "unat (current - 4096) + 4096 \<le> W25Q64_CAPACITY_BYTES"
      using Suc.prems(2-4) m prev by simp_all
    obtain j where j: "j \<le> m'" "\<And>i. i < unat first + 4096 * j \<Longrightarrow> cells env' i = cells env1 i"
      "\<And>i. unat first + 4096 * j + 4096 \<le> i \<Longrightarrow> i < unat first + 4096 * m' + 4096 \<Longrightarrow> cells env' i = 0xFF"
      using Suc.IH[OF Suc.prems(1) prev c rec Suc.prems(6)] by blast
    have above: "cells env' i = 0xFF" if "unat current \<le> i" "i < unat current + 4096" for i
    proof -
      have "touches (unat first) (4096 * m' + 4096) env1 env'"
        using EraseDown_writes[of first "current - 4096" m' n env1] Suc.prems(1) c prev rec
        by (simp add: writes_def)
      then have "cells env' i = cells env1 i"
        using that Suc.prems(2) m by (auto simp: touches_def)
      then show ?thesis
        using w1 False that by (simp add: writes_def overlay_def)
    qed
    have below: "cells env1 i = cells env i" if "i < unat current" for i
      using w1 that by (simp add: writes_def touches_def)
    show ?thesis
    proof (intro exI[of _ j] conjI allI impI)
      show "j \<le> m"
        using j(1) m by simp
    next
      fix i assume i: "i < unat first + 4096 * j"
      moreover have "4096 * j \<le> 4096 * m'"
        using j(1) by simp
      ultimately have "i < unat current"
        using Suc.prems(2) m by simp
      then show "cells env' i = cells env i"
        using j(2)[OF i] below by simp
    next
      fix i assume "unat first + 4096 * j + 4096 \<le> i \<and> i < unat first + 4096 * m + 4096"
      then show "cells env' i = 0xFF"
        using j(3)[of i] above[of i] Suc.prems(2) m by (cases "i < unat current") auto
    qed
  qed
qed simp

subsection \<open>The contract of the stores' flash\<close>

locale nor_flash =
  fixes rd :: "u32 \<Rightarrow> u32 \<Rightarrow> 'e \<Rightarrow> 's \<times> u8 list \<times> 'e"
    and er :: "u32 \<Rightarrow> 'e \<Rightarrow> 's \<times> 'e"
    and pr :: "u32 \<Rightarrow> u8 list option \<Rightarrow> 'e \<Rightarrow> 's \<times> 'e"
    and ok :: 's
    and mem :: "'e \<Rightarrow> nat \<Rightarrow> u8"
    and good :: "'e \<Rightarrow> bool"
    and capacity sector :: nat
  assumes rd_mem: "rd a n e = (s, d, e') \<Longrightarrow> mem e' = mem e"
    and rd_data: "rd a n e = (ok, d, e') \<Longrightarrow> d = cells_at (mem e) (unat a) (unat n)"
    and rd_good: "good e \<Longrightarrow> rd a n e = (s, d, e') \<Longrightarrow>
      good e' \<and> (0 < unat n \<longrightarrow> unat a + unat n \<le> capacity \<longrightarrow> s = ok)"
    and er_frame: "er a e = (s, e') \<Longrightarrow> i < unat a \<or> unat a + sector \<le> i \<Longrightarrow> mem e' i = mem e i"
    and er_data: "er a e = (ok, e') \<Longrightarrow> unat a \<le> i \<Longrightarrow> i < unat a + sector \<Longrightarrow> mem e' i = 0xFF"
    and er_good: "good e \<Longrightarrow> er a e = (s, e') \<Longrightarrow>
      good e' \<and> (unat a < capacity \<longrightarrow> unat a mod sector = 0 \<longrightarrow> s = ok)"
    and pr_frame: "pr a (Some bs) e = (s, e') \<Longrightarrow> length bs < 2 ^ 32 \<Longrightarrow>
      i < unat a \<or> unat a + length bs \<le> i \<Longrightarrow> mem e' i = mem e i"
    and pr_data: "pr a (Some bs) e = (ok, e') \<Longrightarrow> length bs < 2 ^ 32 \<Longrightarrow>
      j < length bs \<Longrightarrow> mem e' (unat a + j) = mem e (unat a + j) AND bs ! j"
    and pr_good: "good e \<Longrightarrow> pr a (Some bs) e = (s, e') \<Longrightarrow> length bs < 2 ^ 32 \<Longrightarrow>
      good e' \<and> (bs \<noteq> [] \<longrightarrow> unat a + length bs \<le> capacity \<longrightarrow> s = ok)"
    and sector_small: "sector < 2 ^ 32"
begin

text \<open>Programming blank cells stores the bytes.\<close>

lemma program_blank:
  assumes "pr a (Some bs) e = (ok, e')" "length bs < 2 ^ 32"
    and "cells_at (mem e) (unat a) (length bs) = replicate (length bs) 0xFF"
  shows "cells_at (mem e') (unat a) (length bs) = bs"
proof -
  have "mem e (unat a + j) = 0xFF" if "j < length bs" for j
    using arg_cong[OF assms(3), of "\<lambda>l. l ! j"] that by simp
  then show ?thesis
    using pr_data[OF assms(1,2)] by (simp add: cells_at_eq_iff)
qed

lemma erase_blank:
  assumes "er a e = (ok, e')" "n \<le> sector"
  shows "cells_at (mem e') (unat a) n = replicate n 0xFF"
  using er_data[OF assms(1)] assms(2) by (simp add: cells_at_eq_iff)

lemma erase_program:
  assumes "er a e = (ok, e1)" "pr a (Some bs) e1 = (ok, e2)" "length bs \<le> sector"
  shows "cells_at (mem e2) (unat a) (length bs) = bs"
  using assms sector_small by (intro program_blank[OF assms(2)] erase_blank[OF assms(1)]) auto

lemma erase_program_frame:
  assumes "er a e = (s1, e1)" "pr a (Some bs) e1 = (s2, e2)" "length bs \<le> sector"
    "i < unat a \<or> unat a + sector \<le> i"
  shows "mem e2 i = mem e i"
  using er_frame[OF assms(1,4)] pr_frame[OF assms(2), of i] assms(3,4) sector_small by auto

end

interpretation flash: nor_flash W25Q64_Read W25Q64_EraseSector W25Q64_Program W25Q64_STATUS_OK
  cells healthy W25Q64_CAPACITY_BYTES W25Q64_SECTOR_SIZE
proof (unfold_locales, goal_cases)
  case (1 a n e s d e')
  then show ?case
    by (rule Read_spec(1))
next
  case (2 a n e d e')
  then show ?case
    using Read_spec(3)[OF 2] by simp
next
  case (3 e a n s d e')
  then show ?case
    using Read_spec[OF 3(2)] touches_healthy[of 0 0 e e'] by blast
next
  case (4 a e s e' i)
  then show ?case
    using EraseSector_commits[of a e] by (auto simp: commits_def touches_def)
next
  case (5 a e e' i)
  then show ?case
    using EraseSector_commits[of a e] by (simp add: commits_def overlay_def)
next
  case (6 e a s e')
  then show ?case
    using EraseSector_commits[of a e] EraseSector_healthy[of e a] touches_healthy[of "unat a" 4096 e e']
    by (simp add: commits_def)
next
  case (7 a bs e s e' i)
  then show ?case
    using Program_commits[of bs a e] by (auto simp: commits_def touches_def)
next
  case (8 a bs e e' j)
  then show ?case
    using Program_commits[of bs a e] by (simp add: commits_def overlay_def)
next
  case (9 e a bs s e')
  then show ?case
    using Program_commits[of bs a e] Program_healthy[of e bs a] touches_healthy[of "unat a" "length bs" e e']
    by (simp add: commits_def)
qed simp

lemma EraseRange_boundary:
  assumes run: "W25Q64_EraseRange a n env = (s, env')" and s: "s \<noteq> W25Q64_STATUS_OK"
  shows "cells env' = cells env \<or>
    (\<exists>boundary j. boundary = unat a + 4096 * j \<and> unat a \<le> boundary \<and> (\<forall>i<boundary. cells env' i = cells env i) \<and>
      (\<forall>i. boundary + W25Q64_SECTOR_SIZE \<le> i \<and> i < unat a + unat n \<longrightarrow> cells env' i = 0xFF))"
proof (cases "w25q64_IsRangeValid a n \<and> unat a mod 4096 = 0 \<and> unat n mod 4096 = 0 \<and> fst (take_flash env)")
  case False
  then show ?thesis
    using run EraseRange_guard[of n a] take_flash_cells[of env]
    by (cases "take_flash env") (auto simp: W25Q64_EraseRange_def split: if_splits)
next
  case True
  obtain env1 where l: "take_flash env = (True, env1)"
    using True by (cases "take_flash env") auto
  have loop: "w25q64_EraseDown 2048 a (a + n - 4096) env1 = (s, env')"
    using run True l EraseRange_guard[of n a] by (auto simp: W25Q64_EraseRange_def split: if_splits)
  obtain m where m: "unat n = 4096 * m + 4096" "unat (a + n - 4096) = unat a + 4096 * m"
    using True EraseRange_sectors[of a n] by auto
  then obtain j where "\<forall>i. i < unat a + 4096 * j \<longrightarrow> cells env' i = cells env1 i"
    "\<forall>i. unat a + 4096 * j + 4096 \<le> i \<and> i < unat a + 4096 * m + 4096 \<longrightarrow> cells env' i = 0xFF"
    using EraseDown_boundary[of a "a + n - 4096" m 2048 env1 s env'] True s loop by (auto simp: IsRangeValid_iff)
  then show ?thesis
    using m take_flash_cells[OF l] by (intro disjI2 exI[of _ "unat a + 4096 * j"] exI[of _ j]) (simp add: add.assoc)
qed

subsection \<open>Properties\<close>

lemma cells_blank [simp]: "cells blank_env i = 0xFF"
  by (simp add: blank_env_def)

lemma healthy_blank [simp]: "healthy blank_env"
  by (simp add: healthy_def blank_env_def)

text \<open>C20: programming splits at page boundaries without a trace: whatever the hardware
  does, no cell outside the requested range changes; when the driver reports success
  every cell of the range is its old value with the data's zero bits cleared, as if the
  range had been written in one piece; and on hardware that answers a nonempty range
  inside the device succeeds.\<close>

theorem program_whole_range:
  assumes "length data < 2 ^ 32" and "W25Q64_Program a (Some data) env = (s, env')"
  shows "(\<forall>i. i < unat a \<or> unat a + length data \<le> i \<longrightarrow> cells env' i = cells env i) \<and>
    (s = W25Q64_STATUS_OK \<longrightarrow>
      (\<forall>j<length data. cells env' (unat a + j) = cells env (unat a + j) AND data ! j)) \<and>
    (healthy env \<and> data \<noteq> [] \<and> unat a + length data \<le> W25Q64_CAPACITY_BYTES \<longrightarrow> s = W25Q64_STATUS_OK)"
  using flash.pr_frame[OF assms(2,1)] flash.pr_data[of a data env env'] flash.pr_good[of env a data s env'] assms
  by blast

theorem program_whole_range_witness:
  "cells (snd (W25Q64_Program 0xFE (Some [1, 2, 3]) blank_env)) 0x100 = 3"
  using program_whole_range[of "[1, 2, 3]" "0xFE" blank_env "fst (W25Q64_Program 0xFE (Some [1, 2, 3]) blank_env)"
      "snd (W25Q64_Program 0xFE (Some [1, 2, 3]) blank_env)"]
  by (simp add: cells_blank All_less_Suc numeral_3_eq_3)

text \<open>C21: a range erase works from the highest sector down.  Whatever the hardware does,
  nothing outside the range changes; success means the whole range is erased; after a
  failure there is a boundary sector below which nothing was touched and above which
  everything is erased; and on hardware that answers an aligned range inside the device
  is erased.\<close>

theorem erase_range_descends:
  assumes "W25Q64_EraseRange a n env = (s, env')"
  shows "(\<forall>i. i < unat a \<or> unat a + unat n \<le> i \<longrightarrow> cells env' i = cells env i) \<and>
    (s = W25Q64_STATUS_OK \<longrightarrow> (\<forall>i. unat a \<le> i \<and> i < unat a + unat n \<longrightarrow> cells env' i = 0xFF)) \<and>
    (s \<noteq> W25Q64_STATUS_OK \<longrightarrow> cells env' = cells env \<or>
      (\<exists>j. (\<forall>i < unat a + W25Q64_SECTOR_SIZE * j. cells env' i = cells env i) \<and>
        (\<forall>i. unat a + W25Q64_SECTOR_SIZE * j + W25Q64_SECTOR_SIZE \<le> i \<and> i < unat a + unat n \<longrightarrow> cells env' i = 0xFF))) \<and>
    (healthy env \<and> w25q64_IsRangeValid a n \<and> unat a mod W25Q64_SECTOR_SIZE = 0
      \<and> unat n mod W25Q64_SECTOR_SIZE = 0 \<longrightarrow> s = W25Q64_STATUS_OK)"
proof (intro conjI impI)
  have c: "commits (unat a) (unat n) (\<lambda>_. 0xFF) env (s, env')"
    using EraseRange_commits[of a n env] assms by simp
  then show "\<forall>i. i < unat a \<or> unat a + unat n \<le> i \<longrightarrow> cells env' i = cells env i"
    by (auto simp: commits_def touches_def)
  show "\<forall>i. unat a \<le> i \<and> i < unat a + unat n \<longrightarrow> cells env' i = 0xFF" if "s = W25Q64_STATUS_OK"
    using c that by (simp add: commits_def overlay_def)
  show "cells env' = cells env \<or>
      (\<exists>j. (\<forall>i < unat a + W25Q64_SECTOR_SIZE * j. cells env' i = cells env i) \<and>
        (\<forall>i. unat a + W25Q64_SECTOR_SIZE * j + W25Q64_SECTOR_SIZE \<le> i \<and> i < unat a + unat n \<longrightarrow> cells env' i = 0xFF))"
    if "s \<noteq> W25Q64_STATUS_OK"
    using EraseRange_boundary[OF assms that] by auto
qed (use EraseRange_healthy[of env a n] assms in auto)

theorem erase_range_descends_witness:
  "fst (W25Q64_EraseRange 0x1000 0x2000 blank_env) = W25Q64_STATUS_OK \<and>
   cells (snd (W25Q64_EraseRange 0x1000 0x2000 blank_env)) 0x2FFF = 0xFF"
  using erase_range_descends[of "0x1000" "0x2000" blank_env "fst (W25Q64_EraseRange 0x1000 0x2000 blank_env)"
      "snd (W25Q64_EraseRange 0x1000 0x2000 blank_env)"]
  by (simp add: IsRangeValid_iff)

text \<open>C22: the range check on 32-bit words accepts exactly the nonempty ranges that end
  inside the 8 MiB device; no pair of address and length passes by wrapping around.\<close>

theorem range_check_exact:
  "w25q64_IsRangeValid address len \<longleftrightarrow> 0 < unat len \<and> unat address + unat len \<le> W25Q64_CAPACITY_BYTES"
  by (rule IsRangeValid_iff)

end
