(* ===== verification/Flash_Layout.thy ===== *)
theory Flash_Layout
  imports W25q64
begin

text \<open>
  \<open>Periph/Inc/flash_layout.h\<close>: which sectors of the W25Q64 each persistent store
  owns.  The constants are written as the header computes them, on 32-bit words; the
  lemmas in \<open>layout\<close> give their values, and the property shows that no two regions
  share a byte, which is what lets each store be verified on its own.
\<close>

named_theorems layout

definition from_top :: "u32 \<Rightarrow> u32" where
  "from_top sectors = W25Q64_CAPACITY_BYTES - sectors * W25Q64_SECTOR_SIZE"

definition FLASH_LAYOUT_USER_STORE_SECTOR_A :: u32 where
  "FLASH_LAYOUT_USER_STORE_SECTOR_A = from_top 2"

definition FLASH_LAYOUT_USER_STORE_SECTOR_B :: u32 where
  "FLASH_LAYOUT_USER_STORE_SECTOR_B = from_top 1"

definition FLASH_LAYOUT_HEALTH_CHECK_CONFIG_SECTOR_A :: u32 where
  "FLASH_LAYOUT_HEALTH_CHECK_CONFIG_SECTOR_A = from_top 4"

definition FLASH_LAYOUT_HEALTH_CHECK_CONFIG_SECTOR_B :: u32 where
  "FLASH_LAYOUT_HEALTH_CHECK_CONFIG_SECTOR_B = from_top 3"

definition FLASH_LAYOUT_TLS_SERVER_CREDENTIALS_SECTOR_A :: u32 where
  "FLASH_LAYOUT_TLS_SERVER_CREDENTIALS_SECTOR_A = from_top 6"

definition FLASH_LAYOUT_TLS_SERVER_CREDENTIALS_SECTOR_B :: u32 where
  "FLASH_LAYOUT_TLS_SERVER_CREDENTIALS_SECTOR_B = from_top 5"

definition FLASH_LAYOUT_HEALTH_CHECK_LOG_SECTOR_0 :: u32 where
  "FLASH_LAYOUT_HEALTH_CHECK_LOG_SECTOR_0 = from_top 8"

definition FLASH_LAYOUT_HEALTH_CHECK_LOG_SECTOR_1 :: u32 where
  "FLASH_LAYOUT_HEALTH_CHECK_LOG_SECTOR_1 = from_top 7"

definition FLASH_LAYOUT_TLS_TRUST_STORE_LEGACY_BANK_A :: u32 where
  "FLASH_LAYOUT_TLS_TRUST_STORE_LEGACY_BANK_A = from_top 12"

definition FLASH_LAYOUT_TLS_TRUST_STORE_LEGACY_BANK_B :: u32 where
  "FLASH_LAYOUT_TLS_TRUST_STORE_LEGACY_BANK_B = from_top 10"

definition FLASH_LAYOUT_TLS_TRUST_STORE_LEGACY_BANK_SECTORS :: nat where
  "FLASH_LAYOUT_TLS_TRUST_STORE_LEGACY_BANK_SECTORS = 2"

definition FLASH_LAYOUT_TLS_TRUST_STORE_BANK_A :: u32 where
  "FLASH_LAYOUT_TLS_TRUST_STORE_BANK_A = from_top 26"

definition FLASH_LAYOUT_TLS_TRUST_STORE_BANK_B :: u32 where
  "FLASH_LAYOUT_TLS_TRUST_STORE_BANK_B = from_top 22"

definition FLASH_LAYOUT_TLS_TRUST_STORE_BANK_SECTORS :: nat where
  "FLASH_LAYOUT_TLS_TRUST_STORE_BANK_SECTORS = 4"

definition FLASH_LAYOUT_FACTORY_RESET_MARKER_SECTOR :: u32 where
  "FLASH_LAYOUT_FACTORY_RESET_MARKER_SECTOR = from_top 27"

definition FLASH_LAYOUT_FACTORY_RESET_DATA_START :: u32 where
  "FLASH_LAYOUT_FACTORY_RESET_DATA_START = from_top 26"

definition FLASH_LAYOUT_FACTORY_RESET_DATA_LENGTH :: u32 where
  "FLASH_LAYOUT_FACTORY_RESET_DATA_LENGTH = 26 * W25Q64_SECTOR_SIZE"

definition FLASH_LAYOUT_CALLBACK_CONFIG_SECTOR_A :: u32 where
  "FLASH_LAYOUT_CALLBACK_CONFIG_SECTOR_A = from_top 29"

definition FLASH_LAYOUT_CALLBACK_CONFIG_SECTOR_B :: u32 where
  "FLASH_LAYOUT_CALLBACK_CONFIG_SECTOR_B = from_top 28"

definition FLASH_LAYOUT_TLS_TRUST_STORE_PREVIOUS_BANK_A :: u32 where
  "FLASH_LAYOUT_TLS_TRUST_STORE_PREVIOUS_BANK_A = from_top 18"

definition FLASH_LAYOUT_TLS_TRUST_STORE_PREVIOUS_BANK_B :: u32 where
  "FLASH_LAYOUT_TLS_TRUST_STORE_PREVIOUS_BANK_B = from_top 15"

definition FLASH_LAYOUT_TLS_TRUST_STORE_PREVIOUS_BANK_SECTORS :: nat where
  "FLASH_LAYOUT_TLS_TRUST_STORE_PREVIOUS_BANK_SECTORS = 3"

lemmas layout_values [layout] =
  FLASH_LAYOUT_USER_STORE_SECTOR_A_def FLASH_LAYOUT_USER_STORE_SECTOR_B_def
  FLASH_LAYOUT_HEALTH_CHECK_CONFIG_SECTOR_A_def FLASH_LAYOUT_HEALTH_CHECK_CONFIG_SECTOR_B_def
  FLASH_LAYOUT_TLS_SERVER_CREDENTIALS_SECTOR_A_def FLASH_LAYOUT_TLS_SERVER_CREDENTIALS_SECTOR_B_def
  FLASH_LAYOUT_HEALTH_CHECK_LOG_SECTOR_0_def FLASH_LAYOUT_HEALTH_CHECK_LOG_SECTOR_1_def
  FLASH_LAYOUT_TLS_TRUST_STORE_LEGACY_BANK_A_def FLASH_LAYOUT_TLS_TRUST_STORE_LEGACY_BANK_B_def
  FLASH_LAYOUT_TLS_TRUST_STORE_LEGACY_BANK_SECTORS_def
  FLASH_LAYOUT_TLS_TRUST_STORE_BANK_A_def FLASH_LAYOUT_TLS_TRUST_STORE_BANK_B_def
  FLASH_LAYOUT_TLS_TRUST_STORE_BANK_SECTORS_def
  FLASH_LAYOUT_FACTORY_RESET_MARKER_SECTOR_def FLASH_LAYOUT_FACTORY_RESET_DATA_START_def
  FLASH_LAYOUT_FACTORY_RESET_DATA_LENGTH_def
  FLASH_LAYOUT_CALLBACK_CONFIG_SECTOR_A_def FLASH_LAYOUT_CALLBACK_CONFIG_SECTOR_B_def
  FLASH_LAYOUT_TLS_TRUST_STORE_PREVIOUS_BANK_A_def FLASH_LAYOUT_TLS_TRUST_STORE_PREVIOUS_BANK_B_def
  FLASH_LAYOUT_TLS_TRUST_STORE_PREVIOUS_BANK_SECTORS_def from_top_def

text \<open>Every region as its first byte and its size in sectors.\<close>

definition flash_regions :: "(nat \<times> nat) list" where
  "flash_regions =
     [(unat FLASH_LAYOUT_CALLBACK_CONFIG_SECTOR_A, 1), (unat FLASH_LAYOUT_CALLBACK_CONFIG_SECTOR_B, 1),
      (unat FLASH_LAYOUT_FACTORY_RESET_MARKER_SECTOR, 1),
      (unat FLASH_LAYOUT_TLS_TRUST_STORE_BANK_A, FLASH_LAYOUT_TLS_TRUST_STORE_BANK_SECTORS),
      (unat FLASH_LAYOUT_TLS_TRUST_STORE_BANK_B, FLASH_LAYOUT_TLS_TRUST_STORE_BANK_SECTORS),
      (unat FLASH_LAYOUT_TLS_TRUST_STORE_PREVIOUS_BANK_A, FLASH_LAYOUT_TLS_TRUST_STORE_PREVIOUS_BANK_SECTORS),
      (unat FLASH_LAYOUT_TLS_TRUST_STORE_PREVIOUS_BANK_B, FLASH_LAYOUT_TLS_TRUST_STORE_PREVIOUS_BANK_SECTORS),
      (unat FLASH_LAYOUT_TLS_TRUST_STORE_LEGACY_BANK_A, FLASH_LAYOUT_TLS_TRUST_STORE_LEGACY_BANK_SECTORS),
      (unat FLASH_LAYOUT_TLS_TRUST_STORE_LEGACY_BANK_B, FLASH_LAYOUT_TLS_TRUST_STORE_LEGACY_BANK_SECTORS),
      (unat FLASH_LAYOUT_HEALTH_CHECK_LOG_SECTOR_0, 1), (unat FLASH_LAYOUT_HEALTH_CHECK_LOG_SECTOR_1, 1),
      (unat FLASH_LAYOUT_TLS_SERVER_CREDENTIALS_SECTOR_A, 1),
      (unat FLASH_LAYOUT_TLS_SERVER_CREDENTIALS_SECTOR_B, 1),
      (unat FLASH_LAYOUT_HEALTH_CHECK_CONFIG_SECTOR_A, 1),
      (unat FLASH_LAYOUT_HEALTH_CHECK_CONFIG_SECTOR_B, 1),
      (unat FLASH_LAYOUT_USER_STORE_SECTOR_A, 1), (unat FLASH_LAYOUT_USER_STORE_SECTOR_B, 1)]"

definition region_bytes :: "nat \<times> nat \<Rightarrow> nat set" where
  "region_bytes r = {fst r ..< fst r + snd r * W25Q64_SECTOR_SIZE}"

fun ascending :: "(nat \<times> nat) list \<Rightarrow> bool" where
  "ascending (r # q # rs) \<longleftrightarrow> fst r + snd r * W25Q64_SECTOR_SIZE \<le> fst q \<and> ascending (q # rs)"
| "ascending _ \<longleftrightarrow> True"

lemma ascending_above:
  "ascending (r # rs) \<Longrightarrow> q \<in> set rs \<Longrightarrow> fst r + snd r * W25Q64_SECTOR_SIZE \<le> fst q"
proof (induction rs arbitrary: r)
  case (Cons q' rs)
  show ?case
    using Cons.IH[of q'] Cons.prems by (cases "q = q'") simp_all
qed simp

lemma ascending_disjoint:
  "ascending rs \<Longrightarrow> i < j \<Longrightarrow> j < length rs \<Longrightarrow> region_bytes (rs ! i) \<inter> region_bytes (rs ! j) = {}"
proof (induction rs arbitrary: i j)
  case (Cons r rs)
  have tail: "ascending rs"
    using Cons.prems(1) by (cases rs) auto
  show ?case
  proof (cases i)
    case 0
    then have "fst r + snd r * W25Q64_SECTOR_SIZE \<le> fst ((r # rs) ! j)"
      using Cons.prems by (intro ascending_above[of r rs]) (auto simp: nth_Cons')
    with 0 show ?thesis
      by (auto simp: region_bytes_def)
  next
    case (Suc i')
    then show ?thesis
      using Cons.IH[OF tail, of i' "j - 1"] Cons.prems by (auto simp: nth_Cons')
  qed
qed simp

text \<open>C23: the flash layout is sound: every region starts on a sector boundary and ends
  inside the device, two different regions never share a byte, and the range a factory
  reset erases covers every region except the two callback sectors and the reset
  marker, which lie directly below it.\<close>

theorem flash_layout_disjoint:
  "(\<forall>r\<in>set flash_regions. fst r mod W25Q64_SECTOR_SIZE = 0 \<and>
      fst r + snd r * W25Q64_SECTOR_SIZE \<le> W25Q64_CAPACITY_BYTES) \<and>
   (\<forall>i j. i < j \<and> j < length flash_regions \<longrightarrow>
      region_bytes (flash_regions ! i) \<inter> region_bytes (flash_regions ! j) = {}) \<and>
   (\<forall>r\<in>set (drop 3 flash_regions).
      region_bytes r \<subseteq> {unat FLASH_LAYOUT_FACTORY_RESET_DATA_START ..<
        unat FLASH_LAYOUT_FACTORY_RESET_DATA_START + unat FLASH_LAYOUT_FACTORY_RESET_DATA_LENGTH})"
proof (intro conjI)
  show "\<forall>r\<in>set flash_regions. fst r mod W25Q64_SECTOR_SIZE = 0 \<and>
      fst r + snd r * W25Q64_SECTOR_SIZE \<le> W25Q64_CAPACITY_BYTES"
    by (simp add: flash_regions_def layout)
  have "ascending flash_regions"
    by (simp add: flash_regions_def layout)
  then show "\<forall>i j. i < j \<and> j < length flash_regions \<longrightarrow>
      region_bytes (flash_regions ! i) \<inter> region_bytes (flash_regions ! j) = {}"
    using ascending_disjoint by blast
  show "\<forall>r\<in>set (drop 3 flash_regions).
      region_bytes r \<subseteq> {unat FLASH_LAYOUT_FACTORY_RESET_DATA_START ..<
        unat FLASH_LAYOUT_FACTORY_RESET_DATA_START + unat FLASH_LAYOUT_FACTORY_RESET_DATA_LENGTH}"
    by (simp add: flash_regions_def region_bytes_def layout)
qed

theorem flash_layout_disjoint_witness:
  "region_bytes (flash_regions ! 0) \<inter> region_bytes (flash_regions ! 2) = {}"
  by (rule flash_layout_disjoint[THEN conjunct2, THEN conjunct1, rule_format]) (simp add: flash_regions_def)

end
