(* ===== verification/Ab_Store.thy ===== *)
theory Ab_Store
  imports Flash_Layout
begin

text \<open>
  The two-copy protocol the configuration, callback, user, credential and trust
  stores share: a new snapshot is written to the copy that is not active, read back
  and checked, and only then published; at start-up the valid copy with the higher
  generation wins.  \<open>ab_write\<close> and \<open>newest\<close> are the reference forms of the two
  halves; every store's \<open>*_Save\<close> and \<open>*_Init\<close> is modelled separately from its own
  source and shown equal to them.  The locale \<open>ab_store\<close> holds the protocol's laws:
  what a successful write leaves in flash, that a failed one never harms the active
  copy, and that start-up finds the published snapshot again.
\<close>

subsection \<open>Reference forms\<close>

definition snapshot_at :: "(u8 list \<Rightarrow> 's) \<Rightarrow> nat \<Rightarrow> ('s \<Rightarrow> bool) \<Rightarrow> (nat \<Rightarrow> u8) \<Rightarrow> u32 \<Rightarrow> 's option" where
  "snapshot_at dec nbytes valid c sector =
     (let s = dec (cells_at c (unat sector) nbytes) in if valid s then Some s else None)"

text \<open>One \<open>W25Q64_Read(...) == OK && ...IsValid(...)\<close>: validity, the bytes read as a
  struct, and the environment.\<close>

definition load_snapshot ::
  "(u8 list \<Rightarrow> 's) \<Rightarrow> u32 \<Rightarrow> ('s \<Rightarrow> bool) \<Rightarrow> u32 \<Rightarrow> env \<Rightarrow> bool \<times> 's \<times> env" where
  "load_snapshot get n valid sector env =
     (let (s, d, env1) = W25Q64_Read sector n env
      in (s = W25Q64_STATUS_OK \<and> valid (get d), get d, env1))"

definition newest :: "('s \<Rightarrow> u32) \<Rightarrow> u32 \<Rightarrow> u32 \<Rightarrow> 's option \<Rightarrow> 's option \<Rightarrow> ('s \<times> u32) option" where
  "newest generation sectorA sectorB first second =
     (case first of
        None \<Rightarrow> (case second of None \<Rightarrow> None | Some b \<Rightarrow> Some (b, sectorB))
      | Some a \<Rightarrow>
          (case second of
             None \<Rightarrow> Some (a, sectorA)
           | Some b \<Rightarrow> if generation a \<ge> generation b then Some (a, sectorA) else Some (b, sectorB)))"

definition ab_write ::
  "(u32 \<Rightarrow> env \<Rightarrow> W25Q64_StatusTypeDef \<times> env) \<Rightarrow> ('s \<Rightarrow> u8 list) \<Rightarrow> (u8 list \<Rightarrow> 's) \<Rightarrow> nat \<Rightarrow>
   ('s \<Rightarrow> bool) \<Rightarrow> u32 \<Rightarrow> 's \<Rightarrow> env \<Rightarrow> 's option \<times> env" where
  "ab_write erase enc dec nbytes accept target candidate env =
     (let (s1, env1) = erase target env in
      if s1 \<noteq> W25Q64_STATUS_OK then (None, env1)
      else
        let (s2, env2) = W25Q64_Program target (Some (enc candidate)) env1 in
        if s2 \<noteq> W25Q64_STATUS_OK then (None, env2)
        else
          let (s3, d, env3) = W25Q64_Read target (of_nat nbytes) env2 in
          if s3 \<noteq> W25Q64_STATUS_OK \<or> \<not> accept (dec d) then (None, env3) else (Some (dec d), env3))"

definition other_sector :: "u32 \<Rightarrow> u32 \<Rightarrow> u32 \<Rightarrow> u32" where
  "other_sector sectorA sectorB active = (if active = sectorA then sectorB else sectorA)"

text \<open>\<open>live\<close>: the RAM copy is the valid snapshot of the active sector.
  \<open>committed\<close>: moreover the other sector holds nothing at least as new.\<close>

definition live ::
  "(u8 list \<Rightarrow> 's) \<Rightarrow> nat \<Rightarrow> ('s \<Rightarrow> bool) \<Rightarrow> u32 \<Rightarrow> u32 \<Rightarrow> 's \<Rightarrow> u32 \<Rightarrow> (nat \<Rightarrow> u8) \<Rightarrow> bool" where
  "live dec nbytes valid sectorA sectorB snapshot active c \<longleftrightarrow>
     active \<in> {sectorA, sectorB} \<and> snapshot_at dec nbytes valid c active = Some snapshot"

definition committed ::
  "(u8 list \<Rightarrow> 's) \<Rightarrow> nat \<Rightarrow> ('s \<Rightarrow> bool) \<Rightarrow> ('s \<Rightarrow> u32) \<Rightarrow> u32 \<Rightarrow> u32 \<Rightarrow> 's \<Rightarrow> u32 \<Rightarrow> (nat \<Rightarrow> u8) \<Rightarrow> bool" where
  "committed dec nbytes valid generation sectorA sectorB snapshot active c \<longleftrightarrow>
     live dec nbytes valid sectorA sectorB snapshot active c \<and>
     (\<forall>s. snapshot_at dec nbytes valid c (other_sector sectorA sectorB active) = Some s \<longrightarrow>
          generation s < generation snapshot)"

definition sector_blank :: "(nat \<Rightarrow> u8) \<Rightarrow> u32 \<Rightarrow> bool" where
  "sector_blank c sector \<longleftrightarrow> (\<forall>i<W25Q64_SECTOR_SIZE. c (unat sector + i) = 0xFF)"

subsection \<open>Facts for the interpretations\<close>

lemma sector_blank_cells: "sector_blank c sector \<Longrightarrow> n \<le> 4096 \<Longrightarrow> cells_at c (unat sector) n = replicate n 0xFF"
  by (simp add: sector_blank_def cells_at_eq_iff)

lemma snapshot_at_blank:
  "sector_blank c sector \<Longrightarrow> n \<le> 4096 \<Longrightarrow> \<not> valid (get (replicate n 0xFF)) \<Longrightarrow> snapshot_at get n valid c sector = None"
  by (simp add: snapshot_at_def sector_blank_cells)

lemma sector_blank_env [simp]: "sector_blank (cells blank_env) sector"
  by (simp add: sector_blank_def)

lemma sector_erase:
  assumes "unat sector < W25Q64_CAPACITY_BYTES" "unat sector mod W25Q64_SECTOR_SIZE = 0" "n \<le> W25Q64_SECTOR_SIZE"
  shows "touches (unat sector) W25Q64_SECTOR_SIZE env (snd (W25Q64_EraseSector sector env))"
    and "W25Q64_EraseSector sector env = (W25Q64_STATUS_OK, env') \<Longrightarrow>
      cells_at (cells env') (unat sector) n = replicate n 0xFF"
    and "healthy env \<Longrightarrow> fst (W25Q64_EraseSector sector env) = W25Q64_STATUS_OK"
  using EraseSector_commits[of sector env] EraseSector_healthy[of env sector] assms flash.erase_blank[of sector env env' n]
  by (simp_all add: commits_def)

lemma load_snapshot_cells:
  "load_snapshot get n valid sector env = (b, x, env') \<Longrightarrow> cells env' = cells env"
  by (auto simp: load_snapshot_def split: prod.splits dest: Read_spec(1))

lemma load_snapshot_valid:
  assumes "load_snapshot get n valid sector env = (True, x, env')"
  shows "snapshot_at get (unat n) valid (cells env) sector = Some x"
proof -
  obtain s d env1 where r: "W25Q64_Read sector n env = (s, d, env1)"
    using prod_cases3 by blast
  with assms show ?thesis
    using Read_spec(3)[OF r] by (auto simp: load_snapshot_def snapshot_at_def Let_def)
qed

lemma load_snapshot_healthy:
  assumes "load_snapshot get n valid sector env = (b, x, env')" "healthy env"
    "0 < unat n" "unat sector + unat n \<le> W25Q64_CAPACITY_BYTES"
  shows "healthy env'" "b \<longleftrightarrow> snapshot_at get (unat n) valid (cells env) sector \<noteq> None"
    "b \<Longrightarrow> snapshot_at get (unat n) valid (cells env) sector = Some x"
proof -
  obtain s d env1 where r: "W25Q64_Read sector n env = (s, d, env1)"
    using prod_cases3 by blast
  have "healthy env1" "s = W25Q64_STATUS_OK" "d = cells_at (cells env) (unat sector) (unat n)"
    using flash.rd_good[OF assms(2) r] Read_spec(3)[OF r] assms(3,4) by simp_all
  then show "healthy env'" "b \<longleftrightarrow> snapshot_at get (unat n) valid (cells env) sector \<noteq> None"
    "b \<Longrightarrow> snapshot_at get (unat n) valid (cells env) sector = Some x"
    using assms(1) r by (auto simp: load_snapshot_def snapshot_at_def Let_def split: if_splits)
qed

lemma xSemaphoreTake_frame:
  assumes "xSemaphoreTake env = (b, env')"
  shows "cells env' = cells env" "touches a n env env'" "healthy env \<Longrightarrow> b \<and> healthy env'"
  using assms by (auto simp: xSemaphoreTake_def pop_event_def touches_def healthy_def case_prod_unfold Let_def)

lemma xSemaphoreCreateMutexStatic_frame:
  assumes "xSemaphoreCreateMutexStatic env = (b, env')"
  shows "cells env' = cells env" "touches a n env env'" "healthy env \<Longrightarrow> b \<and> healthy env'"
  using assms
  by (auto simp: xSemaphoreCreateMutexStatic_def pop_event_def touches_def healthy_def case_prod_unfold Let_def)

lemma pop_event_frame: "pop_event env = (e, env') \<Longrightarrow> touches a n env env' \<and> (healthy env \<longrightarrow> ev_ok e \<and> healthy env')"
  by (auto simp: pop_event_def touches_def healthy_def case_prod_unfold Let_def)

lemma xSemaphoreTake_healthy:
  assumes "healthy env"
  shows "\<exists>env1. xSemaphoreTake env = (True, env1) \<and> healthy env1 \<and> touches 0 0 env env1"
proof -
  obtain b env1 where l: "xSemaphoreTake env = (b, env1)" by fastforce
  show ?thesis
    using xSemaphoreTake_frame(2)[OF l, of 0 0] xSemaphoreTake_frame(3)[OF l assms] l by simp
qed

text \<open>Two loads one after the other, as every start-up does them.\<close>

lemma load_both_healthy:
  assumes "load_snapshot get n valid sA env = (b1, x1, env1)" "load_snapshot get n valid sB env1 = (b2, x2, env2)"
    "healthy env" "0 < unat n" "unat sA + unat n \<le> W25Q64_CAPACITY_BYTES" "unat sB + unat n \<le> W25Q64_CAPACITY_BYTES"
  shows "cells env2 = cells env" "healthy env2"
    "snapshot_at get (unat n) valid (cells env) sA = (if b1 then Some x1 else None)"
    "snapshot_at get (unat n) valid (cells env) sB = (if b2 then Some x2 else None)"
proof -
  have c: "cells env1 = cells env" "cells env2 = cells env1"
    using assms(1,2) by (simp_all add: load_snapshot_cells)
  note l1 = load_snapshot_healthy[OF assms(1,3,4,5)]
  note l2 = load_snapshot_healthy[OF assms(2) l1(1) assms(4,6)]
  show "cells env2 = cells env" "healthy env2"
    "snapshot_at get (unat n) valid (cells env) sA = (if b1 then Some x1 else None)"
    "snapshot_at get (unat n) valid (cells env) sB = (if b2 then Some x2 else None)"
    using c l1 l2 by auto
qed

lemma load_both_blank:
  assumes "load_snapshot get n valid sA env = (b1, x1, env1)" "load_snapshot get n valid sB env1 = (b2, x2, env2)"
    "healthy env" "sector_blank (cells env) sA" "sector_blank (cells env) sB"
    "0 < unat n" "unat n \<le> 4096" "unat sA + 4096 \<le> W25Q64_CAPACITY_BYTES" "unat sB + 4096 \<le> W25Q64_CAPACITY_BYTES"
    "\<not> valid (get (replicate (unat n) 0xFF))"
  shows "\<not> b1" "\<not> b2" "cells env2 = cells env" "healthy env2"
proof -
  have "snapshot_at get (unat n) valid (cells env) sA = None" "snapshot_at get (unat n) valid (cells env) sB = None"
    using snapshot_at_blank[of "cells env" _ "unat n" valid get] assms(4,5,7,10) by auto
  then show "\<not> b1" "\<not> b2" "cells env2 = cells env" "healthy env2"
    using load_both_healthy[OF assms(1,2,3,6)] assms(7-9) by (auto split: if_splits)
qed

subsection \<open>The protocol\<close>

locale ab_store =
  fixes erase :: "u32 \<Rightarrow> env \<Rightarrow> W25Q64_StatusTypeDef \<times> env"
    and enc :: "'s \<Rightarrow> u8 list"
    and dec :: "u8 list \<Rightarrow> 's"
    and nbytes span :: nat
    and wf valid :: "'s \<Rightarrow> bool"
    and generation :: "'s \<Rightarrow> u32"
    and sectorA sectorB :: u32
  assumes dec_enc: "wf s \<Longrightarrow> dec (enc s) = s"
    and length_enc: "wf s \<Longrightarrow> length (enc s) = nbytes"
    and sizes: "0 < nbytes" "nbytes \<le> span" "span < 2 ^ 32"
    and apart: "unat sectorA + span \<le> unat sectorB"
    and inside: "unat sectorB + span \<le> W25Q64_CAPACITY_BYTES"
    and erase_frame: "sector \<in> {sectorA, sectorB} \<Longrightarrow> touches (unat sector) span env (snd (erase sector env))"
    and erase_blank: "sector \<in> {sectorA, sectorB} \<Longrightarrow> erase sector env = (W25Q64_STATUS_OK, env') \<Longrightarrow>
      cells_at (cells env') (unat sector) nbytes = replicate nbytes 0xFF"
    and erase_healthy: "sector \<in> {sectorA, sectorB} \<Longrightarrow> healthy env \<Longrightarrow>
      fst (erase sector env) = W25Q64_STATUS_OK"
begin

abbreviation held :: "(nat \<Rightarrow> u8) \<Rightarrow> u32 \<Rightarrow> 's option" where
  "held c sector \<equiv> snapshot_at dec nbytes valid c sector"

abbreviation opposite :: "u32 \<Rightarrow> u32" where
  "opposite sector \<equiv> other_sector sectorA sectorB sector"

abbreviation published :: "'s \<Rightarrow> u32 \<Rightarrow> (nat \<Rightarrow> u8) \<Rightarrow> bool" where
  "published snapshot active c \<equiv> committed dec nbytes valid generation sectorA sectorB snapshot active c"

abbreviation running :: "'s \<Rightarrow> u32 \<Rightarrow> (nat \<Rightarrow> u8) \<Rightarrow> bool" where
  "running snapshot active c \<equiv> live dec nbytes valid sectorA sectorB snapshot active c"

lemma opposite_in [simp]: "opposite sector \<in> {sectorA, sectorB}"
  by (simp add: other_sector_def)

lemma opposite_opposite: "sector \<in> {sectorA, sectorB} \<Longrightarrow> opposite (opposite sector) = sector"
  using apart sizes by (auto simp: other_sector_def)

lemma opposite_apart:
  "sector \<in> {sectorA, sectorB} \<Longrightarrow>
     unat sector + span \<le> unat (opposite sector) \<or> unat (opposite sector) + span \<le> unat sector"
  using apart sizes by (auto simp: other_sector_def)

lemma sector_inside: "sector \<in> {sectorA, sectorB} \<Longrightarrow> unat sector + span \<le> W25Q64_CAPACITY_BYTES"
  using apart inside by auto

lemma unat_size: "unat (of_nat nbytes :: u32) = nbytes"
  using sizes by (simp add: unat_of_nat take_bit_nat_eq_self)

text \<open>A write touches its own copy only.\<close>

lemma write_frame:
  assumes "target \<in> {sectorA, sectorB}" "wf candidate"
    and "ab_write erase enc dec nbytes accept target candidate env = (r, env')"
  shows "touches (unat target) span env env'"
proof -
  obtain s1 env1 where e: "erase target env = (s1, env1)" by fastforce
  obtain s2 env2 where p: "W25Q64_Program target (Some (enc candidate)) env1 = (s2, env2)" by fastforce
  obtain s3 d env3 where v: "W25Q64_Read target (of_nat nbytes) env2 = (s3, d, env3)"
    using prod_cases3 by blast
  have "touches (unat target) span env env1"
    using erase_frame[OF assms(1), of env] e by simp
  moreover have "touches (unat target) span env1 env2"
    using Program_commits[of "enc candidate" target env1] p length_enc[OF assms(2)] sizes
    by (auto simp: commits_def elim: touches_mono)
  moreover have "touches (unat target) span env2 env3"
    using Read_spec(2)[OF v, of "unat target"] by (rule touches_mono) simp_all
  ultimately show ?thesis
    using assms(3) by (auto simp: ab_write_def e p v split: if_splits intro: touches_trans)
qed

text \<open>A write that reports success has stored the candidate.\<close>

lemma write_Some:
  assumes "target \<in> {sectorA, sectorB}" "wf candidate"
    and "ab_write erase enc dec nbytes accept target candidate env = (Some v, env')"
  shows "v = candidate" "accept candidate" "cells_at (cells env') (unat target) nbytes = enc candidate"
proof -
  obtain s1 env1 where e': "erase target env = (s1, env1)" by fastforce
  obtain s2 env2 where p': "W25Q64_Program target (Some (enc candidate)) env1 = (s2, env2)" by fastforce
  obtain s3 d env3 where v': "W25Q64_Read target (of_nat nbytes) env2 = (s3, d, env3)"
    using prod_cases3 by blast
  have e: "erase target env = (W25Q64_STATUS_OK, env1)"
    and p: "W25Q64_Program target (Some (enc candidate)) env1 = (W25Q64_STATUS_OK, env2)"
    and v: "W25Q64_Read target (of_nat nbytes) env2 = (W25Q64_STATUS_OK, d, env')" "accept (dec d)" "v = dec d"
    using assms(3) by (simp_all add: ab_write_def e' p' v' split: if_splits)
  have "cells_at (cells env2) (unat target) nbytes = enc candidate"
    using flash.program_blank[OF p] erase_blank[OF assms(1) e] length_enc[OF assms(2)] sizes by simp
  moreover have "cells env' = cells env2" "d = cells_at (cells env2) (unat target) nbytes"
    using Read_spec(1)[OF v(1)] Read_spec(3)[OF v(1)] by (simp_all add: unat_size)
  ultimately show "v = candidate" "accept candidate" "cells_at (cells env') (unat target) nbytes = enc candidate"
    using v dec_enc[OF assms(2)] by simp_all
qed

text \<open>What is read back after a successful erase and program is the candidate, so two
  acceptance tests that agree on it give the same write.\<close>

lemma write_accept:
  assumes "target \<in> {sectorA, sectorB}" "wf candidate" "accept candidate = accept' candidate"
  shows "ab_write erase enc dec nbytes accept target candidate env =
    ab_write erase enc dec nbytes accept' target candidate env"
proof -
  obtain s1 env1 where e: "erase target env = (s1, env1)" by fastforce
  obtain s2 env2 where p: "W25Q64_Program target (Some (enc candidate)) env1 = (s2, env2)" by fastforce
  obtain s3 d env3 where v: "W25Q64_Read target (of_nat nbytes) env2 = (s3, d, env3)"
    using prod_cases3 by blast
  have "dec d = candidate" if "s1 = W25Q64_STATUS_OK" "s2 = W25Q64_STATUS_OK" "s3 = W25Q64_STATUS_OK"
    using that flash.program_blank[of target "enc candidate" env1 env2] p erase_blank[OF assms(1)] e
      length_enc[OF assms(2)] sizes Read_spec(3)[OF v] dec_enc[OF assms(2)] by (simp add: unat_size)
  then show ?thesis
    using assms(3) by (simp add: ab_write_def e p v)
qed

text \<open>On hardware that answers, an acceptable candidate is stored.\<close>

lemma write_healthy:
  assumes "target \<in> {sectorA, sectorB}" "wf candidate" "healthy env" "accept candidate"
  shows "\<exists>env'. ab_write erase enc dec nbytes accept target candidate env = (Some candidate, env') \<and> healthy env'"
proof -
  obtain env1 where e: "erase target env = (W25Q64_STATUS_OK, env1)"
    using erase_healthy[OF assms(1,3)] by (cases "erase target env") simp
  have h1: "healthy env1"
    using erase_frame[OF assms(1), of env] e assms(3) by (simp add: touches_healthy)
  have len: "length (enc candidate) = nbytes" "enc candidate \<noteq> []"
    using length_enc[OF assms(2)] sizes by auto
  obtain s2 env2 where p: "W25Q64_Program target (Some (enc candidate)) env1 = (s2, env2)" by fastforce
  have h2: "healthy env2" "s2 = W25Q64_STATUS_OK"
    using flash.pr_good[OF h1 p] len sizes sector_inside[OF assms(1)] by simp_all
  obtain s3 d env3 where v: "W25Q64_Read target (of_nat nbytes) env2 = (s3, d, env3)"
    using prod_cases3 by blast
  have h3: "healthy env3" "s3 = W25Q64_STATUS_OK"
    using flash.rd_good[OF h2(1) v] sizes sector_inside[OF assms(1)] by (simp_all add: unat_size)
  have "dec d = candidate"
    using Read_spec(3)[OF v] h3(2) flash.program_blank[of target "enc candidate" env1 env2] p h2(2)
      erase_blank[OF assms(1) e] len sizes dec_enc[OF assms(2)] by (simp add: unat_size)
  then show ?thesis
    using assms(4) h2(2) h3 by (simp add: ab_write_def e p v)
qed

text \<open>The copy that is not written is the same before and after.\<close>

lemma held_other:
  assumes "touches (unat target) span env env'" "target \<in> {sectorA, sectorB}"
  shows "held (cells env') (opposite target) = held (cells env) (opposite target)"
proof -
  have "cells_at (cells env') (unat (opposite target)) nbytes = cells_at (cells env) (unat (opposite target)) nbytes"
    using opposite_apart[OF assms(2)] sizes by (intro touches_cells_at[OF assms(1)]) auto
  then show ?thesis
    by (simp add: snapshot_at_def)
qed

lemma newest_published:
  "published snapshot active c \<Longrightarrow>
     newest generation sectorA sectorB (held c sectorA) (held c sectorB) = Some (snapshot, active)"
  using apart sizes
  by (cases "active = sectorA") (auto simp: committed_def live_def newest_def other_sector_def split: option.splits)

text \<open>A successful write of a newer generation publishes the candidate.\<close>

lemma write_published:
  assumes "target \<in> {sectorA, sectorB}" "wf candidate" "valid candidate"
    and w: "ab_write erase enc dec nbytes accept target candidate env = (Some v, env')"
    and older: "\<And>s. held (cells env) (opposite target) = Some s \<Longrightarrow> generation s < generation candidate"
  shows "published candidate target (cells env')"
proof -
  have "held (cells env') target = Some candidate"
    using write_Some(3)[OF assms(1,2) w] dec_enc[OF assms(2)] assms(3) by (simp add: snapshot_at_def)
  moreover have "held (cells env') (opposite target) = held (cells env) (opposite target)"
    using held_other[OF write_frame[OF assms(1,2) w] assms(1)] .
  ultimately show ?thesis
    using assms(1) older by (simp add: committed_def live_def)
qed

lemma write_publishes:
  assumes "running snapshot active (cells env)" "wf candidate" "valid candidate"
    and gen: "generation candidate = generation snapshot + 1" "generation snapshot \<noteq> - 1"
    and w: "ab_write erase enc dec nbytes accept (opposite active) candidate env = (Some v, env')"
  shows "published candidate (opposite active) (cells env')"
proof (rule write_published[OF opposite_in assms(2,3) w])
  fix s
  assume "held (cells env) (opposite (opposite active)) = Some s"
  then show "generation s < generation candidate"
    using assms(1) gen by (simp add: live_def opposite_opposite u32_less_succ)
qed

text \<open>A failed write leaves the active copy as it was.\<close>

lemma write_fails_safely:
  assumes "running snapshot active (cells env)" "wf candidate"
    and w: "ab_write erase enc dec nbytes accept (opposite active) candidate env = (None, env')"
  shows "held (cells env') active = Some snapshot"
  using held_other[OF write_frame[OF opposite_in assms(2) w] opposite_in] assms(1)
  by (auto simp: live_def opposite_opposite)

lemma newest_held:
  assumes "running snapshot active c"
  shows "\<exists>s a. newest generation sectorA sectorB (held c sectorA) (held c sectorB) = Some (s, a) \<and> running s a c"
  using assms by (auto simp: newest_def live_def split: option.splits)

text \<open>Start-up beside an interrupted copy finds the live snapshot or, when that copy
  happens to be complete, the candidate.\<close>

lemma newest_running:
  assumes "running snapshot active c"
    and torn: "\<And>s. held c (opposite active) = Some s \<Longrightarrow> generation s < generation snapshot \<or> s = candidate"
  shows "newest generation sectorA sectorB (held c sectorA) (held c sectorB)
    \<in> {Some (snapshot, active), Some (candidate, opposite active)}"
proof (cases "active = sectorA")
  case True
  then show ?thesis
    using assms by (auto simp: newest_def other_sector_def live_def split: option.splits)
next
  case False
  then have "active = sectorB" "opposite active = sectorA"
    using assms(1) by (auto simp: other_sector_def live_def)
  then show ?thesis
    using assms by (auto simp: newest_def live_def split: option.splits)
qed

text \<open>What to take for \<open>new\<close> when a torn write never passes the checks, so that the other sector
  holds what it held before or the complete candidate.\<close>

lemma torn_cases:
  assumes "\<forall>s. after = Some s \<longrightarrow> before = Some s \<or> s = wanted"
  obtains new where "\<And>s. after = Some s \<Longrightarrow> generation s < generation snapshot \<or> s = new"
    "new = wanted \<or> before = Some new \<and> generation snapshot \<le> generation new"
proof (cases "\<exists>s. after = Some s \<and> generation snapshot \<le> generation s")
  case True
  then show ?thesis
    using assms that by (metis option.inject)
next
  case False
  then show ?thesis
    using that[of wanted] by (meson linorder_not_le)
qed

end

end
