(* ===== verification/Health_Check_Config.thy ===== *)
theory Health_Check_Config
  imports Crc32 Object_Rep Ab_Store
begin

text \<open>
  \<open>Srv/Src/health_check_config.c\<close>: the persistent list of monitored resources and
  the check period.  The structs are records with their byte layout, the four
  snapshot formats (current, factory version, previous, legacy) with their
  validation and migration, the transactional save, start-up and the five public
  operations.  The store is an instance of \<open>ab_store\<close>.
\<close>

subsection \<open>Structs\<close>

record HealthCheckConfig_ResourceTypeDef =
  r_occupied :: u8
  r_enabled :: u8
  r_trustAnchorId :: u8
  r_reserved :: u8
  r_port :: u16
  r_host :: string
  r_path :: string

record HealthCheckConfig_SnapshotTypeDef =
  hc_magic :: u32
  hc_version :: u16
  hc_reserved :: u16
  hc_generation :: u32
  hc_periodSeconds :: u32
  hc_resources :: "HealthCheckConfig_ResourceTypeDef list"
  hc_crc :: u32

record HealthCheckConfig_PreviousSnapshotTypeDef =
  hp_magic :: u32
  hp_version :: u16
  hp_reserved :: u16
  hp_generation :: u32
  hp_periodSeconds :: u32
  hp_resources :: "HealthCheckConfig_ResourceTypeDef list"
  hp_padding :: "u8 list"
  hp_crc :: u32

record HealthCheckConfig_LegacyResourceTypeDef =
  lr_occupied :: u8
  lr_enabled :: u8
  lr_port :: u16
  lr_host :: string
  lr_path :: string

record HealthCheckConfig_LegacySnapshotTypeDef =
  hl_magic :: u32
  hl_version :: u16
  hl_reserved :: u16
  hl_generation :: u32
  hl_periodSeconds :: u32
  hl_resources :: "HealthCheckConfig_LegacyResourceTypeDef list"
  hl_crc :: u32

datatype HealthCheckConfig_StatusTypeDef =
    HEALTH_CHECK_CONFIG_STATUS_OK
  | HEALTH_CHECK_CONFIG_STATUS_INVALID_ARGUMENT
  | HEALTH_CHECK_CONFIG_STATUS_NOT_FOUND
  | HEALTH_CHECK_CONFIG_STATUS_FULL
  | HEALTH_CHECK_CONFIG_STATUS_STORAGE_ERROR

record HealthCheckConfig_State =
  cfg_snapshot :: HealthCheckConfig_SnapshotTypeDef
  cfg_activeAddress :: u32

abbreviation (input) HEALTH_CHECK_CONFIG_MAX_RESOURCES :: nat where
  "HEALTH_CHECK_CONFIG_MAX_RESOURCES \<equiv> 6"

abbreviation (input) HEALTH_CHECK_CONFIG_SECTOR_A :: u32 where
  "HEALTH_CHECK_CONFIG_SECTOR_A \<equiv> FLASH_LAYOUT_HEALTH_CHECK_CONFIG_SECTOR_A"

abbreviation (input) HEALTH_CHECK_CONFIG_SECTOR_B :: u32 where
  "HEALTH_CHECK_CONFIG_SECTOR_B \<equiv> FLASH_LAYOUT_HEALTH_CHECK_CONFIG_SECTOR_B"

subsection \<open>Object representations\<close>

definition put_hc_resource :: "HealthCheckConfig_ResourceTypeDef \<Rightarrow> u8 list" where
  "put_hc_resource r = put_u8 (r_occupied r) @ put_u8 (r_enabled r) @ put_u8 (r_trustAnchorId r) @
     put_u8 (r_reserved r) @ put_u16 (r_port r) @ put_chars (r_host r) @ put_chars (r_path r)"

definition get_hc_resource :: "u8 list \<Rightarrow> HealthCheckConfig_ResourceTypeDef \<times> u8 list" where
  "get_hc_resource bs =
     (let (occupied, bs) = get_u8 bs; (enabled, bs) = get_u8 bs; (anchor, bs) = get_u8 bs;
          (reserved, bs) = get_u8 bs; (port, bs) = get_u16 bs; (host, bs) = get_chars 64 bs;
          (path, bs) = get_chars 80 bs
      in (\<lparr>r_occupied = occupied, r_enabled = enabled, r_trustAnchorId = anchor,
           r_reserved = reserved, r_port = port, r_host = host, r_path = path\<rparr>, bs))"

definition put_hc_snapshot :: "HealthCheckConfig_SnapshotTypeDef \<Rightarrow> u8 list" where
  "put_hc_snapshot s = put_u32 (hc_magic s) @ put_u16 (hc_version s) @ put_u16 (hc_reserved s) @
     put_u32 (hc_generation s) @ put_u32 (hc_periodSeconds s) @ put_array put_hc_resource (hc_resources s) @
     put_u32 (hc_crc s)"

definition get_hc_snapshot :: "u8 list \<Rightarrow> HealthCheckConfig_SnapshotTypeDef" where
  "get_hc_snapshot bs =
     (let (magic, bs) = get_u32 bs; (version, bs) = get_u16 bs; (reserved, bs) = get_u16 bs;
          (generation, bs) = get_u32 bs; (period, bs) = get_u32 bs;
          (resources, bs) = get_array 6 get_hc_resource bs; (crc, bs) = get_u32 bs
      in \<lparr>hc_magic = magic, hc_version = version, hc_reserved = reserved, hc_generation = generation,
          hc_periodSeconds = period, hc_resources = resources, hc_crc = crc\<rparr>)"

definition put_hc_previous :: "HealthCheckConfig_PreviousSnapshotTypeDef \<Rightarrow> u8 list" where
  "put_hc_previous s = put_u32 (hp_magic s) @ put_u16 (hp_version s) @ put_u16 (hp_reserved s) @
     put_u32 (hp_generation s) @ put_u32 (hp_periodSeconds s) @ put_array put_hc_resource (hp_resources s) @
     hp_padding s @ put_u32 (hp_crc s)"

definition get_hc_previous :: "u8 list \<Rightarrow> HealthCheckConfig_PreviousSnapshotTypeDef" where
  "get_hc_previous bs =
     (let (magic, bs) = get_u32 bs; (version, bs) = get_u16 bs; (reserved, bs) = get_u16 bs;
          (generation, bs) = get_u32 bs; (period, bs) = get_u32 bs;
          (resources, bs) = get_array 3 get_hc_resource bs; (padding, bs) = get_bytes 2 bs;
          (crc, bs) = get_u32 bs
      in \<lparr>hp_magic = magic, hp_version = version, hp_reserved = reserved, hp_generation = generation,
          hp_periodSeconds = period, hp_resources = resources, hp_padding = padding, hp_crc = crc\<rparr>)"

definition put_hc_legacy_resource :: "HealthCheckConfig_LegacyResourceTypeDef \<Rightarrow> u8 list" where
  "put_hc_legacy_resource r = put_u8 (lr_occupied r) @ put_u8 (lr_enabled r) @ put_u16 (lr_port r) @
     put_chars (lr_host r) @ put_chars (lr_path r)"

definition get_hc_legacy_resource :: "u8 list \<Rightarrow> HealthCheckConfig_LegacyResourceTypeDef \<times> u8 list" where
  "get_hc_legacy_resource bs =
     (let (occupied, bs) = get_u8 bs; (enabled, bs) = get_u8 bs; (port, bs) = get_u16 bs;
          (host, bs) = get_chars 64 bs; (path, bs) = get_chars 80 bs
      in (\<lparr>lr_occupied = occupied, lr_enabled = enabled, lr_port = port, lr_host = host,
           lr_path = path\<rparr>, bs))"

definition put_hc_legacy :: "HealthCheckConfig_LegacySnapshotTypeDef \<Rightarrow> u8 list" where
  "put_hc_legacy s = put_u32 (hl_magic s) @ put_u16 (hl_version s) @ put_u16 (hl_reserved s) @
     put_u32 (hl_generation s) @ put_u32 (hl_periodSeconds s) @
     put_array put_hc_legacy_resource (hl_resources s) @ put_u32 (hl_crc s)"

definition get_hc_legacy :: "u8 list \<Rightarrow> HealthCheckConfig_LegacySnapshotTypeDef" where
  "get_hc_legacy bs =
     (let (magic, bs) = get_u32 bs; (version, bs) = get_u16 bs; (reserved, bs) = get_u16 bs;
          (generation, bs) = get_u32 bs; (period, bs) = get_u32 bs;
          (resources, bs) = get_array 3 get_hc_legacy_resource bs; (crc, bs) = get_u32 bs
      in \<lparr>hl_magic = magic, hl_version = version, hl_reserved = reserved, hl_generation = generation,
          hl_periodSeconds = period, hl_resources = resources, hl_crc = crc\<rparr>)"

subsection \<open>Validation and migration\<close>

definition healthCheckConfig_Crc :: "u8 list \<Rightarrow> u32" where
  "healthCheckConfig_Crc bytes = crc32 bytes"

definition healthCheckConfig_IsValid :: "HealthCheckConfig_SnapshotTypeDef \<Rightarrow> bool" where
  "healthCheckConfig_IsValid candidate \<longleftrightarrow>
     hc_magic candidate = 0x48434643 \<and> hc_version candidate = 4 \<and>
     hc_periodSeconds candidate \<ge> 60 \<and> hc_periodSeconds candidate \<le> 1800 \<and>
     hc_crc candidate = healthCheckConfig_Crc (take 916 (put_hc_snapshot candidate))"

definition healthCheckConfig_IsFactoryVersionValid :: "HealthCheckConfig_SnapshotTypeDef \<Rightarrow> bool" where
  "healthCheckConfig_IsFactoryVersionValid candidate \<longleftrightarrow>
     hc_magic candidate = 0x48434643 \<and> hc_version candidate = 3 \<and>
     hc_periodSeconds candidate \<ge> 60 \<and> hc_periodSeconds candidate \<le> 1800 \<and>
     hc_crc candidate = healthCheckConfig_Crc (take 916 (put_hc_snapshot candidate))"

definition healthCheckConfig_IsLegacyValid :: "HealthCheckConfig_LegacySnapshotTypeDef \<Rightarrow> bool" where
  "healthCheckConfig_IsLegacyValid candidate \<longleftrightarrow>
     hl_magic candidate = 0x48434643 \<and> hl_version candidate = 1 \<and>
     hl_periodSeconds candidate \<ge> 60 \<and> hl_periodSeconds candidate \<le> 1800 \<and>
     hl_crc candidate = healthCheckConfig_Crc (take 460 (put_hc_legacy candidate))"

definition healthCheckConfig_IsPreviousValid :: "HealthCheckConfig_PreviousSnapshotTypeDef \<Rightarrow> bool" where
  "healthCheckConfig_IsPreviousValid candidate \<longleftrightarrow>
     hp_magic candidate = 0x48434643 \<and> hp_version candidate = 2 \<and>
     hp_periodSeconds candidate \<ge> 60 \<and> hp_periodSeconds candidate \<le> 1800 \<and>
     hp_crc candidate = healthCheckConfig_Crc (take 468 (put_hc_previous candidate))"

text \<open>The result of \<open>memset\<close> on a resource and on a snapshot.\<close>

definition zero_resource :: HealthCheckConfig_ResourceTypeDef where
  "zero_resource = \<lparr>r_occupied = 0, r_enabled = 0, r_trustAnchorId = 0, r_reserved = 0, r_port = 0,
     r_host = memset_chars 64, r_path = memset_chars 80\<rparr>"

definition zero_hc_snapshot :: HealthCheckConfig_SnapshotTypeDef where
  "zero_hc_snapshot = \<lparr>hc_magic = 0, hc_version = 0, hc_reserved = 0, hc_generation = 0,
     hc_periodSeconds = 0, hc_resources = replicate 6 zero_resource, hc_crc = 0\<rparr>"

definition healthCheckConfig_RemoveFactoryReferences ::
  "HealthCheckConfig_SnapshotTypeDef \<Rightarrow> HealthCheckConfig_SnapshotTypeDef" where
  "healthCheckConfig_RemoveFactoryReferences target =
     target\<lparr>hc_resources := map (\<lambda>r. if r_occupied r \<noteq> 0 \<and> r_trustAnchorId r = 0 then zero_resource else r)
                              (hc_resources target)\<rparr>"

definition healthCheckConfig_MigratePrevious ::
  "HealthCheckConfig_PreviousSnapshotTypeDef \<Rightarrow> HealthCheckConfig_SnapshotTypeDef" where
  "healthCheckConfig_MigratePrevious previous =
     healthCheckConfig_RemoveFactoryReferences
       (zero_hc_snapshot\<lparr>hc_generation := hp_generation previous, hc_periodSeconds := hp_periodSeconds previous,
          hc_resources := hp_resources previous @ drop 3 (hc_resources zero_hc_snapshot)\<rparr>)"

definition healthCheckConfig_MigrateLegacy ::
  "HealthCheckConfig_LegacySnapshotTypeDef \<Rightarrow> HealthCheckConfig_SnapshotTypeDef" where
  "healthCheckConfig_MigrateLegacy legacy =
     zero_hc_snapshot\<lparr>hc_generation := hl_generation legacy, hc_periodSeconds := hl_periodSeconds legacy\<rparr>"

definition healthCheckConfig_SetDefault :: HealthCheckConfig_SnapshotTypeDef where
  "healthCheckConfig_SetDefault = zero_hc_snapshot\<lparr>hc_periodSeconds := 60\<rparr>"

subsection \<open>Save\<close>

text \<open>The assignments \<open>healthCheckConfig_Save\<close> makes through its pointer before it
  writes.\<close>

definition healthCheckConfig_Stamp ::
  "HealthCheckConfig_SnapshotTypeDef \<Rightarrow> HealthCheckConfig_SnapshotTypeDef" where
  "healthCheckConfig_Stamp candidate =
     (let stamped = candidate\<lparr>hc_magic := 0x48434643, hc_version := 4,
                              hc_generation := hc_generation candidate + 1\<rparr>
      in stamped\<lparr>hc_crc := healthCheckConfig_Crc (take 916 (put_hc_snapshot stamped))\<rparr>)"

text \<open>The second component is what the caller's candidate holds afterwards.\<close>

definition healthCheckConfig_Save ::
  "HealthCheckConfig_SnapshotTypeDef \<Rightarrow> HealthCheckConfig_State \<Rightarrow> env \<Rightarrow>
   HealthCheck_StatusTypeDef \<times> HealthCheckConfig_SnapshotTypeDef \<times> HealthCheckConfig_State \<times> env" where
  "healthCheckConfig_Save candidate st env =
     (let target = (if cfg_activeAddress st = HEALTH_CHECK_CONFIG_SECTOR_A
                    then HEALTH_CHECK_CONFIG_SECTOR_B else HEALTH_CHECK_CONFIG_SECTOR_A);
          candidate = healthCheckConfig_Stamp candidate;
          (s1, env1) = W25Q64_EraseSector target env in
      if s1 \<noteq> W25Q64_STATUS_OK then (HEALTH_CHECK_STATUS_ERROR, candidate, st, env1)
      else
        let (s2, env2) = W25Q64_Program target (Some (put_hc_snapshot candidate)) env1 in
        if s2 \<noteq> W25Q64_STATUS_OK then (HEALTH_CHECK_STATUS_ERROR, candidate, st, env2)
        else
          let (s3, d, env3) = W25Q64_Read target 920 env2;
              verification = get_hc_snapshot d in
          if s3 \<noteq> W25Q64_STATUS_OK \<or> \<not> healthCheckConfig_IsValid verification
             \<or> hc_generation verification \<noteq> hc_generation candidate
          then (HEALTH_CHECK_STATUS_ERROR, candidate, st, env3)
          else (HEALTH_CHECK_STATUS_OK, candidate,
                st\<lparr>cfg_snapshot := candidate, cfg_activeAddress := target\<rparr>, env3))"

text \<open>The calls \<open>healthCheckConfig_Save(&snapshot)\<close>: the candidate is the live snapshot,
  so it keeps the stamp even when the save fails.\<close>

definition healthCheckConfig_SaveLive ::
  "HealthCheckConfig_State \<Rightarrow> env \<Rightarrow> HealthCheck_StatusTypeDef \<times> HealthCheckConfig_State \<times> env" where
  "healthCheckConfig_SaveLive st env =
     (let (status, candidate, st1, env1) = healthCheckConfig_Save (cfg_snapshot st) st env
      in (status, st1\<lparr>cfg_snapshot := candidate\<rparr>, env1))"

subsection \<open>Start-up\<close>

definition healthCheckConfig_InitDefault ::
  "HealthCheckConfig_State \<Rightarrow> env \<Rightarrow> HealthCheck_StatusTypeDef \<times> HealthCheckConfig_State \<times> env" where
  "healthCheckConfig_InitDefault st env =
     healthCheckConfig_SaveLive
       (st\<lparr>cfg_snapshot := healthCheckConfig_SetDefault, cfg_activeAddress := HEALTH_CHECK_CONFIG_SECTOR_B\<rparr>) env"

definition healthCheckConfig_InitLegacy ::
  "HealthCheckConfig_State \<Rightarrow> env \<Rightarrow> HealthCheck_StatusTypeDef \<times> HealthCheckConfig_State \<times> env" where
  "healthCheckConfig_InitLegacy st env =
     (let (firstValid, first, env1) =
            load_snapshot get_hc_legacy 464 healthCheckConfig_IsLegacyValid HEALTH_CHECK_CONFIG_SECTOR_A env;
          (secondValid, second, env2) =
            load_snapshot get_hc_legacy 464 healthCheckConfig_IsLegacyValid HEALTH_CHECK_CONFIG_SECTOR_B env1 in
      if firstValid \<or> secondValid then
        let useFirst = (firstValid \<and> (\<not> secondValid \<or> hl_generation first \<ge> hl_generation second));
            legacy = (if useFirst then first else second)
        in healthCheckConfig_SaveLive
             (st\<lparr>cfg_activeAddress := (if useFirst then HEALTH_CHECK_CONFIG_SECTOR_A
                                       else HEALTH_CHECK_CONFIG_SECTOR_B),
                 cfg_snapshot := healthCheckConfig_MigrateLegacy legacy\<rparr>) env2
      else healthCheckConfig_InitDefault st env2)"

definition healthCheckConfig_InitPrevious ::
  "HealthCheckConfig_State \<Rightarrow> env \<Rightarrow> HealthCheck_StatusTypeDef \<times> HealthCheckConfig_State \<times> env" where
  "healthCheckConfig_InitPrevious st env =
     (let (firstValid, first, env1) =
            load_snapshot get_hc_previous 472 healthCheckConfig_IsPreviousValid HEALTH_CHECK_CONFIG_SECTOR_A env;
          (secondValid, second, env2) =
            load_snapshot get_hc_previous 472 healthCheckConfig_IsPreviousValid HEALTH_CHECK_CONFIG_SECTOR_B env1 in
      if firstValid \<or> secondValid then
        let useFirst = (firstValid \<and> (\<not> secondValid \<or> hp_generation first \<ge> hp_generation second));
            previous = (if useFirst then first else second)
        in healthCheckConfig_SaveLive
             (st\<lparr>cfg_activeAddress := (if useFirst then HEALTH_CHECK_CONFIG_SECTOR_A
                                       else HEALTH_CHECK_CONFIG_SECTOR_B),
                 cfg_snapshot := healthCheckConfig_MigratePrevious previous\<rparr>) env2
      else healthCheckConfig_InitLegacy st env2)"

definition healthCheckConfig_InitFactory ::
  "HealthCheckConfig_State \<Rightarrow> env \<Rightarrow> HealthCheck_StatusTypeDef \<times> HealthCheckConfig_State \<times> env" where
  "healthCheckConfig_InitFactory st env =
     (let (firstValid, first, env1) =
            load_snapshot get_hc_snapshot 920 healthCheckConfig_IsFactoryVersionValid
              HEALTH_CHECK_CONFIG_SECTOR_A env;
          (secondValid, second, env2) =
            load_snapshot get_hc_snapshot 920 healthCheckConfig_IsFactoryVersionValid
              HEALTH_CHECK_CONFIG_SECTOR_B env1 in
      if firstValid \<or> secondValid then
        let useFirst = (firstValid \<and> (\<not> secondValid \<or> hc_generation first \<ge> hc_generation second));
            previous = (if useFirst then first else second)
        in healthCheckConfig_SaveLive
             (st\<lparr>cfg_activeAddress := (if useFirst then HEALTH_CHECK_CONFIG_SECTOR_A
                                       else HEALTH_CHECK_CONFIG_SECTOR_B),
                 cfg_snapshot := healthCheckConfig_RemoveFactoryReferences previous\<rparr>) env2
      else healthCheckConfig_InitPrevious st env2)"

definition HealthCheckConfig_Init ::
  "HealthCheckConfig_State \<Rightarrow> env \<Rightarrow> HealthCheck_StatusTypeDef \<times> HealthCheckConfig_State \<times> env" where
  "HealthCheckConfig_Init st env =
     (let (created, env0) = xSemaphoreCreateMutexStatic env in
      if \<not> created then (HEALTH_CHECK_STATUS_ERROR, st, env0)
      else
        let (firstValid, first, env1) =
              load_snapshot get_hc_snapshot 920 healthCheckConfig_IsValid HEALTH_CHECK_CONFIG_SECTOR_A env0;
            (secondValid, second, env2) =
              load_snapshot get_hc_snapshot 920 healthCheckConfig_IsValid HEALTH_CHECK_CONFIG_SECTOR_B env1 in
        if firstValid \<and> (\<not> secondValid \<or> hc_generation first \<ge> hc_generation second) then
          (HEALTH_CHECK_STATUS_OK,
           st\<lparr>cfg_snapshot := first, cfg_activeAddress := HEALTH_CHECK_CONFIG_SECTOR_A\<rparr>, env2)
        else if secondValid then
          (HEALTH_CHECK_STATUS_OK,
           st\<lparr>cfg_snapshot := second, cfg_activeAddress := HEALTH_CHECK_CONFIG_SECTOR_B\<rparr>, env2)
        else healthCheckConfig_InitFactory st env2)"

subsection \<open>Public operations\<close>

definition HealthCheckConfig_GetPeriodSeconds :: "HealthCheckConfig_State \<Rightarrow> env \<Rightarrow> u32 \<times> env" where
  "HealthCheckConfig_GetPeriodSeconds st env =
     (let (locked, env1) = xSemaphoreTake env
      in (if locked then hc_periodSeconds (cfg_snapshot st) else 60, env1))"

text \<open>The shared tail of the mutating operations: save the candidate and translate the
  result.\<close>

definition healthCheckConfig_Commit ::
  "HealthCheckConfig_SnapshotTypeDef \<Rightarrow> HealthCheckConfig_State \<Rightarrow> env \<Rightarrow>
   HealthCheckConfig_StatusTypeDef \<times> HealthCheckConfig_State \<times> env" where
  "healthCheckConfig_Commit candidate st env =
     (let (status, _, st1, env1) = healthCheckConfig_Save candidate st env
      in (if status = HEALTH_CHECK_STATUS_OK then HEALTH_CHECK_CONFIG_STATUS_OK
          else HEALTH_CHECK_CONFIG_STATUS_STORAGE_ERROR, st1, env1))"

definition HealthCheckConfig_SetPeriodSeconds ::
  "u32 \<Rightarrow> HealthCheckConfig_State \<Rightarrow> env \<Rightarrow>
   HealthCheckConfig_StatusTypeDef \<times> HealthCheckConfig_State \<times> env" where
  "HealthCheckConfig_SetPeriodSeconds periodSeconds st env =
     (if periodSeconds < 60 \<or> periodSeconds > 1800
      then (HEALTH_CHECK_CONFIG_STATUS_INVALID_ARGUMENT, st, env)
      else
        let (locked, env1) = xSemaphoreTake env in
        if \<not> locked then (HEALTH_CHECK_CONFIG_STATUS_STORAGE_ERROR, st, env1)
        else healthCheckConfig_Commit ((cfg_snapshot st)\<lparr>hc_periodSeconds := periodSeconds\<rparr>) st env1)"

text \<open>The output array is unchanged when the mutex is not obtained.\<close>

definition HealthCheckConfig_GetResources ::
  "HealthCheckConfig_ResourceTypeDef list \<Rightarrow> HealthCheckConfig_State \<Rightarrow> env \<Rightarrow>
   HealthCheckConfig_ResourceTypeDef list \<times> env" where
  "HealthCheckConfig_GetResources resources st env =
     (let (locked, env1) = xSemaphoreTake env
      in (if locked then hc_resources (cfg_snapshot st) else resources, env1))"

definition resource_arguments_ok :: "string option \<Rightarrow> u16 \<Rightarrow> string option \<Rightarrow> u8 \<Rightarrow> bool" where
  "resource_arguments_ok host port path trustAnchorId \<longleftrightarrow>
     (case (host, path) of
        (Some h, Some p) \<Rightarrow>
          c_str h \<noteq> [] \<and> c_str p \<noteq> [] \<and> hd (c_str p) = CHR ''/'' \<and> port \<noteq> 0 \<and>
          trustAnchorId \<ge> 1 \<and> trustAnchorId \<le> 6 \<and> length (c_str h) < 64 \<and> length (c_str p) < 80
      | _ \<Rightarrow> False)"

fun free_index :: "HealthCheckConfig_ResourceTypeDef list \<Rightarrow> nat" where
  "free_index [] = 0"
| "free_index (r # rs) = (if r_occupied r = 0 then 0 else Suc (free_index rs))"

definition HealthCheckConfig_AddResource ::
  "string option \<Rightarrow> u16 \<Rightarrow> string option \<Rightarrow> bool \<Rightarrow> u8 \<Rightarrow> HealthCheckConfig_State \<Rightarrow> env \<Rightarrow>
   HealthCheckConfig_StatusTypeDef \<times> nat option \<times> HealthCheckConfig_State \<times> env" where
  "HealthCheckConfig_AddResource host port path enabled trustAnchorId st env =
     (if \<not> resource_arguments_ok host port path trustAnchorId
      then (HEALTH_CHECK_CONFIG_STATUS_INVALID_ARGUMENT, None, st, env)
      else
        let (locked, env1) = xSemaphoreTake env in
        if \<not> locked then (HEALTH_CHECK_CONFIG_STATUS_STORAGE_ERROR, None, st, env1)
        else
          let candidate = cfg_snapshot st;
              index = free_index (hc_resources candidate) in
          if index = HEALTH_CHECK_CONFIG_MAX_RESOURCES
          then (HEALTH_CHECK_CONFIG_STATUS_FULL, None, st, env1)
          else
            let slot = zero_resource\<lparr>r_occupied := 1, r_enabled := (if enabled then 1 else 0),
                         r_trustAnchorId := trustAnchorId, r_port := port,
                         r_host := strncpy (r_host zero_resource) (the host) 63,
                         r_path := strncpy (r_path zero_resource) (the path) 79\<rparr>;
                (status, st1, env2) = healthCheckConfig_Commit
                  (candidate\<lparr>hc_resources := (hc_resources candidate)[index := slot]\<rparr>) st env1
            in (status, if status = HEALTH_CHECK_CONFIG_STATUS_OK then Some index else None, st1, env2))"

definition HealthCheckConfig_UpdateResource ::
  "nat \<Rightarrow> string option \<Rightarrow> u16 \<Rightarrow> string option \<Rightarrow> bool \<Rightarrow> u8 \<Rightarrow> HealthCheckConfig_State \<Rightarrow> env \<Rightarrow>
   HealthCheckConfig_StatusTypeDef \<times> HealthCheckConfig_State \<times> env" where
  "HealthCheckConfig_UpdateResource index host port path enabled trustAnchorId st env =
     (if index \<ge> HEALTH_CHECK_CONFIG_MAX_RESOURCES \<or> \<not> resource_arguments_ok host port path trustAnchorId
      then (HEALTH_CHECK_CONFIG_STATUS_INVALID_ARGUMENT, st, env)
      else
        let (locked, env1) = xSemaphoreTake env in
        if \<not> locked then (HEALTH_CHECK_CONFIG_STATUS_STORAGE_ERROR, st, env1)
        else
          let candidate = cfg_snapshot st;
              old = hc_resources candidate ! index in
          if r_occupied old = 0 then (HEALTH_CHECK_CONFIG_STATUS_NOT_FOUND, st, env1)
          else
            let slot = old\<lparr>r_enabled := (if enabled then 1 else 0), r_trustAnchorId := trustAnchorId,
                         r_port := port, r_host := strncpy (memset_chars 64) (the host) 63,
                         r_path := strncpy (memset_chars 80) (the path) 79\<rparr>
            in healthCheckConfig_Commit
                 (candidate\<lparr>hc_resources := (hc_resources candidate)[index := slot]\<rparr>) st env1)"

definition HealthCheckConfig_DeleteResource ::
  "nat \<Rightarrow> HealthCheckConfig_State \<Rightarrow> env \<Rightarrow>
   HealthCheckConfig_StatusTypeDef \<times> HealthCheckConfig_State \<times> env" where
  "HealthCheckConfig_DeleteResource index st env =
     (if index \<ge> HEALTH_CHECK_CONFIG_MAX_RESOURCES
      then (HEALTH_CHECK_CONFIG_STATUS_INVALID_ARGUMENT, st, env)
      else
        let (locked, env1) = xSemaphoreTake env in
        if \<not> locked then (HEALTH_CHECK_CONFIG_STATUS_STORAGE_ERROR, st, env1)
        else if r_occupied (hc_resources (cfg_snapshot st) ! index) = 0
        then (HEALTH_CHECK_CONFIG_STATUS_NOT_FOUND, st, env1)
        else
          let candidate = cfg_snapshot st
          in healthCheckConfig_Commit
               (candidate\<lparr>hc_resources := (hc_resources candidate)[index := zero_resource]\<rparr>) st env1)"

definition HealthCheckConfig_IsTrustAnchorInUse :: "u8 \<Rightarrow> HealthCheckConfig_State \<Rightarrow> env \<Rightarrow> bool \<times> env" where
  "HealthCheckConfig_IsTrustAnchorInUse trustAnchorId st env =
     (let (locked, env1) = xSemaphoreTake env
      in (locked \<and> list_ex (\<lambda>r. r_occupied r \<noteq> 0 \<and> r_trustAnchorId r = trustAnchorId)
                     (hc_resources (cfg_snapshot st)), env1))"

subsection \<open>Well-formedness and requests\<close>

text \<open>Array members have their declared length.\<close>

definition wf_resource :: "HealthCheckConfig_ResourceTypeDef \<Rightarrow> bool" where
  "wf_resource r \<longleftrightarrow> length (r_host r) = 64 \<and> length (r_path r) = 80"

definition wf_hc_snapshot :: "HealthCheckConfig_SnapshotTypeDef \<Rightarrow> bool" where
  "wf_hc_snapshot s \<longleftrightarrow> length (hc_resources s) = 6 \<and> list_all wf_resource (hc_resources s)"

text \<open>What the checks of \<open>AddResource\<close> and \<open>UpdateResource\<close> promise of a slot.\<close>

definition resource_ok :: "HealthCheckConfig_ResourceTypeDef \<Rightarrow> bool" where
  "resource_ok r \<longleftrightarrow> r_occupied r = 0 \<or>
     (r_enabled r \<in> {0, 1} \<and> r_trustAnchorId r \<in> {1..6} \<and> r_port r \<noteq> 0 \<and>
      c_str (r_host r) \<noteq> [] \<and> length (c_str (r_host r)) < 64 \<and>
      c_str (r_path r) \<noteq> [] \<and> hd (c_str (r_path r)) = CHR ''/'' \<and> length (c_str (r_path r)) < 80)"

definition hc_snapshot_ok :: "HealthCheckConfig_SnapshotTypeDef \<Rightarrow> bool" where
  "hc_snapshot_ok s \<longleftrightarrow> wf_hc_snapshot s \<and> hc_periodSeconds s \<in> {60..1800} \<and>
     list_all resource_ok (hc_resources s)"

text \<open>The mutating requests, by the operation that serves them.\<close>

datatype config_request =
    Set_Period u32
  | Add_Resource "string option" u16 "string option" bool u8
  | Update_Resource nat "string option" u16 "string option" bool u8
  | Delete_Resource nat

fun config_serve :: "config_request \<Rightarrow> HealthCheckConfig_State \<Rightarrow> env \<Rightarrow>
    HealthCheckConfig_StatusTypeDef \<times> HealthCheckConfig_State \<times> env" where
  "config_serve (Set_Period p) st env = HealthCheckConfig_SetPeriodSeconds p st env"
| "config_serve (Add_Resource host port path enabled anchor) st env =
     (let (s, _, st', env') = HealthCheckConfig_AddResource host port path enabled anchor st env
      in (s, st', env'))"
| "config_serve (Update_Resource i host port path enabled anchor) st env =
     HealthCheckConfig_UpdateResource i host port path enabled anchor st env"
| "config_serve (Delete_Resource i) st env = HealthCheckConfig_DeleteResource i st env"

text \<open>The abstract configuration: the period and six slots, each free or holding the
  enabled flag, trust anchor, port, host and path.  \<open>config_spec\<close> says what a request
  does to it or with which status it is refused.\<close>

type_synonym config_slot = "(bool \<times> u8 \<times> u16 \<times> string \<times> string) option"

definition slot_view :: "HealthCheckConfig_ResourceTypeDef \<Rightarrow> config_slot" where
  "slot_view r = (if r_occupied r = 0 then None
     else Some (r_enabled r \<noteq> 0, r_trustAnchorId r, r_port r, c_str (r_host r), c_str (r_path r)))"

definition config_view :: "HealthCheckConfig_SnapshotTypeDef \<Rightarrow> u32 \<times> config_slot list" where
  "config_view s = (hc_periodSeconds s, map slot_view (hc_resources s))"

fun first_free :: "config_slot list \<Rightarrow> nat" where
  "first_free [] = 0"
| "first_free (None # ss) = 0"
| "first_free (Some _ # ss) = Suc (first_free ss)"

fun config_spec :: "config_request \<Rightarrow> u32 \<times> config_slot list \<Rightarrow>
    HealthCheckConfig_StatusTypeDef + u32 \<times> config_slot list" where
  "config_spec (Set_Period p) (period, slots) =
     (if 60 \<le> p \<and> p \<le> 1800 then Inr (p, slots) else Inl HEALTH_CHECK_CONFIG_STATUS_INVALID_ARGUMENT)"
| "config_spec (Add_Resource host port path enabled anchor) (period, slots) =
     (if \<not> resource_arguments_ok host port path anchor then Inl HEALTH_CHECK_CONFIG_STATUS_INVALID_ARGUMENT
      else if None \<notin> set slots then Inl HEALTH_CHECK_CONFIG_STATUS_FULL
      else Inr (period, slots[first_free slots := Some (enabled, anchor, port, c_str (the host), c_str (the path))]))"
| "config_spec (Update_Resource i host port path enabled anchor) (period, slots) =
     (if i \<ge> length slots \<or> \<not> resource_arguments_ok host port path anchor
      then Inl HEALTH_CHECK_CONFIG_STATUS_INVALID_ARGUMENT
      else if slots ! i = None then Inl HEALTH_CHECK_CONFIG_STATUS_NOT_FOUND
      else Inr (period, slots[i := Some (enabled, anchor, port, c_str (the host), c_str (the path))]))"
| "config_spec (Delete_Resource i) (period, slots) =
     (if i \<ge> length slots then Inl HEALTH_CHECK_CONFIG_STATUS_INVALID_ARGUMENT
      else if slots ! i = None then Inl HEALTH_CHECK_CONFIG_STATUS_NOT_FOUND
      else Inr (period, slots[i := None]))"

text \<open>Static storage before the first start, and the state a blank board comes up in.\<close>

definition hc_static :: HealthCheckConfig_State where
  "hc_static = \<lparr>cfg_snapshot = zero_hc_snapshot, cfg_activeAddress = 0\<rparr>"

definition hc_first_state :: HealthCheckConfig_State where
  "hc_first_state = fst (snd (HealthCheckConfig_Init hc_static blank_env))"

definition hc_first_env :: env where
  "hc_first_env = snd (snd (HealthCheckConfig_Init hc_static blank_env))"

abbreviation hc_held :: "(nat \<Rightarrow> u8) \<Rightarrow> u32 \<Rightarrow> HealthCheckConfig_SnapshotTypeDef option" where
  "hc_held c sector \<equiv> snapshot_at get_hc_snapshot 920 healthCheckConfig_IsValid c sector"

abbreviation hc_live :: "HealthCheckConfig_State \<Rightarrow> (nat \<Rightarrow> u8) \<Rightarrow> bool" where
  "hc_live st c \<equiv> live get_hc_snapshot 920 healthCheckConfig_IsValid
     HEALTH_CHECK_CONFIG_SECTOR_A HEALTH_CHECK_CONFIG_SECTOR_B (cfg_snapshot st) (cfg_activeAddress st) c"

abbreviation (input) hc_inactive :: "HealthCheckConfig_State \<Rightarrow> u32" where
  "hc_inactive st \<equiv> other_sector HEALTH_CHECK_CONFIG_SECTOR_A HEALTH_CHECK_CONFIG_SECTOR_B (cfg_activeAddress st)"

abbreviation hc_committed :: "HealthCheckConfig_State \<Rightarrow> (nat \<Rightarrow> u8) \<Rightarrow> bool" where
  "hc_committed st c \<equiv> committed get_hc_snapshot 920 healthCheckConfig_IsValid hc_generation
     HEALTH_CHECK_CONFIG_SECTOR_A HEALTH_CHECK_CONFIG_SECTOR_B (cfg_snapshot st) (cfg_activeAddress st) c"

text \<open>Auxiliary notions of the proofs: what the read-back accepts, the candidate of a
  request, a step that changes nothing, and sectors without a snapshot of a format.\<close>

definition hc_accepts :: "HealthCheckConfig_SnapshotTypeDef \<Rightarrow> HealthCheckConfig_SnapshotTypeDef \<Rightarrow> bool" where
  "hc_accepts candidate v \<longleftrightarrow> healthCheckConfig_IsValid v \<and> hc_generation v = hc_generation candidate"

fun config_candidate :: "config_request \<Rightarrow> HealthCheckConfig_SnapshotTypeDef \<Rightarrow> HealthCheckConfig_SnapshotTypeDef" where
  "config_candidate (Set_Period p) s = s\<lparr>hc_periodSeconds := p\<rparr>"
| "config_candidate (Add_Resource host port path enabled anchor) s =
     s\<lparr>hc_resources := (hc_resources s)[free_index (hc_resources s) :=
        zero_resource\<lparr>r_occupied := 1, r_enabled := (if enabled then 1 else 0), r_trustAnchorId := anchor,
          r_port := port, r_host := strncpy (r_host zero_resource) (the host) 63,
          r_path := strncpy (r_path zero_resource) (the path) 79\<rparr>]\<rparr>"
| "config_candidate (Update_Resource i host port path enabled anchor) s =
     s\<lparr>hc_resources := (hc_resources s)[i := (hc_resources s ! i)
        \<lparr>r_enabled := (if enabled then 1 else 0), r_trustAnchorId := anchor, r_port := port,
          r_host := strncpy (memset_chars 64) (the host) 63,
          r_path := strncpy (memset_chars 80) (the path) 79\<rparr>]\<rparr>"
| "config_candidate (Delete_Resource i) s = s\<lparr>hc_resources := (hc_resources s)[i := zero_resource]\<rparr>"

definition hc_quiet_step :: "HealthCheckConfig_State \<Rightarrow> env \<Rightarrow> HealthCheckConfig_State \<Rightarrow> env \<Rightarrow> bool" where
  "hc_quiet_step st env st' env' \<longleftrightarrow> st' = st \<and> cells env' = cells env \<and> touches 0 0 env env'"

definition hc_blank :: "env \<Rightarrow> bool" where
  "hc_blank env \<longleftrightarrow> healthy env \<and> sector_blank (cells env) HEALTH_CHECK_CONFIG_SECTOR_A \<and>
     sector_blank (cells env) HEALTH_CHECK_CONFIG_SECTOR_B"

definition hc_absent :: "(u8 list \<Rightarrow> 's) \<Rightarrow> nat \<Rightarrow> ('s \<Rightarrow> bool) \<Rightarrow> (nat \<Rightarrow> u8) \<Rightarrow> bool" where
  "hc_absent get n valid c \<longleftrightarrow> snapshot_at get n valid c HEALTH_CHECK_CONFIG_SECTOR_A = None \<and>
     snapshot_at get n valid c HEALTH_CHECK_CONFIG_SECTOR_B = None"

text \<open>The life of the configuration: first start on erased sectors, any request under any
  hardware behaviour (a torn sector is caught by its checks), writes of other components
  elsewhere in flash, and restarts.\<close>

inductive config_reach :: "HealthCheckConfig_State \<Rightarrow> (nat \<Rightarrow> u8) \<Rightarrow> bool" where
  first_start: "hc_blank env \<Longrightarrow> HealthCheckConfig_Init st0 env = (status, st, env') \<Longrightarrow> config_reach st (cells env')"
| request: "config_reach st (cells env) \<Longrightarrow> hc_generation (cfg_snapshot st) \<noteq> - 1 \<Longrightarrow>
    config_serve req st env = (status, st', env') \<Longrightarrow>
    (status \<noteq> HEALTH_CHECK_CONFIG_STATUS_OK \<Longrightarrow> \<forall>sector s. hc_held (cells env') sector = Some s \<longrightarrow>
       hc_held (cells env) sector = Some s \<or> s = healthCheckConfig_Stamp (config_candidate req (cfg_snapshot st))) \<Longrightarrow>
    config_reach st' (cells env')"
| elsewhere: "config_reach st c \<Longrightarrow>
    (\<And>sector. sector \<in> {HEALTH_CHECK_CONFIG_SECTOR_A, HEALTH_CHECK_CONFIG_SECTOR_B} \<Longrightarrow> hc_held c' sector = hc_held c sector) \<Longrightarrow>
    config_reach st c'"
| restart: "config_reach st (cells env) \<Longrightarrow> healthy env \<Longrightarrow>
    HealthCheckConfig_Init st0 env = (status, st', env') \<Longrightarrow> config_reach st' (cells env')"

definition config_inv :: "HealthCheckConfig_State \<Rightarrow> (nat \<Rightarrow> u8) \<Rightarrow> bool" where
  "config_inv st c \<longleftrightarrow> hc_live st c \<and>
     (\<forall>sector\<in>{HEALTH_CHECK_CONFIG_SECTOR_A, HEALTH_CHECK_CONFIG_SECTOR_B}. \<forall>s.
        hc_held c sector = Some s \<longrightarrow> hc_snapshot_ok s)"

definition wf_hc_previous :: "HealthCheckConfig_PreviousSnapshotTypeDef \<Rightarrow> bool" where
  "wf_hc_previous s \<longleftrightarrow> length (hp_resources s) = 3 \<and> list_all wf_resource (hp_resources s) \<and> length (hp_padding s) = 2"

text \<open>A flash that holds one snapshot of the previous format, for the migration's witness.\<close>

definition sample_resource :: "u8 \<Rightarrow> HealthCheckConfig_ResourceTypeDef" where
  "sample_resource anchor = \<lparr>r_occupied = 1, r_enabled = 1, r_trustAnchorId = anchor, r_reserved = 0, r_port = 443,
     r_host = strncpy (memset_chars 64) ''a.example'' 63, r_path = strncpy (memset_chars 80) ''/'' 79\<rparr>"

definition sample_previous_body :: HealthCheckConfig_PreviousSnapshotTypeDef where
  "sample_previous_body = \<lparr>hp_magic = 0x48434643, hp_version = 2, hp_reserved = 0, hp_generation = 7,
     hp_periodSeconds = 120, hp_resources = [sample_resource 2, sample_resource 0, sample_resource 0],
     hp_padding = [0, 0], hp_crc = 0\<rparr>"

definition sample_previous :: HealthCheckConfig_PreviousSnapshotTypeDef where
  "sample_previous = sample_previous_body
     \<lparr>hp_crc := healthCheckConfig_Crc (take 468 (put_hc_previous sample_previous_body))\<rparr>"

definition sample_env :: env where
  "sample_env = blank_env\<lparr>cells := (\<lambda>i. let k = i - unat HEALTH_CHECK_CONFIG_SECTOR_A in
     if unat HEALTH_CHECK_CONFIG_SECTOR_A \<le> i \<and> k < 472 then put_hc_previous sample_previous ! k else 0xFF)\<rparr>"


subsection \<open>Object representations round trip\<close>

lemma length_put_hc_resource [simp]: "wf_resource r \<Longrightarrow> length (put_hc_resource r) = 150"
  by (simp add: put_hc_resource_def wf_resource_def)

lemma get_put_hc_resource [codec]: "wf_resource r \<Longrightarrow> get_hc_resource (put_hc_resource r @ bs) = (r, bs)"
  by (simp add: get_hc_resource_def put_hc_resource_def wf_resource_def)

lemma length_put_hc_snapshot: "wf_hc_snapshot s \<Longrightarrow> length (put_hc_snapshot s) = 920"
  by (simp add: put_hc_snapshot_def wf_hc_snapshot_def length_put_array[where n = 150] list_all_iff)

lemma get_put_hc_snapshot: "wf_hc_snapshot s \<Longrightarrow> get_hc_snapshot (put_hc_snapshot s) = s"
proof -
  assume wf: "wf_hc_snapshot s"
  have "get_array 6 get_hc_resource (put_array put_hc_resource (hc_resources s) @ bs) = (hc_resources s, bs)" for bs
    using wf by (intro get_put_array) (auto simp: wf_hc_snapshot_def list_all_iff get_put_hc_resource)
  moreover have "get_u32 (put_u32 (hc_crc s)) = (hc_crc s, [])"
    using get_put_u32[of "hc_crc s" "[]"] by simp
  ultimately show ?thesis
    by (simp add: get_hc_snapshot_def put_hc_snapshot_def)
qed

lemma snd_get_hc_resource [simp]: "snd (get_hc_resource bs) = drop 150 bs"
  by (simp add: get_hc_resource_def case_prod_unfold Let_def)

lemma wf_get_hc_resource: "150 \<le> length bs \<Longrightarrow> wf_resource (fst (get_hc_resource bs))"
  by (simp add: get_hc_resource_def wf_resource_def case_prod_unfold Let_def)

lemma wf_get_hc_snapshot: "length bs = 920 \<Longrightarrow> wf_hc_snapshot (get_hc_snapshot bs)"
  by (simp add: get_hc_snapshot_def wf_hc_snapshot_def case_prod_unfold Let_def
      wf_get_array[where k = 150] wf_get_hc_resource)

lemma put_get_hc_resource: "150 \<le> length bs \<Longrightarrow> put_hc_resource (fst (get_hc_resource bs)) = take 150 bs"
  by (simp add: put_hc_resource_def get_hc_resource_def case_prod_unfold Let_def recode)

lemma put_get_hc_snapshot: "length bs = 920 \<Longrightarrow> put_hc_snapshot (get_hc_snapshot bs) = bs"
  by (simp add: put_hc_snapshot_def get_hc_snapshot_def case_prod_unfold Let_def recode
      put_get_array[where k = 150] put_get_hc_resource snd_get_array[where k = 150])

subsection \<open>The stamp\<close>

lemma hc_body_crc:
  "wf_hc_snapshot s \<Longrightarrow> take 916 (put_hc_snapshot (s\<lparr>hc_crc := c\<rparr>)) = take 916 (put_hc_snapshot s)"
  by (simp add: put_hc_snapshot_def wf_hc_snapshot_def length_put_array[where n = 150] list_all_iff)

lemma Stamp_fields [simp]:
  "hc_generation (healthCheckConfig_Stamp s) = hc_generation s + 1"
  "hc_periodSeconds (healthCheckConfig_Stamp s) = hc_periodSeconds s"
  "hc_resources (healthCheckConfig_Stamp s) = hc_resources s"
  by (simp_all add: healthCheckConfig_Stamp_def Let_def)

lemma wf_Stamp [simp]: "wf_hc_snapshot (healthCheckConfig_Stamp s) = wf_hc_snapshot s"
  by (simp add: wf_hc_snapshot_def)

lemma ok_Stamp [simp]: "hc_snapshot_ok (healthCheckConfig_Stamp s) = hc_snapshot_ok s"
  by (simp add: hc_snapshot_ok_def)

lemma Stamp_valid:
  assumes "wf_hc_snapshot s" "60 \<le> hc_periodSeconds s" "hc_periodSeconds s \<le> 1800"
  shows "healthCheckConfig_IsValid (healthCheckConfig_Stamp s)"
proof -
  let ?t = "s\<lparr>hc_magic := 0x48434643, hc_version := 4, hc_generation := hc_generation s + 1\<rparr>"
  have "wf_hc_snapshot ?t"
    using assms(1) by (simp add: wf_hc_snapshot_def)
  from hc_body_crc[OF this, of "healthCheckConfig_Crc (take 916 (put_hc_snapshot ?t))"] show ?thesis
    using assms by (simp add: healthCheckConfig_IsValid_def healthCheckConfig_Stamp_def Let_def)
qed

lemma valid_period: "healthCheckConfig_IsValid s \<Longrightarrow> 60 \<le> hc_periodSeconds s \<and> hc_periodSeconds s \<le> 1800"
  by (simp add: healthCheckConfig_IsValid_def)

subsection \<open>The store is an A/B store\<close>

interpretation hcs: ab_store W25Q64_EraseSector put_hc_snapshot get_hc_snapshot 920 4096
  wf_hc_snapshot healthCheckConfig_IsValid hc_generation
  FLASH_LAYOUT_HEALTH_CHECK_CONFIG_SECTOR_A FLASH_LAYOUT_HEALTH_CHECK_CONFIG_SECTOR_B
proof (unfold_locales, goal_cases)
  case (8 sector env)
  then show ?case
    by (intro sector_erase(1)[where n = 0]) (auto simp: layout)
next
  case (9 sector env env')
  then show ?case
    by (intro sector_erase(2)) (auto simp: layout)
next
  case (10 sector env)
  then show ?case
    by (intro sector_erase(3)[where n = 0]) (auto simp: layout)
qed (simp_all add: get_put_hc_snapshot length_put_hc_snapshot layout)

lemma Save_ab_write:
  "healthCheckConfig_Save candidate st env =
     (let target = hcs.opposite (cfg_activeAddress st);
          stamped = healthCheckConfig_Stamp candidate;
          (r, env') = ab_write W25Q64_EraseSector put_hc_snapshot get_hc_snapshot 920 (hc_accepts stamped)
                        target stamped env
      in case r of
           None \<Rightarrow> (HEALTH_CHECK_STATUS_ERROR, stamped, st, env')
         | Some _ \<Rightarrow> (HEALTH_CHECK_STATUS_OK, stamped,
                      st\<lparr>cfg_snapshot := stamped, cfg_activeAddress := target\<rparr>, env'))"
  by (simp add: healthCheckConfig_Save_def ab_write_def hc_accepts_def other_sector_def Let_def split: prod.splits)

subsection \<open>One request\<close>

text \<open>A request is refused without touching anything, or it commits a candidate.\<close>

lemma Commit_spec:
  assumes run: "healthCheckConfig_Commit candidate st env = (status, st', env')"
    and com: "hc_live st (cells env)"
    and wf: "wf_hc_snapshot candidate" "60 \<le> hc_periodSeconds candidate" "hc_periodSeconds candidate \<le> 1800"
    and gen: "hc_generation candidate = hc_generation (cfg_snapshot st)" "hc_generation (cfg_snapshot st) \<noteq> - 1"
  shows "touches (unat (hcs.opposite (cfg_activeAddress st))) 4096 env env'"
    and "status \<in> {HEALTH_CHECK_CONFIG_STATUS_OK, HEALTH_CHECK_CONFIG_STATUS_STORAGE_ERROR}"
    and "status = HEALTH_CHECK_CONFIG_STATUS_OK \<Longrightarrow>
      st' = \<lparr>cfg_snapshot = healthCheckConfig_Stamp candidate,
             cfg_activeAddress = hcs.opposite (cfg_activeAddress st)\<rparr> \<and> hc_committed st' (cells env')"
    and "status \<noteq> HEALTH_CHECK_CONFIG_STATUS_OK \<Longrightarrow>
      st' = st \<and> hc_held (cells env') (cfg_activeAddress st) = Some (cfg_snapshot st)"
    and "healthy env \<Longrightarrow> status = HEALTH_CHECK_CONFIG_STATUS_OK \<and> healthy env'"
proof -
  let ?t = "hcs.opposite (cfg_activeAddress st)" and ?s = "healthCheckConfig_Stamp candidate"
  have wfs: "wf_hc_snapshot ?s" and valid: "healthCheckConfig_IsValid ?s"
    using wf Stamp_valid by simp_all
  obtain r env1 where w: "ab_write W25Q64_EraseSector put_hc_snapshot get_hc_snapshot 920 (hc_accepts ?s) ?t ?s env
      = (r, env1)"
    by fastforce
  have res: "env' = env1" "status = (if r = None then HEALTH_CHECK_CONFIG_STATUS_STORAGE_ERROR
      else HEALTH_CHECK_CONFIG_STATUS_OK)"
    "st' = (if r = None then st else \<lparr>cfg_snapshot = ?s, cfg_activeAddress = ?t\<rparr>)"
    using run by (auto simp: healthCheckConfig_Commit_def Save_ab_write w Let_def split: option.splits)
  show frame: "touches (unat ?t) 4096 env env'"
    using hcs.write_frame[OF hcs.opposite_in wfs w] res(1) by simp
  show "status \<in> {HEALTH_CHECK_CONFIG_STATUS_OK, HEALTH_CHECK_CONFIG_STATUS_STORAGE_ERROR}"
    using res by simp
  show "st' = \<lparr>cfg_snapshot = ?s, cfg_activeAddress = ?t\<rparr> \<and> hc_committed st' (cells env')"
    if ok: "status = HEALTH_CHECK_CONFIG_STATUS_OK"
  proof -
    obtain v where "r = Some v"
      using ok res(2) by (cases r) auto
    then show ?thesis
      using hcs.write_publishes[OF com wfs valid _ gen(2)] w res gen(1) by simp
  qed
  show "st' = st \<and> hc_held (cells env') (cfg_activeAddress st) = Some (cfg_snapshot st)"
    if "status \<noteq> HEALTH_CHECK_CONFIG_STATUS_OK"
    using that res hcs.write_fails_safely[OF com wfs] w by (auto split: if_splits)
  show "status = HEALTH_CHECK_CONFIG_STATUS_OK \<and> healthy env'" if "healthy env"
    using hcs.write_healthy[OF hcs.opposite_in wfs that, of "hc_accepts ?s" "cfg_activeAddress st"] valid w res
    by (auto simp: hc_accepts_def)
qed

lemma live_snapshot:
  assumes "hc_live st c"
  shows "wf_hc_snapshot (cfg_snapshot st)" "60 \<le> hc_periodSeconds (cfg_snapshot st)"
    "hc_periodSeconds (cfg_snapshot st) \<le> 1800" "length (hc_resources (cfg_snapshot st)) = 6"
proof -
  have "healthCheckConfig_IsValid (cfg_snapshot st)"
    "cfg_snapshot st = get_hc_snapshot (cells_at c (unat (cfg_activeAddress st)) 920)"
    using assms by (auto simp: live_def snapshot_at_def Let_def split: if_splits)
  moreover from this(2) show "wf_hc_snapshot (cfg_snapshot st)"
    by (simp add: wf_get_hc_snapshot)
  ultimately show "60 \<le> hc_periodSeconds (cfg_snapshot st)"
    "hc_periodSeconds (cfg_snapshot st) \<le> 1800" "length (hc_resources (cfg_snapshot st)) = 6"
    by (simp_all add: valid_period wf_hc_snapshot_def)
qed

text \<open>The candidate a request builds.\<close>

lemma wf_zero_resource [simp]: "wf_resource zero_resource"
  by (simp add: wf_resource_def zero_resource_def memset_chars_def)

lemma wf_slot_update:
  "wf_hc_snapshot s \<Longrightarrow> wf_resource r \<Longrightarrow> wf_hc_snapshot (s\<lparr>hc_resources := (hc_resources s)[i := r]\<rparr>)"
  by (simp add: wf_hc_snapshot_def list_all_iff) (metis insert_iff set_update_subset_insert subsetD)

lemma wf_nth_resource: "wf_hc_snapshot s \<Longrightarrow> i < 6 \<Longrightarrow> wf_resource (hc_resources s ! i)"
  by (simp add: wf_hc_snapshot_def list_all_length)

lemma free_index_first_free: "free_index rs = first_free (map slot_view rs)"
  by (induction rs) (simp_all add: slot_view_def)

lemma first_free_le: "first_free ss \<le> length ss"
  by (induction ss rule: first_free.induct) simp_all

lemma first_free_full: "first_free ss = length ss \<longleftrightarrow> None \<notin> set ss"
  by (induction ss rule: first_free.induct) auto

lemma config_serve_cases:
  assumes "config_serve req st env = (status, st', env')" "length (hc_resources (cfg_snapshot st)) = 6"
  shows "(case config_spec req (config_view (cfg_snapshot st)) of
      Inl e \<Rightarrow> hc_quiet_step st env st' env' \<and> status \<in> {e, HEALTH_CHECK_CONFIG_STATUS_STORAGE_ERROR} \<and>
               (healthy env \<longrightarrow> status = e)
    | Inr _ \<Rightarrow> (hc_quiet_step st env st' env' \<and> status = HEALTH_CHECK_CONFIG_STATUS_STORAGE_ERROR \<and> \<not> healthy env) \<or>
        (\<exists>env1. touches 0 0 env env1 \<and>
          healthCheckConfig_Commit (config_candidate req (cfg_snapshot st)) st env1 = (status, st', env')))"
proof -
  obtain b env1 where l: "xSemaphoreTake env = (b, env1)"
    by fastforce
  note lk = xSemaphoreTake_frame[OF l]
  let ?rs = "hc_resources (cfg_snapshot st)"
  have full: "free_index ?rs = 6 \<longleftrightarrow> None \<notin> set (map slot_view ?rs)"
    using first_free_full[of "map slot_view ?rs"] assms(2) by (simp add: free_index_first_free)
  have free: "slot_view (?rs ! i) = None \<longleftrightarrow> r_occupied (?rs ! i) = 0" for i
    by (simp add: slot_view_def)
  show ?thesis
  proof (cases req)
    case (Set_Period p)
    then show ?thesis
      using assms lk
      by (cases b) (auto simp: HealthCheckConfig_SetPeriodSeconds_def l config_view_def hc_quiet_step_def not_less
          split: if_splits)
  next
    case (Add_Resource host port path enabled anchor)
    then show ?thesis
      using assms lk full
      by (cases b) (auto simp: HealthCheckConfig_AddResource_def l config_view_def hc_quiet_step_def Let_def
          split: if_splits prod.splits)
  next
    case (Update_Resource i host port path enabled anchor)
    then show ?thesis
      using assms lk free[of i]
      by (cases b) (auto simp: HealthCheckConfig_UpdateResource_def l config_view_def hc_quiet_step_def Let_def
          split: if_splits)
  next
    case (Delete_Resource i)
    then show ?thesis
      using assms lk free[of i]
      by (cases b) (auto simp: HealthCheckConfig_DeleteResource_def l config_view_def hc_quiet_step_def Let_def
          split: if_splits)
  qed
qed

lemma strncpy_slot:
  assumes "resource_arguments_ok host port path anchor"
  shows "c_str (strncpy (memset_chars 64) (the host) 63) = c_str (the host)"
    "c_str (strncpy (memset_chars 80) (the path) 79) = c_str (the path)"
    "length (strncpy (memset_chars 64) (the host) 63) = 64" "length (strncpy (memset_chars 80) (the path) 79) = 80"
proof -
  have "length (c_str (the host)) \<le> 63" "length (c_str (the path)) \<le> 79"
    using assms by (auto simp: resource_arguments_ok_def split: option.splits)
  then show "c_str (strncpy (memset_chars 64) (the host) 63) = c_str (the host)"
    "c_str (strncpy (memset_chars 80) (the path) 79) = c_str (the path)"
    by (simp_all add: c_str_strncpy)
  show "length (strncpy (memset_chars 64) (the host) 63) = 64" "length (strncpy (memset_chars 80) (the path) 79) = 80"
    by (subst length_strncpy; simp add: memset_chars_def)+
qed

lemma zero_resource_arrays [simp]: "r_host zero_resource = memset_chars 64" "r_path zero_resource = memset_chars 80"
  by (simp_all add: zero_resource_def)

lemma config_candidate_view:
  assumes "wf_hc_snapshot s" "config_spec req (config_view s) = Inr v"
  shows "config_view (config_candidate req s) = v"
  using assms
proof (cases req)
  case (Add_Resource host port path enabled anchor)
  then show ?thesis
    using assms strncpy_slot[of host port path anchor]
    by (auto simp: config_view_def map_update free_index_first_free slot_view_def split: if_splits)
next
  case (Update_Resource i host port path enabled anchor)
  then show ?thesis
    using assms strncpy_slot[of host port path anchor]
    by (auto simp: config_view_def map_update slot_view_def split: if_splits)
next
  case (Delete_Resource i)
  then show ?thesis
    using assms by (auto simp: config_view_def map_update slot_view_def zero_resource_def split: if_splits)
qed (auto simp: config_view_def split: if_splits)

lemma config_candidate_wf:
  assumes "wf_hc_snapshot s" "60 \<le> hc_periodSeconds s" "hc_periodSeconds s \<le> 1800"
    "config_spec req (config_view s) = Inr v"
  shows "wf_hc_snapshot (config_candidate req s)" "60 \<le> hc_periodSeconds (config_candidate req s)"
    "hc_periodSeconds (config_candidate req s) \<le> 1800" "hc_generation (config_candidate req s) = hc_generation s"
proof -
  have "wf_hc_snapshot (config_candidate req s) \<and> 60 \<le> hc_periodSeconds (config_candidate req s)
      \<and> hc_periodSeconds (config_candidate req s) \<le> 1800 \<and> hc_generation (config_candidate req s) = hc_generation s"
  proof (cases req)
    case (Set_Period p)
    then show ?thesis
      using assms by (auto simp: config_view_def wf_hc_snapshot_def split: if_splits)
  next
    case (Add_Resource host port path enabled anchor)
    then show ?thesis
      using assms strncpy_slot[of host port path anchor]
      by (auto simp: config_view_def intro!: wf_slot_update split: if_splits) (simp_all add: wf_resource_def)
  next
    case (Update_Resource i host port path enabled anchor)
    then show ?thesis
      using assms strncpy_slot[of host port path anchor]
      by (auto simp: config_view_def intro!: wf_slot_update split: if_splits) (simp_all add: wf_resource_def)
  next
    case (Delete_Resource i)
    then show ?thesis
      using assms by (auto simp: config_view_def intro!: wf_slot_update split: if_splits)
  qed
  then show "wf_hc_snapshot (config_candidate req s)" "60 \<le> hc_periodSeconds (config_candidate req s)"
    "hc_periodSeconds (config_candidate req s) \<le> 1800" "hc_generation (config_candidate req s) = hc_generation s"
    by simp_all
qed

subsection \<open>Start-up\<close>

lemma Init_newest:
  assumes "healthy env"
    and "newest hc_generation FLASH_LAYOUT_HEALTH_CHECK_CONFIG_SECTOR_A FLASH_LAYOUT_HEALTH_CHECK_CONFIG_SECTOR_B
      (hc_held (cells env) FLASH_LAYOUT_HEALTH_CHECK_CONFIG_SECTOR_A)
      (hc_held (cells env) FLASH_LAYOUT_HEALTH_CHECK_CONFIG_SECTOR_B) = Some (s, a)"
  shows "\<exists>env'. HealthCheckConfig_Init st env = (HEALTH_CHECK_STATUS_OK, \<lparr>cfg_snapshot = s, cfg_activeAddress = a\<rparr>, env')
    \<and> cells env' = cells env \<and> healthy env'"
proof -
  obtain b0 env0 where m: "xSemaphoreCreateMutexStatic env = (b0, env0)" by fastforce
  note mk = xSemaphoreCreateMutexStatic_frame[OF m]
  obtain b1 x1 env1 where l1: "load_snapshot get_hc_snapshot 920 healthCheckConfig_IsValid
      FLASH_LAYOUT_HEALTH_CHECK_CONFIG_SECTOR_A env0 = (b1, x1, env1)"
    using prod_cases3 by blast
  obtain b2 x2 env2 where l2: "load_snapshot get_hc_snapshot 920 healthCheckConfig_IsValid
      FLASH_LAYOUT_HEALTH_CHECK_CONFIG_SECTOR_B env1 = (b2, x2, env2)"
    using prod_cases3 by blast
  have h: "healthy env0" "b0"
    using mk(3)[OF assms(1)] by simp_all
  note ld = load_both_healthy[OF l1 l2 h(1)]
  have "cells env2 = cells env" "healthy env2"
    "hc_held (cells env) FLASH_LAYOUT_HEALTH_CHECK_CONFIG_SECTOR_A = (if b1 then Some x1 else None)"
    "hc_held (cells env) FLASH_LAYOUT_HEALTH_CHECK_CONFIG_SECTOR_B = (if b2 then Some x2 else None)"
    using ld mk(1) by (simp_all add: layout)
  then show ?thesis
    using assms(2) h(2) by (auto simp: HealthCheckConfig_Init_def m l1 l2 newest_def split: if_splits)
qed

subsection \<open>A factory-fresh flash\<close>

lemma magic_first:
  "hc_magic (get_hc_snapshot bs) = fst (get_u32 bs)" "hp_magic (get_hc_previous bs) = fst (get_u32 bs)"
  "hl_magic (get_hc_legacy bs) = fst (get_u32 bs)"
  by (simp_all add: get_hc_snapshot_def get_hc_previous_def get_hc_legacy_def case_prod_unfold Let_def)

lemma blank_invalid:
  "4 \<le> n \<Longrightarrow> \<not> healthCheckConfig_IsValid (get_hc_snapshot (replicate n 0xFF))"
  "4 \<le> n \<Longrightarrow> \<not> healthCheckConfig_IsFactoryVersionValid (get_hc_snapshot (replicate n 0xFF))"
  "4 \<le> n \<Longrightarrow> \<not> healthCheckConfig_IsPreviousValid (get_hc_previous (replicate n 0xFF))"
  "4 \<le> n \<Longrightarrow> \<not> healthCheckConfig_IsLegacyValid (get_hc_legacy (replicate n 0xFF))"
  by (simp_all add: healthCheckConfig_IsValid_def healthCheckConfig_IsFactoryVersionValid_def
      healthCheckConfig_IsPreviousValid_def healthCheckConfig_IsLegacyValid_def magic_first get_u32_blank)

lemma SaveLive_spec:
  assumes run: "healthCheckConfig_SaveLive st env = (status, st', env')" and "healthy env"
    and wf: "wf_hc_snapshot (cfg_snapshot st)" "60 \<le> hc_periodSeconds (cfg_snapshot st)"
      "hc_periodSeconds (cfg_snapshot st) \<le> 1800"
  shows "status = HEALTH_CHECK_STATUS_OK" "healthy env'"
    "touches (unat (hcs.opposite (cfg_activeAddress st))) 4096 env env'"
    "st' = \<lparr>cfg_snapshot = healthCheckConfig_Stamp (cfg_snapshot st),
            cfg_activeAddress = hcs.opposite (cfg_activeAddress st)\<rparr>"
    "(\<And>s. hc_held (cells env) (hcs.opposite (hcs.opposite (cfg_activeAddress st))) = Some s \<Longrightarrow>
        hc_generation s < hc_generation (cfg_snapshot st) + 1) \<Longrightarrow> hc_committed st' (cells env')"
proof -
  let ?t = "hcs.opposite (cfg_activeAddress st)" and ?s = "healthCheckConfig_Stamp (cfg_snapshot st)"
  have wfs: "wf_hc_snapshot ?s" and valid: "healthCheckConfig_IsValid ?s"
    using wf Stamp_valid by simp_all
  obtain env1 where w: "ab_write W25Q64_EraseSector put_hc_snapshot get_hc_snapshot 920 (hc_accepts ?s) ?t ?s env
      = (Some ?s, env1)" "healthy env1"
    using hcs.write_healthy[OF hcs.opposite_in wfs \<open>healthy env\<close>, of "hc_accepts ?s"] valid
    by (auto simp: hc_accepts_def)
  then show res: "status = HEALTH_CHECK_STATUS_OK" "healthy env'"
    "st' = \<lparr>cfg_snapshot = ?s, cfg_activeAddress = ?t\<rparr>"
    using run by (auto simp: healthCheckConfig_SaveLive_def Save_ab_write Let_def)
  have e: "env' = env1"
    using run w by (auto simp: healthCheckConfig_SaveLive_def Save_ab_write Let_def)
  then show "touches (unat ?t) 4096 env env'"
    using hcs.write_frame[OF hcs.opposite_in wfs w(1)] by simp
  show "hc_committed st' (cells env')"
    if "\<And>s. hc_held (cells env) (hcs.opposite ?t) = Some s \<Longrightarrow> hc_generation s < hc_generation (cfg_snapshot st) + 1"
    using hcs.write_published[OF hcs.opposite_in wfs valid w(1)] that res(3) e by simp
qed

lemma wf_default: "wf_hc_snapshot healthCheckConfig_SetDefault" "hc_periodSeconds healthCheckConfig_SetDefault = 60"
  by (simp_all add: healthCheckConfig_SetDefault_def zero_hc_snapshot_def wf_hc_snapshot_def list_all_iff)

lemma hc_sectors_inside:
  "unat FLASH_LAYOUT_HEALTH_CHECK_CONFIG_SECTOR_A + 4096 \<le> W25Q64_CAPACITY_BYTES"
  "unat FLASH_LAYOUT_HEALTH_CHECK_CONFIG_SECTOR_B + 4096 \<le> W25Q64_CAPACITY_BYTES"
  by (simp_all add: layout)

text \<open>When neither sector holds a format, both loads fail and leave the environment ready
  for the next format.\<close>

lemma hc_load_absent:
  assumes "healthy env" "hc_absent get (unat n) valid (cells env)" "0 < unat n" "unat n \<le> 4096"
  shows "\<exists>x1 env1 x2 env2.
    load_snapshot get n valid HEALTH_CHECK_CONFIG_SECTOR_A env = (False, x1, env1) \<and>
    load_snapshot get n valid HEALTH_CHECK_CONFIG_SECTOR_B env1 = (False, x2, env2) \<and>
    cells env2 = cells env \<and> healthy env2"
proof -
  obtain b1 x1 env1 where l1: "load_snapshot get n valid HEALTH_CHECK_CONFIG_SECTOR_A env = (b1, x1, env1)"
    using prod_cases3 by blast
  obtain b2 x2 env2 where l2: "load_snapshot get n valid HEALTH_CHECK_CONFIG_SECTOR_B env1 = (b2, x2, env2)"
    using prod_cases3 by blast
  have "\<not> b1" "\<not> b2" "cells env2 = cells env" "healthy env2"
    using load_both_healthy[OF l1 l2 assms(1)] assms(2-4) hc_sectors_inside
    by (auto simp: hc_absent_def split: if_splits)
  then show ?thesis
    using l1 l2 by auto
qed

lemma InitLegacy_absent:
  assumes "healthy env" "hc_absent get_hc_legacy 464 healthCheckConfig_IsLegacyValid (cells env)"
  shows "\<exists>env1. healthy env1 \<and> cells env1 = cells env \<and>
    healthCheckConfig_InitLegacy st env = healthCheckConfig_InitDefault st env1"
  using hc_load_absent[OF assms(1), of get_hc_legacy 464 healthCheckConfig_IsLegacyValid] assms(2)
  by (auto simp: healthCheckConfig_InitLegacy_def)

lemma InitPrevious_absent:
  assumes "healthy env" "hc_absent get_hc_previous 472 healthCheckConfig_IsPreviousValid (cells env)"
  shows "\<exists>env1. healthy env1 \<and> cells env1 = cells env \<and>
    healthCheckConfig_InitPrevious st env = healthCheckConfig_InitLegacy st env1"
  using hc_load_absent[OF assms(1), of get_hc_previous 472 healthCheckConfig_IsPreviousValid] assms(2)
  by (auto simp: healthCheckConfig_InitPrevious_def)

lemma InitFactory_absent:
  assumes "healthy env" "hc_absent get_hc_snapshot 920 healthCheckConfig_IsFactoryVersionValid (cells env)"
  shows "\<exists>env1. healthy env1 \<and> cells env1 = cells env \<and>
    healthCheckConfig_InitFactory st env = healthCheckConfig_InitPrevious st env1"
  using hc_load_absent[OF assms(1), of get_hc_snapshot 920 healthCheckConfig_IsFactoryVersionValid] assms(2)
  by (auto simp: healthCheckConfig_InitFactory_def)

lemma Init_absent:
  assumes "healthy env" "hc_absent get_hc_snapshot 920 healthCheckConfig_IsValid (cells env)"
  shows "\<exists>env1. healthy env1 \<and> cells env1 = cells env \<and>
    HealthCheckConfig_Init st env = healthCheckConfig_InitFactory st env1"
proof -
  obtain b0 env0 where m: "xSemaphoreCreateMutexStatic env = (b0, env0)" by fastforce
  note mk = xSemaphoreCreateMutexStatic_frame[OF m]
  have h: "healthy env0" "b0" "cells env0 = cells env"
    using mk assms(1) by simp_all
  show ?thesis
    using hc_load_absent[OF h(1), of get_hc_snapshot 920 healthCheckConfig_IsValid] assms(2) h(2,3)
    by (auto simp: HealthCheckConfig_Init_def m)
qed

lemma blank_absent:
  assumes "hc_blank env"
  shows "hc_absent get_hc_snapshot 920 healthCheckConfig_IsValid (cells env)"
    "hc_absent get_hc_snapshot 920 healthCheckConfig_IsFactoryVersionValid (cells env)"
    "hc_absent get_hc_previous 472 healthCheckConfig_IsPreviousValid (cells env)"
    "hc_absent get_hc_legacy 464 healthCheckConfig_IsLegacyValid (cells env)"
  using assms blank_invalid by (simp_all add: hc_absent_def hc_blank_def snapshot_at_blank)

lemma Init_blank:
  assumes "hc_blank env"
  shows "\<exists>env1. hc_blank env1 \<and> cells env1 = cells env \<and>
    HealthCheckConfig_Init st env = healthCheckConfig_InitDefault st env1"
proof -
  note absent = blank_absent[OF assms]
  obtain env1 where e1: "healthy env1" "cells env1 = cells env"
    "HealthCheckConfig_Init st env = healthCheckConfig_InitFactory st env1"
    using Init_absent absent(1) assms unfolding hc_blank_def by blast
  obtain env2 where e2: "healthy env2" "cells env2 = cells env1"
    "healthCheckConfig_InitFactory st env1 = healthCheckConfig_InitPrevious st env2"
    using InitFactory_absent[OF e1(1)] absent(2) e1(2) by auto
  obtain env3 where e3: "healthy env3" "cells env3 = cells env2"
    "healthCheckConfig_InitPrevious st env2 = healthCheckConfig_InitLegacy st env3"
    using InitPrevious_absent[OF e2(1)] absent(3) e1(2) e2(2) by auto
  obtain env4 where e4: "healthy env4" "cells env4 = cells env3"
    "healthCheckConfig_InitLegacy st env3 = healthCheckConfig_InitDefault st env4"
    using InitLegacy_absent[OF e3(1)] absent(4) e1(2) e2(2) e3(2) by auto
  have "hc_blank env4"
    using assms e1(2) e2(2) e3(2) e4(1,2) by (simp add: hc_blank_def)
  then show ?thesis
    using e1 e2 e3 e4 by auto
qed

lemma Init_default:
  assumes "hc_blank env" "HealthCheckConfig_Init st env = (status, st', env')"
  shows "status = HEALTH_CHECK_STATUS_OK" "healthy env'"
    "cfg_snapshot st' = healthCheckConfig_Stamp healthCheckConfig_SetDefault" "hc_committed st' (cells env')"
    "hc_held (cells env') (hcs.opposite (cfg_activeAddress st')) = None"
    "i < unat FLASH_LAYOUT_HEALTH_CHECK_CONFIG_SECTOR_A \<or> unat FLASH_LAYOUT_HEALTH_CHECK_CONFIG_SECTOR_A + 4096 \<le> i \<Longrightarrow>
       cells env' i = cells env i"
proof -
  obtain env1 where e: "hc_blank env1" "cells env1 = cells env"
    "healthCheckConfig_InitDefault st env1 = (status, st', env')"
    using Init_blank[OF assms(1), of st] assms(2) by auto
  have none: "hc_held (cells env1) s = None" if "s \<in> {FLASH_LAYOUT_HEALTH_CHECK_CONFIG_SECTOR_A, FLASH_LAYOUT_HEALTH_CHECK_CONFIG_SECTOR_B}" for s
    using e(1) that blank_invalid(1)[of 920] by (auto simp: hc_blank_def intro!: snapshot_at_blank)
  let ?A = "FLASH_LAYOUT_HEALTH_CHECK_CONFIG_SECTOR_A" and ?B = "FLASH_LAYOUT_HEALTH_CHECK_CONFIG_SECTOR_B"
  let ?st = "st\<lparr>cfg_snapshot := healthCheckConfig_SetDefault, cfg_activeAddress := ?B\<rparr>"
  have run: "healthCheckConfig_SaveLive ?st env1 = (status, st', env')"
    using e(3) by (simp add: healthCheckConfig_InitDefault_def)
  have pre: "healthy env1" "wf_hc_snapshot (cfg_snapshot ?st)" "60 \<le> hc_periodSeconds (cfg_snapshot ?st)"
    "hc_periodSeconds (cfg_snapshot ?st) \<le> 1800"
    using e(1) wf_default by (simp_all add: hc_blank_def)
  note sv = SaveLive_spec[OF run pre]
  have tgt: "hcs.opposite ?B = ?A" "hcs.opposite ?A = ?B"
    by (simp_all add: other_sector_def layout)
  show "status = HEALTH_CHECK_STATUS_OK" "healthy env'"
    using sv(1,2) .
  have st': "st' = \<lparr>cfg_snapshot = healthCheckConfig_Stamp healthCheckConfig_SetDefault, cfg_activeAddress = ?A\<rparr>"
    using sv(4) tgt(1) by simp
  then show "cfg_snapshot st' = healthCheckConfig_Stamp healthCheckConfig_SetDefault"
    by simp
  show "hc_committed st' (cells env')"
    by (rule sv(5)) (simp add: tgt none)
  have "touches (unat ?A) 4096 env1 env'"
    using sv(3) tgt(1) by simp
  then show "hc_held (cells env') (hcs.opposite (cfg_activeAddress st')) = None"
    "i < unat ?A \<or> unat ?A + 4096 \<le> i \<Longrightarrow> cells env' i = cells env i"
    using hcs.held_other[of ?A env1 env'] none[of ?B] tgt(2) e(2) by (auto simp: st' touches_def)
qed

subsection \<open>What requests keep\<close>

text \<open>Either nothing happened, or the candidate of an accepted request was committed.\<close>

lemma config_serve_step:
  assumes run: "config_serve req st env = (status, st', env')" and live: "hc_live st (cells env)"
    and gen: "hc_generation (cfg_snapshot st) \<noteq> - 1"
  shows "(hc_quiet_step st env st' env' \<and> status \<noteq> HEALTH_CHECK_CONFIG_STATUS_OK) \<or>
    (\<exists>v. config_spec req (config_view (cfg_snapshot st)) = Inr v \<and>
      touches (unat (hcs.opposite (cfg_activeAddress st))) 4096 env env' \<and>
      (if status = HEALTH_CHECK_CONFIG_STATUS_OK then
         st' = \<lparr>cfg_snapshot = healthCheckConfig_Stamp (config_candidate req (cfg_snapshot st)),
                cfg_activeAddress = hcs.opposite (cfg_activeAddress st)\<rparr> \<and> hc_committed st' (cells env')
       else st' = st \<and> hc_held (cells env') (cfg_activeAddress st) = Some (cfg_snapshot st)))"
proof (cases "config_spec req (config_view (cfg_snapshot st))")
  case (Inl e)
  then have "e \<noteq> HEALTH_CHECK_CONFIG_STATUS_OK"
    by (cases req) (auto simp: config_view_def split: if_splits)
  then show ?thesis
    using config_serve_cases[OF run live_snapshot(4)[OF live]] Inl by auto
next
  case (Inr v)
  note sn = live_snapshot[OF live]
  note cand = config_candidate_wf[OF sn(1-3) Inr]
  consider "hc_quiet_step st env st' env' \<and> status = HEALTH_CHECK_CONFIG_STATUS_STORAGE_ERROR"
    | env1 where "touches 0 0 env env1"
      "healthCheckConfig_Commit (config_candidate req (cfg_snapshot st)) st env1 = (status, st', env')"
    using config_serve_cases[OF run sn(4)] Inr by auto
  then show ?thesis
  proof cases
    case 1
    then show ?thesis by simp
  next
    case (2 env1)
    have c: "cells env1 = cells env"
      using touches_nothing(2)[OF 2(1)] .
    have "hc_live st (cells env1)"
      using live c by simp
    note cs = Commit_spec[OF 2(2) this cand gen]
    have "touches (unat (hcs.opposite (cfg_activeAddress st))) 4096 env env'"
      using touches_trans[OF touches_nothing(1)[OF 2(1)] cs(1)] .
    then show ?thesis
      using cs(3,4) Inr by auto
  qed
qed

text \<open>On hardware that answers, an accepted request succeeds.\<close>

lemma config_serve_healthy:
  assumes run: "config_serve req st env = (status, st', env')" and live: "hc_live st (cells env)"
    and gen: "hc_generation (cfg_snapshot st) \<noteq> - 1" and h: "healthy env"
    and spec: "config_spec req (config_view (cfg_snapshot st)) = Inr v"
  shows "status = HEALTH_CHECK_CONFIG_STATUS_OK \<and> healthy env' \<and> config_view (cfg_snapshot st') = v"
proof -
  note sn = live_snapshot[OF live]
  note cand = config_candidate_wf[OF sn(1-3) spec]
  obtain env1 where e: "touches 0 0 env env1"
    "healthCheckConfig_Commit (config_candidate req (cfg_snapshot st)) st env1 = (status, st', env')"
    using config_serve_cases[OF run sn(4)] spec h by auto
  have "hc_live st (cells env1)" "healthy env1"
    using live h touches_nothing(2)[OF e(1)] touches_healthy[OF e(1)] by simp_all
  note cs = Commit_spec[OF e(2) this(1) cand gen]
  have "status = HEALTH_CHECK_CONFIG_STATUS_OK" "healthy env'"
    using cs(5) \<open>healthy env1\<close> by simp_all
  moreover have "config_view (cfg_snapshot st') = v"
    using cs(3) calculation config_candidate_view[OF sn(1) spec] by (simp add: config_view_def)
  ultimately show ?thesis
    by simp
qed

lemma hc_first:
  "hc_live hc_first_state (cells hc_first_env)" "healthy hc_first_env"
  "hc_generation (cfg_snapshot hc_first_state) = 1"
  "cfg_snapshot hc_first_state = healthCheckConfig_Stamp healthCheckConfig_SetDefault"
proof -
  have "HealthCheckConfig_Init hc_static blank_env =
      (fst (HealthCheckConfig_Init hc_static blank_env), hc_first_state, hc_first_env)"
    by (simp add: hc_first_state_def hc_first_env_def)
  moreover have "hc_blank blank_env"
    by (simp add: hc_blank_def)
  ultimately show "hc_live hc_first_state (cells hc_first_env)" "healthy hc_first_env"
    "cfg_snapshot hc_first_state = healthCheckConfig_Stamp healthCheckConfig_SetDefault"
    using Init_default[of blank_env hc_static "fst (HealthCheckConfig_Init hc_static blank_env)"]
    unfolding committed_def by blast+
  then show "hc_generation (cfg_snapshot hc_first_state) = 1"
    by (simp add: healthCheckConfig_SetDefault_def zero_hc_snapshot_def)
qed

lemma config_view_first: "config_view (cfg_snapshot hc_first_state) = (60, [None, None, None, None, None, None])"
proof -
  have "replicate 6 zero_resource = [zero_resource, zero_resource, zero_resource, zero_resource, zero_resource, zero_resource]"
    by (simp add: numeral_eq_Suc)
  then show ?thesis
    by (simp add: hc_first(4) config_view_def slot_view_def healthCheckConfig_SetDefault_def zero_hc_snapshot_def
        zero_resource_def)
qed

text \<open>C14: the configuration refines its abstract specification: on hardware that answers,
  every request either is refused with exactly the status the specification gives, with
  RAM and flash unchanged, or succeeds and the six slots and the period become what the
  specification says (first free slot for a new resource, the named slot for an update
  or a deletion, nothing else changed).\<close>

theorem config_refines_spec:
  assumes "hc_live st (cells env)" "hc_generation (cfg_snapshot st) \<noteq> - 1" "healthy env"
    and "config_serve req st env = (status, st', env')"
  shows "case config_spec req (config_view (cfg_snapshot st)) of
      Inl e \<Rightarrow> status = e \<and> st' = st \<and> cells env' = cells env
    | Inr v \<Rightarrow> status = HEALTH_CHECK_CONFIG_STATUS_OK \<and> config_view (cfg_snapshot st') = v"
proof (cases "config_spec req (config_view (cfg_snapshot st))")
  case (Inl e)
  then show ?thesis
    using config_serve_cases[OF assms(4) live_snapshot(4)[OF assms(1)]] assms(3) by (simp add: hc_quiet_step_def)
next
  case (Inr v)
  then show ?thesis
    using config_serve_healthy[OF assms(4,1,2,3)] by simp
qed

theorem config_refines_spec_witness:
  "config_view (cfg_snapshot (fst (snd (config_serve (Add_Resource (Some ''a.example'') 443 (Some ''/'') True 2)
      hc_first_state hc_first_env)))) =
    (60, [Some (True, 2, 443, ''a.example'', ''/''), None, None, None, None, None])"
proof -
  let ?req = "Add_Resource (Some ''a.example'') 443 (Some ''/'') True 2"
  obtain status st' env' where run: "config_serve ?req hc_first_state hc_first_env = (status, st', env')"
    using prod_cases3 by blast
  have spec: "config_spec ?req (config_view (cfg_snapshot hc_first_state)) =
      Inr (60, [Some (True, 2, 443, ''a.example'', ''/''), None, None, None, None, None])"
    by (simp add: config_view_first resource_arguments_ok_def c_str_def)
  have "hc_generation (cfg_snapshot hc_first_state) \<noteq> - 1"
    by (simp add: hc_first(3))
  from config_refines_spec[OF hc_first(1) this hc_first(2) run] show ?thesis
    by (simp only: spec run sum.case fst_conv snd_conv)
qed



text \<open>C24: a board with erased configuration sectors comes up with the default
  configuration: start-up succeeds, the period is 60 seconds, all six slots are free, and
  that snapshot is already committed to flash.\<close>

theorem config_fresh_boot:
  assumes "healthy env" "sector_blank (cells env) HEALTH_CHECK_CONFIG_SECTOR_A"
    "sector_blank (cells env) HEALTH_CHECK_CONFIG_SECTOR_B"
    and "HealthCheckConfig_Init st0 env = (status, st, env')"
  shows "status = HEALTH_CHECK_STATUS_OK \<and> config_view (cfg_snapshot st) = (60, [None, None, None, None, None, None]) \<and>
    hc_committed st (cells env')"
proof -
  have "hc_blank env"
    using assms(1-3) by (simp add: hc_blank_def)
  from Init_default[OF this assms(4)] show ?thesis
    using config_view_first by (simp add: hc_first(4))
qed

theorem config_fresh_boot_witness:
  "fst (HealthCheckConfig_Init hc_static blank_env) = HEALTH_CHECK_STATUS_OK"
  using config_fresh_boot[of blank_env hc_static "fst (HealthCheckConfig_Init hc_static blank_env)"
      "fst (snd (HealthCheckConfig_Init hc_static blank_env))" "snd (snd (HealthCheckConfig_Init hc_static blank_env))"]
  by simp

subsection \<open>Migration of the previous format\<close>

lemma length_put_hc_previous: "wf_hc_previous s \<Longrightarrow> length (put_hc_previous s) = 472"
  by (simp add: put_hc_previous_def wf_hc_previous_def length_put_array[where n = 150] list_all_iff)

lemma get_put_hc_previous: "wf_hc_previous s \<Longrightarrow> get_hc_previous (put_hc_previous s) = s"
proof -
  assume wf: "wf_hc_previous s"
  have "get_array 3 get_hc_resource (put_array put_hc_resource (hp_resources s) @ bs) = (hp_resources s, bs)" for bs
    using wf by (intro get_put_array) (auto simp: wf_hc_previous_def list_all_iff get_put_hc_resource)
  moreover have "get_u32 (put_u32 (hp_crc s)) = (hp_crc s, [])"
    using get_put_u32[of "hp_crc s" "[]"] by simp
  ultimately show ?thesis
    using wf by (simp add: get_hc_previous_def put_hc_previous_def wf_hc_previous_def)
qed

lemma wf_get_hc_previous: "length bs = 472 \<Longrightarrow> wf_hc_previous (get_hc_previous bs)"
  by (simp add: get_hc_previous_def wf_hc_previous_def case_prod_unfold Let_def snd_get_array[where k = 150]
      wf_get_array[where k = 150] wf_get_hc_resource fst_get_bytes)

lemma MigratePrevious_fields:
  "hc_generation (healthCheckConfig_MigratePrevious p) = hp_generation p"
  "hc_periodSeconds (healthCheckConfig_MigratePrevious p) = hp_periodSeconds p"
  "wf_hc_previous p \<Longrightarrow> wf_hc_snapshot (healthCheckConfig_MigratePrevious p)"
  by (auto simp: healthCheckConfig_MigratePrevious_def healthCheckConfig_RemoveFactoryReferences_def
      wf_hc_snapshot_def wf_hc_previous_def zero_hc_snapshot_def list_all_iff)

lemma MigratePrevious_view:
  "config_view (healthCheckConfig_MigratePrevious p) = (hp_periodSeconds p,
     map (\<lambda>r. if r_trustAnchorId r = 0 then None else slot_view r) (hp_resources p) @ [None, None, None])"
proof -
  have "replicate 3 zero_resource = [zero_resource, zero_resource, zero_resource]"
    by (simp add: numeral_eq_Suc)
  moreover have "slot_view zero_resource = None" "r_occupied zero_resource = 0"
    by (simp_all add: slot_view_def zero_resource_def)
  ultimately show ?thesis
    by (simp add: config_view_def MigratePrevious_fields(2))
      (simp add: healthCheckConfig_MigratePrevious_def healthCheckConfig_RemoveFactoryReferences_def
        zero_hc_snapshot_def slot_view_def)
qed

lemma InitPrevious_newest:
  assumes "healthy env"
    and "newest hp_generation HEALTH_CHECK_CONFIG_SECTOR_A HEALTH_CHECK_CONFIG_SECTOR_B
      (snapshot_at get_hc_previous 472 healthCheckConfig_IsPreviousValid (cells env) HEALTH_CHECK_CONFIG_SECTOR_A)
      (snapshot_at get_hc_previous 472 healthCheckConfig_IsPreviousValid (cells env) HEALTH_CHECK_CONFIG_SECTOR_B)
      = Some (p, a)"
  shows "\<exists>env1. healthy env1 \<and> cells env1 = cells env \<and>
    healthCheckConfig_InitPrevious st env = healthCheckConfig_SaveLive
      \<lparr>cfg_snapshot = healthCheckConfig_MigratePrevious p, cfg_activeAddress = a\<rparr> env1"
proof -
  obtain b1 x1 env1 where l1: "load_snapshot get_hc_previous 472 healthCheckConfig_IsPreviousValid
      HEALTH_CHECK_CONFIG_SECTOR_A env = (b1, x1, env1)"
    using prod_cases3 by blast
  obtain b2 x2 env2 where l2: "load_snapshot get_hc_previous 472 healthCheckConfig_IsPreviousValid
      HEALTH_CHECK_CONFIG_SECTOR_B env1 = (b2, x2, env2)"
    using prod_cases3 by blast
  have "cells env2 = cells env" "healthy env2"
    "snapshot_at get_hc_previous 472 healthCheckConfig_IsPreviousValid (cells env) HEALTH_CHECK_CONFIG_SECTOR_A
      = (if b1 then Some x1 else None)"
    "snapshot_at get_hc_previous 472 healthCheckConfig_IsPreviousValid (cells env) HEALTH_CHECK_CONFIG_SECTOR_B
      = (if b2 then Some x2 else None)"
    using load_both_healthy[OF l1 l2 assms(1)] by (simp_all add: layout)
  then show ?thesis
    using assms(2)
    by (cases st) (auto simp: healthCheckConfig_InitPrevious_def l1 l2 newest_def split: if_splits intro!: exI[of _ env2])
qed

text \<open>C25: a board that comes from the three-slot format keeps its configuration: when the
  sectors hold no snapshot of a newer format, start-up takes the newest valid previous
  snapshot, keeps its period and every resource that names a trust anchor, frees the
  slots that relied on the removed factory anchor, adds three free slots, and commits the
  result.\<close>

theorem config_migrates_previous:
  assumes "healthy env" "hc_absent get_hc_snapshot 920 healthCheckConfig_IsValid (cells env)"
    "hc_absent get_hc_snapshot 920 healthCheckConfig_IsFactoryVersionValid (cells env)"
    and newest: "newest hp_generation HEALTH_CHECK_CONFIG_SECTOR_A HEALTH_CHECK_CONFIG_SECTOR_B
      (snapshot_at get_hc_previous 472 healthCheckConfig_IsPreviousValid (cells env) HEALTH_CHECK_CONFIG_SECTOR_A)
      (snapshot_at get_hc_previous 472 healthCheckConfig_IsPreviousValid (cells env) HEALTH_CHECK_CONFIG_SECTOR_B)
      = Some (p, a)"
    and "HealthCheckConfig_Init st0 env = (status, st, env')"
  shows "status = HEALTH_CHECK_STATUS_OK \<and> hc_committed st (cells env') \<and>
    config_view (cfg_snapshot st) = (hp_periodSeconds p,
      map (\<lambda>r. if r_trustAnchorId r = 0 then None else slot_view r) (hp_resources p) @ [None, None, None])"
proof -
  let ?st = "\<lparr>cfg_snapshot = healthCheckConfig_MigratePrevious p, cfg_activeAddress = a\<rparr>"
  obtain env1 where e1: "healthy env1" "cells env1 = cells env"
    "HealthCheckConfig_Init st0 env = healthCheckConfig_InitFactory st0 env1"
    using Init_absent assms(1,2) by blast
  obtain env2 where e2: "healthy env2" "cells env2 = cells env"
    "healthCheckConfig_InitFactory st0 env1 = healthCheckConfig_InitPrevious st0 env2"
    using InitFactory_absent[OF e1(1)] assms(3) e1(2) by auto
  obtain env3 where e3: "healthy env3" "cells env3 = cells env"
    "healthCheckConfig_InitPrevious st0 env2 = healthCheckConfig_SaveLive ?st env3"
    using InitPrevious_newest[OF e2(1)] newest e2(2) by auto
  have run: "healthCheckConfig_SaveLive ?st env3 = (status, st, env')"
    using e1(3) e2(3) e3(3) assms(5) by simp
  have a: "a \<in> {HEALTH_CHECK_CONFIG_SECTOR_A, HEALTH_CHECK_CONFIG_SECTOR_B}"
    and p: "snapshot_at get_hc_previous 472 healthCheckConfig_IsPreviousValid (cells env) a = Some p"
    using newest by (auto simp: newest_def split: option.splits if_splits)
  have "wf_hc_previous p" "healthCheckConfig_IsPreviousValid p"
    using p wf_get_hc_previous by (auto simp: snapshot_at_def Let_def split: if_splits)
  then have pre: "wf_hc_snapshot (cfg_snapshot ?st)" "60 \<le> hc_periodSeconds (cfg_snapshot ?st)"
    "hc_periodSeconds (cfg_snapshot ?st) \<le> 1800"
    by (simp_all add: MigratePrevious_fields healthCheckConfig_IsPreviousValid_def)
  note sv = SaveLive_spec[OF run e3(1) pre]
  have "hc_held (cells env) s = None" if "s \<in> {HEALTH_CHECK_CONFIG_SECTOR_A, HEALTH_CHECK_CONFIG_SECTOR_B}" for s
    using assms(2) that by (auto simp: hc_absent_def)
  then have "hc_committed st (cells env')"
    using sv(5) a e3(2) by (simp add: hcs.opposite_opposite)
  moreover have "config_view (cfg_snapshot st) = config_view (healthCheckConfig_MigratePrevious p)"
    using sv(4) by (simp add: config_view_def)
  ultimately show ?thesis
    using sv(1) MigratePrevious_view by simp
qed

lemma sample_previous_facts:
  "wf_hc_previous sample_previous" "healthCheckConfig_IsPreviousValid sample_previous"
  "hp_version sample_previous = 2" "hp_generation sample_previous = 7" "hp_periodSeconds sample_previous = 120"
proof -
  have r: "wf_resource (sample_resource n)" for n
    by (simp add: wf_resource_def sample_resource_def memset_chars_def)
  have w: "wf_hc_previous (sample_previous_body\<lparr>hp_crc := c\<rparr>)" for c
    by (simp add: wf_hc_previous_def sample_previous_body_def r)
  have "length (put_array put_hc_resource [sample_resource 2, sample_resource 0, sample_resource 0]) = 450"
    using r by (simp add: put_array_def)
  then have "take 468 (put_hc_previous (sample_previous_body\<lparr>hp_crc := c\<rparr>)) = take 468 (put_hc_previous sample_previous_body)" for c
    by (simp add: put_hc_previous_def sample_previous_body_def)
  then show "healthCheckConfig_IsPreviousValid sample_previous"
    by (simp add: healthCheckConfig_IsPreviousValid_def sample_previous_def)
      (simp add: sample_previous_body_def)
  show "wf_hc_previous sample_previous" "hp_version sample_previous = 2" "hp_generation sample_previous = 7"
    "hp_periodSeconds sample_previous = 120"
    using w by (simp_all add: sample_previous_def) (simp_all add: sample_previous_body_def)
qed

lemma sample_cells:
  "472 \<le> n \<Longrightarrow> n \<le> 4096 \<Longrightarrow> cells_at (cells sample_env) (unat HEALTH_CHECK_CONFIG_SECTOR_A) n =
     put_hc_previous sample_previous @ replicate (n - 472) 0xFF"
  using length_put_hc_previous[OF sample_previous_facts(1)]
  by (intro nth_equalityI) (auto simp: sample_env_def cells_at_def nth_append)

lemma sample_blank: "sector_blank (cells sample_env) HEALTH_CHECK_CONFIG_SECTOR_B"
  by (simp add: sector_blank_def sample_env_def layout)

lemma version_of_previous: "hc_version (get_hc_snapshot (put_hc_previous p @ bs)) = hp_version p"
  by (simp add: get_hc_snapshot_def put_hc_previous_def case_prod_unfold Let_def)

theorem config_migrates_previous_witness:
  "config_view (cfg_snapshot (fst (snd (HealthCheckConfig_Init hc_static sample_env)))) =
     (120, [Some (True, 2, 443, ''a.example'', ''/''), None, None, None, None, None])"
proof -
  obtain status st env' where run: "HealthCheckConfig_Init hc_static sample_env = (status, st, env')"
    using prod_cases3 by blast
  let ?A = "HEALTH_CHECK_CONFIG_SECTOR_A"
  have ver: "hc_version (get_hc_snapshot (cells_at (cells sample_env) (unat ?A) 920)) = 2"
    using sample_cells[of 920] by (simp add: version_of_previous sample_previous_facts)
  have "hc_held (cells sample_env) HEALTH_CHECK_CONFIG_SECTOR_B = None"
    "snapshot_at get_hc_snapshot 920 healthCheckConfig_IsFactoryVersionValid (cells sample_env)
      HEALTH_CHECK_CONFIG_SECTOR_B = None"
    by (rule snapshot_at_blank[OF sample_blank]; simp add: blank_invalid)+
  then have absent: "hc_absent get_hc_snapshot 920 healthCheckConfig_IsValid (cells sample_env)"
    "hc_absent get_hc_snapshot 920 healthCheckConfig_IsFactoryVersionValid (cells sample_env)"
    using ver by (simp_all add: hc_absent_def snapshot_at_def[of _ _ _ _ ?A] Let_def healthCheckConfig_IsValid_def
        healthCheckConfig_IsFactoryVersionValid_def)
  have "cells_at (cells sample_env) (unat ?A) 472 = put_hc_previous sample_previous"
    using sample_cells[of 472] by simp
  then have "snapshot_at get_hc_previous 472 healthCheckConfig_IsPreviousValid (cells sample_env) ?A = Some sample_previous"
    by (simp add: snapshot_at_def get_put_hc_previous sample_previous_facts)
  moreover have "snapshot_at get_hc_previous 472 healthCheckConfig_IsPreviousValid (cells sample_env)
      HEALTH_CHECK_CONFIG_SECTOR_B = None"
    by (rule snapshot_at_blank[OF sample_blank]) (simp_all add: blank_invalid)
  ultimately have newest: "newest hp_generation ?A HEALTH_CHECK_CONFIG_SECTOR_B
      (snapshot_at get_hc_previous 472 healthCheckConfig_IsPreviousValid (cells sample_env) ?A)
      (snapshot_at get_hc_previous 472 healthCheckConfig_IsPreviousValid (cells sample_env) HEALTH_CHECK_CONFIG_SECTOR_B)
      = Some (sample_previous, ?A)"
    by (simp add: newest_def)
  have "healthy sample_env"
    by (simp add: sample_env_def healthy_def blank_env_def)
  from config_migrates_previous[OF this absent newest run] show ?thesis
    by (simp add: run sample_previous_facts)
      (simp add: sample_previous_def sample_previous_body_def sample_resource_def slot_view_def strncpy_def memset_chars_def c_str_def)
qed

subsection \<open>Reachable configurations\<close>

lemma arguments_make_ok:
  assumes "resource_arguments_ok host port path anchor"
    and "r_enabled r = 0 \<or> r_enabled r = 1" "r_trustAnchorId r = anchor" "r_port r = port"
    and "c_str (r_host r) = c_str (the host)" "c_str (r_path r) = c_str (the path)"
  shows "resource_ok r"
  using assms by (auto simp: resource_arguments_ok_def resource_ok_def split: option.splits)

lemma ok_slot_update:
  assumes "\<forall>r\<in>set (hc_resources s). resource_ok r" "resource_ok x"
  shows "\<forall>r\<in>set (hc_resources (s\<lparr>hc_resources := (hc_resources s)[i := x]\<rparr>)). resource_ok r"
  using assms by (auto dest!: set_update_subset_insert[THEN subsetD])

lemma config_candidate_ok:
  assumes "hc_snapshot_ok s" "config_spec req (config_view s) = Inr v"
  shows "hc_snapshot_ok (config_candidate req s)"
proof -
  have ok: "wf_hc_snapshot s" "60 \<le> hc_periodSeconds s" "hc_periodSeconds s \<le> 1800"
    "\<forall>r\<in>set (hc_resources s). resource_ok r"
    using assms(1) by (auto simp: hc_snapshot_ok_def list_all_iff)
  have "\<forall>r\<in>set (hc_resources (config_candidate req s)). resource_ok r"
  proof (cases req)
    case (Set_Period p)
    then show ?thesis
      using ok(4) by simp
  next
    case (Add_Resource host port path enabled anchor)
    then have args: "resource_arguments_ok host port path anchor"
      using assms(2) by (auto simp: config_view_def split: if_splits)
    show ?thesis
      unfolding Add_Resource config_candidate.simps
      by (rule ok_slot_update[OF ok(4)], rule arguments_make_ok[OF args]) (simp_all add: strncpy_slot[OF args])
  next
    case (Update_Resource i host port path enabled anchor)
    then have args: "resource_arguments_ok host port path anchor"
      using assms(2) by (auto simp: config_view_def split: if_splits)
    show ?thesis
      unfolding Update_Resource config_candidate.simps
      by (rule ok_slot_update[OF ok(4)], rule arguments_make_ok[OF args]) (simp_all add: strncpy_slot[OF args])
  next
    case (Delete_Resource i)
    then show ?thesis
      using ok_slot_update[OF ok(4), of zero_resource i] by (simp add: resource_ok_def zero_resource_def)
  qed
  then show ?thesis
    using config_candidate_wf[OF ok(1-3) assms(2)] by (simp add: hc_snapshot_ok_def list_all_iff)
qed

lemma default_ok: "hc_snapshot_ok (healthCheckConfig_Stamp healthCheckConfig_SetDefault)"
  using wf_default
  by (simp add: hc_snapshot_ok_def) (simp add: healthCheckConfig_SetDefault_def zero_hc_snapshot_def list_all_iff
      resource_ok_def zero_resource_def)

lemma config_inv_request:
  assumes "config_inv st (cells env)" "hc_generation (cfg_snapshot st) \<noteq> - 1"
    and run: "config_serve req st env = (status, st', env')"
    and torn: "status \<noteq> HEALTH_CHECK_CONFIG_STATUS_OK \<Longrightarrow> \<forall>sector s. hc_held (cells env') sector = Some s \<longrightarrow>
       hc_held (cells env) sector = Some s \<or> s = healthCheckConfig_Stamp (config_candidate req (cfg_snapshot st))"
  shows "config_inv st' (cells env')"
proof -
  let ?new = "healthCheckConfig_Stamp (config_candidate req (cfg_snapshot st))"
  have live: "hc_live st (cells env)" and held: "\<And>sector s. sector \<in> {FLASH_LAYOUT_HEALTH_CHECK_CONFIG_SECTOR_A, FLASH_LAYOUT_HEALTH_CHECK_CONFIG_SECTOR_B}
      \<Longrightarrow> hc_held (cells env) sector = Some s \<Longrightarrow> hc_snapshot_ok s"
    using assms(1) by (auto simp: config_inv_def)
  have old_ok: "hc_snapshot_ok (cfg_snapshot st)"
    using live held by (auto simp: live_def)
  consider (quiet) "hc_quiet_step st env st' env'"
    | (saved) v where "config_spec req (config_view (cfg_snapshot st)) = Inr v"
      "touches (unat (hcs.opposite (cfg_activeAddress st))) 4096 env env'"
      "status = HEALTH_CHECK_CONFIG_STATUS_OK" "cfg_snapshot st' = ?new"
      "cfg_activeAddress st' = hcs.opposite (cfg_activeAddress st)" "hc_committed st' (cells env')"
    | (failed) v where "config_spec req (config_view (cfg_snapshot st)) = Inr v"
      "status \<noteq> HEALTH_CHECK_CONFIG_STATUS_OK" "st' = st"
      "hc_held (cells env') (cfg_activeAddress st) = Some (cfg_snapshot st)"
    using config_serve_step[OF run live assms(2)] by (auto split: if_splits)
  then show ?thesis
  proof cases
    case quiet
    then show ?thesis
      using assms(1) by (simp add: hc_quiet_step_def)
  next
    case (saved v)
    have new_ok: "hc_snapshot_ok ?new"
      using config_candidate_ok[OF old_ok saved(1)] by simp
    have act: "cfg_activeAddress st \<in> {FLASH_LAYOUT_HEALTH_CHECK_CONFIG_SECTOR_A, FLASH_LAYOUT_HEALTH_CHECK_CONFIG_SECTOR_B}"
      using live by (simp add: live_def)
    have kept: "hc_held (cells env') (cfg_activeAddress st) = Some (cfg_snapshot st)"
      using hcs.held_other[OF saved(2) hcs.opposite_in] live by (simp add: hcs.opposite_opposite[OF act] live_def)
    have written: "hc_held (cells env') (hcs.opposite (cfg_activeAddress st)) = Some ?new"
      using saved(4-6) by (simp add: committed_def live_def)
    have "sector = cfg_activeAddress st \<or> sector = hcs.opposite (cfg_activeAddress st)"
      if "sector \<in> {FLASH_LAYOUT_HEALTH_CHECK_CONFIG_SECTOR_A, FLASH_LAYOUT_HEALTH_CHECK_CONFIG_SECTOR_B}" for sector
      using that act by (auto simp: other_sector_def)
    then show ?thesis
      using saved(6) kept written old_ok new_ok unfolding config_inv_def committed_def by (metis option.inject)
  next
    case (failed v)
    have new_ok: "hc_snapshot_ok ?new"
      using config_candidate_ok[OF old_ok failed(1)] by simp
    then show ?thesis
      using failed live torn[OF failed(2)] held unfolding config_inv_def live_def by metis
  qed
qed

lemma config_reach_inv: "config_reach st c \<Longrightarrow> config_inv st c"
proof (induction rule: config_reach.induct)
  case (first_start env st0 status st env')
  note d = Init_default[OF first_start]
  have live: "hc_live st (cells env')"
    using d(4) by (simp add: committed_def)
  have "hc_snapshot_ok s" if "sector \<in> {FLASH_LAYOUT_HEALTH_CHECK_CONFIG_SECTOR_A, FLASH_LAYOUT_HEALTH_CHECK_CONFIG_SECTOR_B}"
      "hc_held (cells env') sector = Some s" for sector s
  proof -
    have "sector = cfg_activeAddress st \<or> sector = hcs.opposite (cfg_activeAddress st)"
      using that(1) live by (auto simp: other_sector_def live_def)
    then show ?thesis
      using that(2) d(3,5) live default_ok by (auto simp: live_def)
  qed
  then show ?case
    using live by (simp add: config_inv_def)
next
  case (request st env req status st' env')
  show ?case
    by (rule config_inv_request[OF request.IH request.hyps(2,3,4)])
next
  case (elsewhere st c c')
  then show ?case
    by (auto simp: config_inv_def live_def)
next
  case (restart st env st0 status st' env')
  then have live: "hc_live st (cells env)"
    by (simp add: config_inv_def)
  from hcs.newest_held[OF this] obtain s a where "newest hc_generation FLASH_LAYOUT_HEALTH_CHECK_CONFIG_SECTOR_A FLASH_LAYOUT_HEALTH_CHECK_CONFIG_SECTOR_B
      (hc_held (cells env) FLASH_LAYOUT_HEALTH_CHECK_CONFIG_SECTOR_A)
      (hc_held (cells env) FLASH_LAYOUT_HEALTH_CHECK_CONFIG_SECTOR_B) = Some (s, a)" and run: "hcs.running s a (cells env)"
    by blast
  from Init_newest[OF restart(2) this(1), of st0] have "st' = \<lparr>cfg_snapshot = s, cfg_activeAddress = a\<rparr>" "cells env' = cells env"
    using restart(3) by auto
  then show ?case
    using run restart.IH by (simp add: config_inv_def)
qed

text \<open>C26: every configuration the device can reach, through any sequence of requests,
  storage faults and restarts, is well formed: the period is between 60 and 1800 seconds
  and every occupied slot has a flag of 0 or 1, a trust anchor from 1 to 6, a nonzero
  port, a nonempty host below 64 characters and a path that starts with a slash and has
  below 80.\<close>

theorem config_always_ok:
  assumes "config_reach st c"
  shows "hc_snapshot_ok (cfg_snapshot st)"
  using config_reach_inv[OF assms] by (auto simp: config_inv_def live_def)

theorem config_always_ok_witness: "hc_snapshot_ok (cfg_snapshot hc_first_state)"
proof (rule config_always_ok)
  have boot: "HealthCheckConfig_Init hc_static blank_env =
      (fst (HealthCheckConfig_Init hc_static blank_env), hc_first_state, hc_first_env)"
    by (simp add: hc_first_state_def hc_first_env_def)
  show "config_reach hc_first_state (cells hc_first_env)"
    by (rule config_reach.first_start[OF _ boot]) (simp add: hc_blank_def)
qed

end
