(* ===== verification/Ab_Service.thy ===== *)
theory Ab_Service
  imports Ab_Store
begin

text \<open>
  The part of the two-copy protocol above a single write: stamping a candidate with
  the next generation and its checksum, saving it and moving the active sector, and
  reading both sectors at start-up.  \<open>ab_save\<close> and \<open>ab_load\<close> are the reference forms;
  the locale \<open>ab_service\<close> extends \<open>ab_store\<close> with the stamp and proves, once for all
  stores, that a save is transactional under every behaviour of the hardware.
\<close>

subsection \<open>Reference forms\<close>

definition ab_load ::
  "(u8 list \<Rightarrow> 's) \<Rightarrow> u32 \<Rightarrow> ('s \<Rightarrow> bool) \<Rightarrow> ('s \<Rightarrow> u32) \<Rightarrow> u32 \<Rightarrow> u32 \<Rightarrow> env \<Rightarrow> ('s \<times> u32) option \<times> env" where
  "ab_load get n valid generation sectorA sectorB env =
     (let (firstValid, first, env1) = load_snapshot get n valid sectorA env;
          (secondValid, second, env2) = load_snapshot get n valid sectorB env1
      in (newest generation sectorA sectorB (if firstValid then Some first else None)
            (if secondValid then Some second else None), env2))"

definition ab_accepts :: "('s \<Rightarrow> bool) \<Rightarrow> ('s \<Rightarrow> u32) \<Rightarrow> 's \<Rightarrow> 's \<Rightarrow> bool" where
  "ab_accepts valid generation candidate v \<longleftrightarrow> valid v \<and> generation v = generation candidate"

text \<open>The result is \<open>None\<close> when the save fails, else the new live snapshot and its sector.\<close>

definition ab_save ::
  "(u32 \<Rightarrow> env \<Rightarrow> W25Q64_StatusTypeDef \<times> env) \<Rightarrow> ('s \<Rightarrow> u8 list) \<Rightarrow> (u8 list \<Rightarrow> 's) \<Rightarrow> nat \<Rightarrow>
   ('s \<Rightarrow> bool) \<Rightarrow> ('s \<Rightarrow> u32) \<Rightarrow> u32 \<Rightarrow> u32 \<Rightarrow> u32 \<Rightarrow> 's \<Rightarrow> env \<Rightarrow> ('s \<times> u32) option \<times> env" where
  "ab_save erase enc dec nbytes valid generation sectorA sectorB active candidate env =
     (let target = other_sector sectorA sectorB active;
          (r, env') = ab_write erase enc dec nbytes (ab_accepts valid generation candidate) target candidate env
      in (map_option (\<lambda>v. (v, target)) r, env'))"

text \<open>A store at rest: the live snapshot is in the active sector, or, in a store that
  writes nothing at start-up, that sector holds no snapshot and the RAM copy is the
  cleared one of generation 0.\<close>

definition at_rest ::
  "(u8 list \<Rightarrow> 's) \<Rightarrow> nat \<Rightarrow> ('s \<Rightarrow> bool) \<Rightarrow> ('s \<Rightarrow> u32) \<Rightarrow> u32 \<Rightarrow> u32 \<Rightarrow> 's \<Rightarrow> u32 \<Rightarrow> (nat \<Rightarrow> u8) \<Rightarrow> bool" where
  "at_rest dec nbytes valid generation sectorA sectorB snapshot active c \<longleftrightarrow>
     live dec nbytes valid sectorA sectorB snapshot active c \<or>
     (active \<in> {sectorA, sectorB} \<and> generation snapshot = 0 \<and> snapshot_at dec nbytes valid c active = None)"

text \<open>What a restart finds while no save has happened since.\<close>

definition rest_found ::
  "(u8 list \<Rightarrow> 's) \<Rightarrow> nat \<Rightarrow> ('s \<Rightarrow> bool) \<Rightarrow> 's \<Rightarrow> u32 \<Rightarrow> (nat \<Rightarrow> u8) \<Rightarrow> ('s \<times> u32) option" where
  "rest_found dec nbytes valid snapshot active c =
     (if snapshot_at dec nbytes valid c active = None then None else Some (snapshot, active))"

subsection \<open>Saving and restarting\<close>

locale ab_service = ab_store +
  fixes stamp :: "'a \<Rightarrow> 'a" and fit :: "'a \<Rightarrow> bool"
  assumes stamp_wf: "fit s \<Longrightarrow> wf (stamp s)"
    and stamp_valid: "fit s \<Longrightarrow> valid (stamp s)"
    and stamp_generation: "generation (stamp s) = generation s + 1"
    and dec_wf: "length bs = nbytes \<Longrightarrow> wf (dec bs)"
begin

abbreviation save :: "u32 \<Rightarrow> 'a \<Rightarrow> env \<Rightarrow> ('a \<times> u32) option \<times> env" where
  "save active candidate env \<equiv>
     ab_save erase enc dec nbytes valid generation sectorA sectorB active (stamp candidate) env"

abbreviation load :: "env \<Rightarrow> ('a \<times> u32) option \<times> env" where
  "load env \<equiv> ab_load dec (of_nat nbytes) valid generation sectorA sectorB env"

lemma save_write:
  "save active candidate env = (r, env') \<Longrightarrow>
     \<exists>w. ab_write erase enc dec nbytes (ab_accepts valid generation (stamp candidate)) (opposite active)
           (stamp candidate) env = (w, env') \<and> r = map_option (\<lambda>v. (v, opposite active)) w"
  by (auto simp: ab_save_def Let_def split: prod.splits)

lemma save_frame:
  assumes "fit candidate" "save active candidate env = (r, env')"
  shows "touches (unat (opposite active)) span env env'"
  using save_write[OF assms(2)] write_frame[OF opposite_in stamp_wf[OF assms(1)]] by blast

lemma save_result:
  assumes "fit candidate" "save active candidate env = (Some (s, a), env')"
  shows "s = stamp candidate" "a = opposite active"
proof -
  obtain v where w: "ab_write erase enc dec nbytes (ab_accepts valid generation (stamp candidate)) (opposite active)
      (stamp candidate) env = (Some v, env')" "(s, a) = (v, opposite active)"
    using save_write[OF assms(2)] by (auto simp: map_option_case split: option.splits)
  show "s = stamp candidate" "a = opposite active"
    using write_Some(1)[OF opposite_in stamp_wf[OF assms(1)] w(1)] w(2) by simp_all
qed

text \<open>On answering hardware a save succeeds.\<close>

lemma save_healthy:
  assumes "fit candidate" "healthy env"
  shows "\<exists>env'. save active candidate env = (Some (stamp candidate, opposite active), env') \<and> healthy env'"
  using write_healthy[OF opposite_in stamp_wf[OF assms(1)] assms(2),
      of "ab_accepts valid generation (stamp candidate)" active] stamp_valid[OF assms(1)]
  by (auto simp: ab_save_def ab_accepts_def)

text \<open>A save over older or absent snapshots commits its candidate.\<close>

lemma save_commits:
  assumes "fit candidate" "save active candidate env = (Some (s, a), env')"
    and "\<And>s. held (cells env) (opposite (opposite active)) = Some s \<Longrightarrow> generation s < generation candidate + 1"
  shows "published s a (cells env')"
proof -
  obtain v where w: "ab_write erase enc dec nbytes (ab_accepts valid generation (stamp candidate)) (opposite active)
      (stamp candidate) env = (Some v, env')"
    using save_write[OF assms(2)] by (auto simp: map_option_case split: option.splits)
  from write_published[OF opposite_in stamp_wf[OF assms(1)] stamp_valid[OF assms(1)] w] assms(3)
  have "published (stamp candidate) (opposite active) (cells env')"
    by (simp add: stamp_generation)
  then show ?thesis
    using save_result[OF assms(1,2)] by simp
qed

lemma save_next:
  assumes "running snapshot active (cells env)" "fit candidate"
    and "generation candidate = generation snapshot" "generation snapshot \<noteq> - 1"
    and "save active candidate env = (Some (s, a), env')"
  shows "published s a (cells env')"
proof (rule save_commits[OF assms(2,5)])
  fix s
  assume "held (cells env) (opposite (opposite active)) = Some s"
  then show "generation s < generation candidate + 1"
    using assms(1,3,4) by (simp add: live_def opposite_opposite u32_less_succ)
qed

lemma save_fails_safely:
  assumes "running snapshot active (cells env)" "fit candidate" "save active candidate env = (None, env')"
  shows "running snapshot active (cells env')"
proof -
  have "ab_write erase enc dec nbytes (ab_accepts valid generation (stamp candidate)) (opposite active)
      (stamp candidate) env = (None, env')"
    using save_write[OF assms(3)] by auto
  from write_fails_safely[OF assms(1) stamp_wf[OF assms(2)] this] show ?thesis
    using assms(1) by (simp add: live_def)
qed

text \<open>Start-up reads the newest snapshot and changes nothing.\<close>

lemma load_healthy:
  assumes "healthy env" "load env = (r, env')"
  shows "r = newest generation sectorA sectorB (held (cells env) sectorA) (held (cells env) sectorB)"
    and "cells env' = cells env" "healthy env'"
proof -
  obtain b1 x1 env1 where l1: "load_snapshot dec (of_nat nbytes) valid sectorA env = (b1, x1, env1)"
    using prod_cases3 by blast
  obtain b2 x2 env2 where l2: "load_snapshot dec (of_nat nbytes) valid sectorB env1 = (b2, x2, env2)"
    using prod_cases3 by blast
  have size: "0 < unat (of_nat nbytes :: u32)" "unat sectorA + unat (of_nat nbytes :: u32) \<le> W25Q64_CAPACITY_BYTES"
    "unat sectorB + unat (of_nat nbytes :: u32) \<le> W25Q64_CAPACITY_BYTES"
    using sizes apart inside by (simp_all add: unat_size)
  note ld = load_both_healthy[OF l1 l2 assms(1) size]
  show "r = newest generation sectorA sectorB (held (cells env) sectorA) (held (cells env) sectorB)"
    "cells env' = cells env" "healthy env'"
    using ld assms(2) by (auto simp: ab_load_def l1 l2 unat_size)
qed

text \<open>On any hardware, start-up takes only what a sector really holds.\<close>

lemma load_sound:
  assumes "load env = (r, env')"
  shows "cells env' = cells env" "r = Some (s, a) \<Longrightarrow> running s a (cells env)"
proof -
  obtain b1 x1 env1 where l1: "load_snapshot dec (of_nat nbytes) valid sectorA env = (b1, x1, env1)"
    using prod_cases3 by blast
  obtain b2 x2 env2 where l2: "load_snapshot dec (of_nat nbytes) valid sectorB env1 = (b2, x2, env2)"
    using prod_cases3 by blast
  note c = load_snapshot_cells[OF l1] load_snapshot_cells[OF l2]
  show "cells env' = cells env"
    using assms l1 l2 c by (auto simp: ab_load_def)
  have "b1 \<Longrightarrow> held (cells env) sectorA = Some x1" "b2 \<Longrightarrow> held (cells env) sectorB = Some x2"
    using load_snapshot_valid[of dec "of_nat nbytes" valid sectorA env x1 env1] l1
      load_snapshot_valid[of dec "of_nat nbytes" valid sectorB env1 x2 env2] l2 c unat_size by simp_all
  then show "r = Some (s, a) \<Longrightarrow> running s a (cells env)"
    using assms l1 l2 by (auto simp: ab_load_def newest_def live_def split: if_splits option.splits)
qed

lemma load_published:
  assumes "published snapshot active (cells env)" "healthy env"
  shows "\<exists>env'. load env = (Some (snapshot, active), env') \<and> cells env' = cells env \<and> healthy env'"
proof -
  obtain r env' where l: "load env = (r, env')" by fastforce
  show ?thesis
    using load_healthy[OF assms(2) l] newest_published[OF assms(1)] l by simp
qed

lemma load_running:
  assumes "running snapshot active (cells env)" "healthy env"
    and "\<And>s. held (cells env) (opposite active) = Some s \<Longrightarrow> generation s < generation snapshot \<or> s = candidate"
  shows "\<exists>r env'. load env = (Some r, env') \<and> cells env' = cells env \<and> healthy env' \<and>
    r \<in> {(snapshot, active), (candidate, opposite active)}"
proof -
  obtain r env' where l: "load env = (r, env')" by fastforce
  show ?thesis
    using load_healthy[OF assms(2) l] newest_running[OF assms(1), of candidate] assms(3) l by auto
qed

lemma load_empty:
  assumes "healthy env" "held (cells env) sectorA = None" "held (cells env) sectorB = None"
  shows "\<exists>env'. load env = (None, env') \<and> cells env' = cells env \<and> healthy env'"
proof -
  obtain r env' where l: "load env = (r, env')" by fastforce
  show ?thesis
    using load_healthy[OF assms(1) l] assms(2,3) l by (simp add: newest_def)
qed

lemma running_fits: "running snapshot active c \<Longrightarrow> wf snapshot \<and> valid snapshot"
  by (auto simp: live_def snapshot_at_def Let_def dec_wf split: if_splits)

text \<open>The whole story of one save: whatever the hardware does and wherever power is
  lost, only the inactive sector is touched; after a success a restart finds the new
  snapshot; after a failure it finds the old one or the snapshot \<open>new\<close>, where \<open>new\<close> is what the
  other sector holds by then, if that is not older than the live one.\<close>

lemma transactional:
  assumes live: "running snapshot active (cells env)" and "fit candidate"
    and gen: "generation candidate = generation snapshot" "generation snapshot \<noteq> - 1"
    and run: "save active candidate env = (r, env')"
    and "healthy restart" "cells restart = cells env'"
    and torn: "\<And>s. r = None \<Longrightarrow> held (cells env') (opposite active) = Some s \<Longrightarrow>
      generation s < generation snapshot \<or> s = new"
  shows "touches (unat (opposite active)) span env env'"
    and "\<exists>found env''. load restart = (Some found, env'') \<and>
      (case r of Some new \<Rightarrow> found = new \<and> new = (stamp candidate, opposite active)
       | None \<Rightarrow> found \<in> {(snapshot, active), (new, opposite active)})"
proof -
  show "touches (unat (opposite active)) span env env'"
    using save_frame[OF assms(2) run] .
  show "\<exists>found env''. load restart = (Some found, env'') \<and>
      (case r of Some new \<Rightarrow> found = new \<and> new = (stamp candidate, opposite active)
       | None \<Rightarrow> found \<in> {(snapshot, active), (new, opposite active)})"
  proof (cases r)
    case None
    then have "running snapshot active (cells restart)"
      using save_fails_safely[OF live assms(2)] run assms(7) by simp
    from load_running[OF this assms(6), of new] show ?thesis
      using None torn assms(7) by auto
  next
    case (Some p)
    obtain s a where p: "p = (s, a)" by fastforce
    have "published s a (cells restart)"
      using save_next[OF live assms(2) gen] run Some p assms(7) by simp
    from load_published[OF this assms(6)] show ?thesis
      using Some p save_result[OF assms(2)] run by auto
  qed
qed

text \<open>The same for a store at rest.\<close>

abbreviation resting :: "'a \<Rightarrow> u32 \<Rightarrow> (nat \<Rightarrow> u8) \<Rightarrow> bool" where
  "resting snapshot active c \<equiv> at_rest dec nbytes valid generation sectorA sectorB snapshot active c"

lemma running_rests: "running snapshot active c \<Longrightarrow> resting snapshot active c"
  by (simp add: at_rest_def)

lemma published_rests: "published snapshot active c \<Longrightarrow> resting snapshot active c"
  by (simp add: at_rest_def committed_def)

lemma save_rest:
  assumes "resting snapshot active (cells env)" "fit candidate"
    and "generation candidate = generation snapshot" "generation snapshot \<noteq> - 1"
    and "save active candidate env = (Some (s, a), env')"
  shows "published s a (cells env')"
proof (cases "running snapshot active (cells env)")
  case True
  then show ?thesis
    using save_next[OF _ assms(2-5)] by blast
next
  case False
  then have "active \<in> {sectorA, sectorB}" "held (cells env) active = None"
    using assms(1) by (auto simp: at_rest_def)
  then show ?thesis
    using save_commits[OF assms(2,5)] by (simp add: opposite_opposite)
qed

lemma save_fails_rest:
  assumes "resting snapshot active (cells env)" "fit candidate" "save active candidate env = (None, env')"
    and torn: "\<And>s. held (cells env') (opposite active) = Some s \<Longrightarrow>
      generation s < generation snapshot \<or> s = new"
    and "healthy restart" "cells restart = cells env'"
  shows "\<exists>r env''. load restart = (r, env'') \<and>
    r \<in> {rest_found dec nbytes valid snapshot active (cells env), Some (new, opposite active)}"
proof (cases "running snapshot active (cells env)")
  case True
  have "running snapshot active (cells restart)"
    using save_fails_safely[OF True assms(2,3)] assms(6) by simp
  from load_running[OF this assms(5), of new] show ?thesis
    using True torn assms(6) by (auto simp: rest_found_def live_def)
next
  case False
  then have e: "active \<in> {sectorA, sectorB}" "generation snapshot = 0" "held (cells env) active = None"
    using assms(1) by (auto simp: at_rest_def)
  have kept: "held (cells restart) active = None"
    using held_other[OF save_frame[OF assms(2,3)] opposite_in] e opposite_opposite[OF e(1)] assms(6) by auto
  obtain r env'' where l: "load restart = (r, env'')" by fastforce
  have r: "r = newest generation sectorA sectorB (held (cells restart) sectorA) (held (cells restart) sectorB)"
    using load_healthy[OF assms(5) l] by simp
  have "held (cells restart) (opposite active) \<in> {None, Some new}"
    using torn e(2) assms(6) by (cases "held (cells env') (opposite active)") auto
  then have "r \<in> {None, Some (new, opposite active)}"
    using r kept e(1) apart sizes by (auto simp: newest_def other_sector_def split: if_splits)
  moreover have "rest_found dec nbytes valid snapshot active (cells env) = None"
    using e by (auto simp: rest_found_def)
  ultimately show ?thesis
    using l by auto
qed

lemma transactional_rest:
  assumes rest: "resting snapshot active (cells env)" and "fit candidate"
    and gen: "generation candidate = generation snapshot" "generation snapshot \<noteq> - 1"
    and run: "save active candidate env = (r, env')"
    and "healthy restart" "cells restart = cells env'"
    and torn: "\<And>s. r = None \<Longrightarrow> held (cells env') (opposite active) = Some s \<Longrightarrow>
      generation s < generation snapshot \<or> s = new"
  shows "\<exists>found env''. load restart = (found, env'') \<and>
    (case r of Some new \<Rightarrow> found = Some new \<and> new = (stamp candidate, opposite active)
     | None \<Rightarrow> found \<in> {rest_found dec nbytes valid snapshot active (cells env), Some (new, opposite active)})"
proof (cases r)
  case None
  then show ?thesis
    using save_fails_rest[OF rest assms(2), where env' = env' and restart = restart and new = new] run torn assms(6,7) by auto
next
  case (Some p)
  obtain s a where p: "p = (s, a)" by fastforce
  have "published s a (cells restart)"
    using save_rest[OF rest assms(2) gen] run Some p assms(7) by simp
  from load_published[OF this assms(6)] show ?thesis
    using Some p save_result[OF assms(2)] run by auto
qed

lemma load_rest:
  assumes "resting snapshot active (cells env)" "healthy env"
    and torn: "\<And>s. held (cells env) (opposite active) = Some s \<Longrightarrow> generation s < generation snapshot \<or> s = candidate"
  shows "\<exists>r env'. load env = (r, env') \<and>
    r \<in> {rest_found dec nbytes valid snapshot active (cells env), Some (candidate, opposite active)}"
proof (cases "running snapshot active (cells env)")
  case True
  from load_running[OF this assms(2), of candidate] torn True show ?thesis
    by (auto simp: rest_found_def live_def)
next
  case False
  then have e: "active \<in> {sectorA, sectorB}" "generation snapshot = 0" "held (cells env) active = None"
    using assms(1) by (auto simp: at_rest_def)
  obtain r env' where l: "load env = (r, env')" by fastforce
  have "held (cells env) (opposite active) \<in> {None, Some candidate}"
    using torn e(2) by (cases "held (cells env) (opposite active)") auto
  then have "r \<in> {None, Some (candidate, opposite active)}"
    using load_healthy(1)[OF assms(2) l] e(1,3) apart sizes by (auto simp: newest_def other_sector_def split: if_splits)
  moreover have "rest_found dec nbytes valid snapshot active (cells env) = None"
    using e by (simp add: rest_found_def)
  ultimately show ?thesis
    using l by auto
qed

text \<open>What the two sectors hold after a save: the active one what it held, the other the
  candidate on success.\<close>

lemma save_held:
  assumes "fit candidate" "save active candidate env = (r, env')" "active \<in> {sectorA, sectorB}"
  shows "held (cells env') active = held (cells env) active"
    and "r \<noteq> None \<Longrightarrow> held (cells env') (opposite active) = Some (stamp candidate)"
proof -
  show "held (cells env') active = held (cells env) active"
    using held_other[OF save_frame[OF assms(1,2)] opposite_in] opposite_opposite[OF assms(3)] by simp
  assume "r \<noteq> None"
  then obtain v where w: "ab_write erase enc dec nbytes (ab_accepts valid generation (stamp candidate)) (opposite active)
      (stamp candidate) env = (Some v, env')"
    using save_write[OF assms(2)] by (auto simp: map_option_case split: option.splits)
  show "held (cells env') (opposite active) = Some (stamp candidate)"
    using write_Some(3)[OF opposite_in stamp_wf[OF assms(1)] w] dec_enc[OF stamp_wf[OF assms(1)]] stamp_valid[OF assms(1)]
    by (simp add: snapshot_at_def)
qed

text \<open>Start-up leaves a store at rest.\<close>

lemma load_rests:
  assumes "healthy env" "load env = (r, env')"
  shows "case r of Some (s, a) \<Rightarrow> running s a (cells env')
    | None \<Rightarrow> held (cells env') sectorA = None \<and> held (cells env') sectorB = None"
  using load_healthy[OF assms] by (auto simp: newest_def live_def split: option.splits)

end

end
