(* ===== verification/Callback_Config.thy ===== *)
theory Callback_Config
  imports Crc32 Object_Rep Ab_Service
begin

text \<open>
  \<open>Srv/Src/callback_config.c\<close>: the persistent destination of outbound callbacks, its
  field validation (host alphabet, request target, length of the longest encoded GET
  target), the transactional save, start-up with defaults and the public operations.
  The store is an instance of \<open>ab_service\<close>.
\<close>

subsection \<open>Structs\<close>

record CallbackConfig_TypeDef =
  cb_enabled :: u8
  cb_method :: u8
  cb_trustAnchorId :: u8
  cb_reserved :: u8
  cb_port :: u16
  cb_host :: string
  cb_path :: string

definition CALLBACK_METHOD_GET :: u8 where
  "CALLBACK_METHOD_GET = 0"

definition CALLBACK_METHOD_POST :: u8 where
  "CALLBACK_METHOD_POST = 1"

record CallbackConfig_SnapshotTypeDef =
  cs_magic :: u32
  cs_version :: u16
  cs_reserved :: u16
  cs_generation :: u32
  cs_config :: CallbackConfig_TypeDef
  cs_padding :: "u8 list"
  cs_crc :: u32

record CallbackConfig_State =
  cs_snapshot :: CallbackConfig_SnapshotTypeDef
  cs_activeAddress :: u32

subsection \<open>Object representations\<close>

definition put_cb_config :: "CallbackConfig_TypeDef \<Rightarrow> u8 list" where
  "put_cb_config c = put_u8 (cb_enabled c) @ put_u8 (cb_method c) @ put_u8 (cb_trustAnchorId c) @
     put_u8 (cb_reserved c) @ put_u16 (cb_port c) @ put_chars (cb_host c) @ put_chars (cb_path c)"

definition get_cb_config :: "u8 list \<Rightarrow> CallbackConfig_TypeDef \<times> u8 list" where
  "get_cb_config bs =
     (let (enabled, bs) = get_u8 bs; (method, bs) = get_u8 bs; (anchor, bs) = get_u8 bs;
          (reserved, bs) = get_u8 bs; (port, bs) = get_u16 bs; (host, bs) = get_chars 64 bs;
          (path, bs) = get_chars 80 bs
      in (\<lparr>cb_enabled = enabled, cb_method = method, cb_trustAnchorId = anchor, cb_reserved = reserved,
           cb_port = port, cb_host = host, cb_path = path\<rparr>, bs))"

definition put_cb_snapshot :: "CallbackConfig_SnapshotTypeDef \<Rightarrow> u8 list" where
  "put_cb_snapshot s = put_u32 (cs_magic s) @ put_u16 (cs_version s) @ put_u16 (cs_reserved s) @
     put_u32 (cs_generation s) @ put_cb_config (cs_config s) @ cs_padding s @ put_u32 (cs_crc s)"

definition get_cb_snapshot :: "u8 list \<Rightarrow> CallbackConfig_SnapshotTypeDef" where
  "get_cb_snapshot bs =
     (let (magic, bs) = get_u32 bs; (version, bs) = get_u16 bs; (reserved, bs) = get_u16 bs;
          (generation, bs) = get_u32 bs; (config, bs) = get_cb_config bs; (padding, bs) = get_bytes 2 bs;
          (crc, bs) = get_u32 bs
      in \<lparr>cs_magic = magic, cs_version = version, cs_reserved = reserved, cs_generation = generation,
          cs_config = config, cs_padding = padding, cs_crc = crc\<rparr>)"

subsection \<open>Validation\<close>

definition host_character :: "char \<Rightarrow> bool" where
  "host_character c \<longleftrightarrow> (CHR ''a'' \<le> c \<and> c \<le> CHR ''z'') \<or> (CHR ''A'' \<le> c \<and> c \<le> CHR ''Z'') \<or>
     (CHR ''0'' \<le> c \<and> c \<le> CHR ''9'') \<or> c = CHR ''.'' \<or> c = CHR ''-''"

text \<open>The scanning loops; the first argument counts the indices left.\<close>

fun host_scan :: "nat \<Rightarrow> string \<Rightarrow> bool" where
  "host_scan 0 s = False"
| "host_scan (Suc n) [] = True"
| "host_scan (Suc n) (c # s) =
     (if c = CHR 0x00 then True else if \<not> host_character c then False else host_scan n s)"

definition callbackConfig_HostValid :: "string \<Rightarrow> bool" where
  "callbackConfig_HostValid host = (if c_str host = [] then False else host_scan 64 host)"

definition path_character :: "char \<Rightarrow> bool" where
  "path_character c \<longleftrightarrow> \<not> (of_char c < (0x21 :: u8) \<or> of_char c > (0x7E :: u8) \<or> c = CHR 0x22 \<or> c = CHR 0x5C \<or> c = CHR ''#'')"

fun path_scan :: "nat \<Rightarrow> string \<Rightarrow> bool" where
  "path_scan 0 s = False"
| "path_scan (Suc n) [] = True"
| "path_scan (Suc n) (c # s) =
     (if c = CHR 0x00 then True else if \<not> path_character c then False else path_scan n s)"

definition callbackConfig_PathValid :: "string \<Rightarrow> bool" where
  "callbackConfig_PathValid path = (if path = [] \<or> hd path \<noteq> CHR ''/'' then False else path_scan 80 path)"

definition callbackConfig_Crc :: "u8 list \<Rightarrow> u32" where
  "callbackConfig_Crc bytes = crc32 bytes"

text \<open>The text \<open>snprintf\<close> formats for the longest values of every field.\<close>

definition longest_target :: "string \<Rightarrow> string" where
  "longest_target path = c_str path @ [if CHR ''?'' \<in> set (c_str path) then CHR ''&'' else CHR ''?''] @
     ''sequence=4294967295&timestamp=4294967295&resource_index=255&'' @
     ''status=fail&stage=certificate_error&http_status=65535&'' @
     ''elapsed_ms=4294967295&detail=-2147483648''"

definition CallbackConfig_IsValid :: "CallbackConfig_TypeDef option \<Rightarrow> bool" where
  "CallbackConfig_IsValid config =
     (case config of
        None \<Rightarrow> False
      | Some c \<Rightarrow>
          if \<not> (cb_enabled c \<le> 1 \<and> cb_method c \<le> CALLBACK_METHOD_POST \<and> cb_port c \<noteq> 0 \<and>
                cb_trustAnchorId c \<ge> 1 \<and> cb_trustAnchorId c \<le> 6 \<and>
                callbackConfig_HostValid (cb_host c) \<and> callbackConfig_PathValid (cb_path c))
          then False
          else let len = length (longest_target (cb_path c)) in len > 0 \<and> len < 256)"

definition callbackConfig_IsValid :: "CallbackConfig_SnapshotTypeDef \<Rightarrow> bool" where
  "callbackConfig_IsValid candidate \<longleftrightarrow>
     cs_magic candidate = 0x43424B43 \<and> cs_version candidate = 1 \<and>
     CallbackConfig_IsValid (Some (cs_config candidate)) \<and>
     cs_crc candidate = callbackConfig_Crc (take 164 (put_cb_snapshot candidate))"

subsection \<open>Operations\<close>

definition callbackConfig_Stamp :: "CallbackConfig_SnapshotTypeDef \<Rightarrow> CallbackConfig_SnapshotTypeDef" where
  "callbackConfig_Stamp candidate =
     (let candidate = candidate\<lparr>cs_magic := 0x43424B43, cs_version := 1,
            cs_generation := cs_generation candidate + 1\<rparr>
      in candidate\<lparr>cs_crc := callbackConfig_Crc (take 164 (put_cb_snapshot candidate))\<rparr>)"

definition callbackConfig_Save ::
  "CallbackConfig_SnapshotTypeDef \<Rightarrow> CallbackConfig_State \<Rightarrow> env \<Rightarrow>
   HealthCheck_StatusTypeDef \<times> CallbackConfig_SnapshotTypeDef \<times> CallbackConfig_State \<times> env" where
  "callbackConfig_Save candidate st env =
     (let target = (if cs_activeAddress st = FLASH_LAYOUT_CALLBACK_CONFIG_SECTOR_A
                    then FLASH_LAYOUT_CALLBACK_CONFIG_SECTOR_B else FLASH_LAYOUT_CALLBACK_CONFIG_SECTOR_A);
          candidate = callbackConfig_Stamp candidate;
          (s1, env1) = W25Q64_EraseSector target env in
      if s1 \<noteq> W25Q64_STATUS_OK then (HEALTH_CHECK_STATUS_ERROR, candidate, st, env1)
      else
        let (s2, env2) = W25Q64_Program target (Some (put_cb_snapshot candidate)) env1 in
        if s2 \<noteq> W25Q64_STATUS_OK then (HEALTH_CHECK_STATUS_ERROR, candidate, st, env2)
        else
          let (s3, d, env3) = W25Q64_Read target 168 env2;
              verification = get_cb_snapshot d in
          if s3 \<noteq> W25Q64_STATUS_OK \<or> \<not> callbackConfig_IsValid verification
             \<or> cs_generation verification \<noteq> cs_generation candidate
          then (HEALTH_CHECK_STATUS_ERROR, candidate, st, env3)
          else (HEALTH_CHECK_STATUS_OK, candidate,
                st\<lparr>cs_snapshot := candidate, cs_activeAddress := target\<rparr>, env3))"

definition zero_cb_config :: CallbackConfig_TypeDef where
  "zero_cb_config = \<lparr>cb_enabled = 0, cb_method = 0, cb_trustAnchorId = 0, cb_reserved = 0, cb_port = 0,
     cb_host = memset_chars 64, cb_path = memset_chars 80\<rparr>"

definition zero_cb_snapshot :: CallbackConfig_SnapshotTypeDef where
  "zero_cb_snapshot = \<lparr>cs_magic = 0, cs_version = 0, cs_reserved = 0, cs_generation = 0,
     cs_config = zero_cb_config, cs_padding = [0, 0], cs_crc = 0\<rparr>"

text \<open>The assignments of the start-up's default branch.\<close>

definition callbackConfig_Default :: CallbackConfig_SnapshotTypeDef where
  "callbackConfig_Default = zero_cb_snapshot\<lparr>cs_config := (cs_config zero_cb_snapshot)
     \<lparr>cb_method := CALLBACK_METHOD_POST, cb_port := 443, cb_trustAnchorId := 1,
      cb_host := strncpy (memset_chars 64) ''callback.invalid'' 63,
      cb_path := strncpy (memset_chars 80) ''/'' 79\<rparr>\<rparr>"

definition CallbackConfig_Init ::
  "CallbackConfig_State \<Rightarrow> env \<Rightarrow> HealthCheck_StatusTypeDef \<times> CallbackConfig_State \<times> env" where
  "CallbackConfig_Init st env =
     (let (created, env0) = xSemaphoreCreateMutexStatic env in
      if \<not> created then (HEALTH_CHECK_STATUS_ERROR, st, env0)
      else
        let (firstValid, first, env1) =
              load_snapshot get_cb_snapshot 168 callbackConfig_IsValid FLASH_LAYOUT_CALLBACK_CONFIG_SECTOR_A env0;
            (secondValid, second, env2) =
              load_snapshot get_cb_snapshot 168 callbackConfig_IsValid FLASH_LAYOUT_CALLBACK_CONFIG_SECTOR_B env1 in
        if firstValid \<and> (\<not> secondValid \<or> cs_generation first \<ge> cs_generation second) then
          (HEALTH_CHECK_STATUS_OK,
           st\<lparr>cs_snapshot := first, cs_activeAddress := FLASH_LAYOUT_CALLBACK_CONFIG_SECTOR_A\<rparr>, env2)
        else if secondValid then
          (HEALTH_CHECK_STATUS_OK,
           st\<lparr>cs_snapshot := second, cs_activeAddress := FLASH_LAYOUT_CALLBACK_CONFIG_SECTOR_B\<rparr>, env2)
        else
          let st = st\<lparr>cs_snapshot := callbackConfig_Default,
                      cs_activeAddress := FLASH_LAYOUT_CALLBACK_CONFIG_SECTOR_B\<rparr>;
              (status, candidate, st, env3) = callbackConfig_Save (cs_snapshot st) st env2
          in (status, st\<lparr>cs_snapshot := candidate\<rparr>, env3))"

definition CallbackConfig_Get :: "CallbackConfig_State \<Rightarrow> env \<Rightarrow> CallbackConfig_TypeDef \<times> env" where
  "CallbackConfig_Get st env =
     (let (taken, env1) = xSemaphoreTake env
      in (if taken then cs_config (cs_snapshot st) else zero_cb_config, env1))"

definition CallbackConfig_Set ::
  "CallbackConfig_TypeDef option \<Rightarrow> CallbackConfig_State \<Rightarrow> env \<Rightarrow>
   HealthCheck_StatusTypeDef \<times> CallbackConfig_State \<times> env" where
  "CallbackConfig_Set config st env =
     (if \<not> CallbackConfig_IsValid config then (HEALTH_CHECK_STATUS_ERROR, st, env)
      else
        let (taken, env1) = xSemaphoreTake env in
        if \<not> taken then (HEALTH_CHECK_STATUS_ERROR, st, env1)
        else
          let (status, _, st', env2) = callbackConfig_Save ((cs_snapshot st)\<lparr>cs_config := the config\<rparr>) st env1
          in (status, st', env2))"

definition CallbackConfig_IsTrustAnchorInUse :: "u8 \<Rightarrow> CallbackConfig_State \<Rightarrow> env \<Rightarrow> bool \<times> env" where
  "CallbackConfig_IsTrustAnchorInUse trustAnchorId st env =
     (let (config, env1) = CallbackConfig_Get st env
      in (cb_enabled config \<noteq> 0 \<and> cb_trustAnchorId config = trustAnchorId, env1))"

subsection \<open>Well-formed values and the store's view of flash\<close>

definition wf_cb_config :: "CallbackConfig_TypeDef \<Rightarrow> bool" where
  "wf_cb_config c \<longleftrightarrow> length (cb_host c) = 64 \<and> length (cb_path c) = 80"

definition wf_cb_snapshot :: "CallbackConfig_SnapshotTypeDef \<Rightarrow> bool" where
  "wf_cb_snapshot s \<longleftrightarrow> wf_cb_config (cs_config s) \<and> length (cs_padding s) = 2"

definition cb_fit :: "CallbackConfig_SnapshotTypeDef \<Rightarrow> bool" where
  "cb_fit s \<longleftrightarrow> wf_cb_snapshot s \<and> CallbackConfig_IsValid (Some (cs_config s))"

abbreviation cb_held :: "(nat \<Rightarrow> u8) \<Rightarrow> u32 \<Rightarrow> CallbackConfig_SnapshotTypeDef option" where
  "cb_held c sector \<equiv> snapshot_at get_cb_snapshot 168 callbackConfig_IsValid c sector"

abbreviation cb_live :: "CallbackConfig_State \<Rightarrow> (nat \<Rightarrow> u8) \<Rightarrow> bool" where
  "cb_live st c \<equiv> live get_cb_snapshot 168 callbackConfig_IsValid FLASH_LAYOUT_CALLBACK_CONFIG_SECTOR_A
     FLASH_LAYOUT_CALLBACK_CONFIG_SECTOR_B (cs_snapshot st) (cs_activeAddress st) c"

abbreviation cb_committed :: "CallbackConfig_State \<Rightarrow> (nat \<Rightarrow> u8) \<Rightarrow> bool" where
  "cb_committed st c \<equiv> committed get_cb_snapshot 168 callbackConfig_IsValid cs_generation
     FLASH_LAYOUT_CALLBACK_CONFIG_SECTOR_A FLASH_LAYOUT_CALLBACK_CONFIG_SECTOR_B
     (cs_snapshot st) (cs_activeAddress st) c"

abbreviation (input) cb_inactive :: "CallbackConfig_State \<Rightarrow> u32" where
  "cb_inactive st \<equiv> other_sector FLASH_LAYOUT_CALLBACK_CONFIG_SECTOR_A FLASH_LAYOUT_CALLBACK_CONFIG_SECTOR_B
     (cs_activeAddress st)"

text \<open>What a \<open>Set\<close> stores, and the state of a board that started on erased sectors.\<close>

definition cb_next :: "CallbackConfig_TypeDef \<Rightarrow> CallbackConfig_State \<Rightarrow> CallbackConfig_SnapshotTypeDef" where
  "cb_next config st = callbackConfig_Stamp ((cs_snapshot st)\<lparr>cs_config := config\<rparr>)"

definition cb_static :: CallbackConfig_State where
  "cb_static = \<lparr>cs_snapshot = zero_cb_snapshot, cs_activeAddress = 0\<rparr>"

definition cb_first_state :: CallbackConfig_State where
  "cb_first_state = fst (snd (CallbackConfig_Init cb_static blank_env))"

definition cb_first_env :: env where
  "cb_first_env = snd (snd (CallbackConfig_Init cb_static blank_env))"

definition cb_sample :: CallbackConfig_TypeDef where
  "cb_sample = \<lparr>cb_enabled = 1, cb_method = CALLBACK_METHOD_GET, cb_trustAnchorId = 2, cb_reserved = 0, cb_port = 8443,
     cb_host = strncpy (memset_chars 64) ''hooks.example'' 63, cb_path = strncpy (memset_chars 80) ''/hook?k=1'' 79\<rparr>"

subsection \<open>Object representations round trip\<close>

lemma length_put_cb_config [simp]: "wf_cb_config c \<Longrightarrow> length (put_cb_config c) = 150"
  by (simp add: put_cb_config_def wf_cb_config_def)

lemma get_put_cb_config [codec]: "wf_cb_config c \<Longrightarrow> get_cb_config (put_cb_config c @ bs) = (c, bs)"
  by (simp add: get_cb_config_def put_cb_config_def wf_cb_config_def)

lemma length_put_cb_snapshot: "wf_cb_snapshot s \<Longrightarrow> length (put_cb_snapshot s) = 168"
  by (simp add: put_cb_snapshot_def wf_cb_snapshot_def)

lemma get_put_cb_snapshot: "wf_cb_snapshot s \<Longrightarrow> get_cb_snapshot (put_cb_snapshot s) = s"
  using get_put_u32[of "cs_crc s" "[]"]
  by (simp add: get_cb_snapshot_def put_cb_snapshot_def wf_cb_snapshot_def get_put_cb_config)

lemma snd_get_cb_config [simp]: "snd (get_cb_config bs) = drop 150 bs"
  by (simp add: get_cb_config_def case_prod_unfold Let_def)

lemma wf_get_cb_config: "150 \<le> length bs \<Longrightarrow> wf_cb_config (fst (get_cb_config bs))"
  by (simp add: get_cb_config_def wf_cb_config_def case_prod_unfold Let_def)

lemma wf_get_cb_snapshot: "length bs = 168 \<Longrightarrow> wf_cb_snapshot (get_cb_snapshot bs)"
  by (simp add: get_cb_snapshot_def wf_cb_snapshot_def case_prod_unfold Let_def wf_get_cb_config fst_get_bytes)

subsection \<open>The stamp\<close>

lemma cb_Stamp_fields [simp]:
  "cs_generation (callbackConfig_Stamp s) = cs_generation s + 1"
  "cs_config (callbackConfig_Stamp s) = cs_config s"
  "cs_padding (callbackConfig_Stamp s) = cs_padding s"
  by (simp_all add: callbackConfig_Stamp_def Let_def)

lemma wf_cb_Stamp [simp]: "wf_cb_snapshot (callbackConfig_Stamp s) = wf_cb_snapshot s"
  by (simp add: wf_cb_snapshot_def)

lemma cb_Stamp_valid:
  assumes "cb_fit s"
  shows "callbackConfig_IsValid (callbackConfig_Stamp s)"
proof -
  have "take 164 (put_cb_snapshot (t\<lparr>cs_crc := c\<rparr>)) = take 164 (put_cb_snapshot t)" if "wf_cb_snapshot t" for t c
    using that by (simp add: put_cb_snapshot_def wf_cb_snapshot_def)
  moreover have "wf_cb_snapshot (s\<lparr>cs_magic := 0x43424B43, cs_version := 1, cs_generation := cs_generation s + 1\<rparr>)"
    using assms by (simp add: wf_cb_snapshot_def cb_fit_def)
  ultimately show ?thesis
    using assms by (simp add: callbackConfig_IsValid_def callbackConfig_Stamp_def cb_fit_def Let_def)
qed

subsection \<open>The store is an A/B service\<close>

interpretation cbs: ab_service W25Q64_EraseSector put_cb_snapshot get_cb_snapshot 168 4096
  wf_cb_snapshot callbackConfig_IsValid cs_generation
  FLASH_LAYOUT_CALLBACK_CONFIG_SECTOR_A FLASH_LAYOUT_CALLBACK_CONFIG_SECTOR_B callbackConfig_Stamp cb_fit
proof (unfold_locales, goal_cases)
  case (8 sector env)
  then show ?case
    by (intro sector_erase(1)[where n = 0]) (auto simp: layout)
next
  case (9 sector env env')
  then show ?case
    by (intro sector_erase(2)) (auto simp: layout)
next
  case (10 sector env)
  then show ?case
    by (intro sector_erase(3)[where n = 0]) (auto simp: layout)
qed (simp_all add: get_put_cb_snapshot length_put_cb_snapshot wf_get_cb_snapshot cb_Stamp_valid cb_fit_def layout)

lemma cb_Save_ab_save:
  "callbackConfig_Save candidate st env =
     (case cbs.save (cs_activeAddress st) candidate env of
        (None, env') \<Rightarrow> (HEALTH_CHECK_STATUS_ERROR, callbackConfig_Stamp candidate, st, env')
      | (Some (_, a), env') \<Rightarrow> (HEALTH_CHECK_STATUS_OK, callbackConfig_Stamp candidate,
           st\<lparr>cs_snapshot := callbackConfig_Stamp candidate, cs_activeAddress := a\<rparr>, env'))"
  by (simp add: callbackConfig_Save_def ab_save_def ab_write_def ab_accepts_def other_sector_def Let_def
      split: prod.splits)

lemma cb_Init_ab_load:
  "CallbackConfig_Init st env =
     (let (created, env0) = xSemaphoreCreateMutexStatic env in
      if \<not> created then (HEALTH_CHECK_STATUS_ERROR, st, env0)
      else case cbs.load env0 of
        (Some (s, a), env1) \<Rightarrow> (HEALTH_CHECK_STATUS_OK, \<lparr>cs_snapshot = s, cs_activeAddress = a\<rparr>, env1)
      | (None, env1) \<Rightarrow>
          let (status, candidate, st, env2) = callbackConfig_Save callbackConfig_Default
                \<lparr>cs_snapshot = callbackConfig_Default, cs_activeAddress = FLASH_LAYOUT_CALLBACK_CONFIG_SECTOR_B\<rparr> env1
          in (status, st\<lparr>cs_snapshot := candidate\<rparr>, env2))"
  by (cases st) (simp add: CallbackConfig_Init_def ab_load_def newest_def Let_def split: prod.splits)

subsection \<open>Validation as a specification\<close>

lemma host_scan_iff: "host_scan n s \<longleftrightarrow> length (c_str s) < n \<and> list_all host_character (c_str s)"
  by (induction n s rule: host_scan.induct) (auto simp: c_str_def)

lemma path_scan_iff: "path_scan n s \<longleftrightarrow> length (c_str s) < n \<and> list_all path_character (c_str s)"
  by (induction n s rule: path_scan.induct) (auto simp: c_str_def)

lemma length_longest_target: "length (longest_target path) = length (c_str path) + 155"
  by (simp add: longest_target_def)

lemma cb_valid_iff:
  "CallbackConfig_IsValid (Some c) \<longleftrightarrow>
     cb_enabled c \<in> {0, 1} \<and> cb_method c \<in> {CALLBACK_METHOD_GET, CALLBACK_METHOD_POST} \<and> cb_port c \<noteq> 0 \<and>
     cb_trustAnchorId c \<in> {1..6} \<and>
     c_str (cb_host c) \<noteq> [] \<and> length (c_str (cb_host c)) < 64 \<and> list_all host_character (c_str (cb_host c)) \<and>
     c_str (cb_path c) \<noteq> [] \<and> hd (c_str (cb_path c)) = CHR ''/'' \<and> length (c_str (cb_path c)) < 80 \<and>
     list_all path_character (c_str (cb_path c))"
proof -
  have le1: "x \<le> 1 \<longleftrightarrow> x = 0 \<or> x = 1" for x :: u8
    by (metis dual_order.refl linorder_not_less order_antisym_conv word_gt_0 word_le_less_eq word_less_1
        word_zero_le)
  have path: "p \<noteq> [] \<and> hd p = CHR ''/'' \<longleftrightarrow> c_str p \<noteq> [] \<and> hd (c_str p) = CHR ''/''" for p :: string
    by (cases p) (auto simp: c_str_def)
  show ?thesis
    using path[of "cb_path c"]
    by (auto simp: CallbackConfig_IsValid_def callbackConfig_HostValid_def callbackConfig_PathValid_def
        host_scan_iff path_scan_iff length_longest_target Let_def le1 CALLBACK_METHOD_GET_def CALLBACK_METHOD_POST_def)
qed

text \<open>C27: validation accepts exactly the documented configurations: flag 0 or 1, method
  GET or POST, nonzero port, trust anchor 1 to 6, a host of 1 to 63 letters, digits,
  dots and dashes, and a path of at most 79 visible characters that starts with a slash
  and contains no quote, backslash or fragment mark.  The length check of the encoded
  GET target never refuses such a path.\<close>

theorem callback_valid_exact:
  "CallbackConfig_IsValid (Some c) \<longleftrightarrow>
     cb_enabled c \<in> {0, 1} \<and> cb_method c \<in> {CALLBACK_METHOD_GET, CALLBACK_METHOD_POST} \<and> cb_port c \<noteq> 0 \<and>
     cb_trustAnchorId c \<in> {1..6} \<and>
     c_str (cb_host c) \<noteq> [] \<and> length (c_str (cb_host c)) < 64 \<and> list_all host_character (c_str (cb_host c)) \<and>
     c_str (cb_path c) \<noteq> [] \<and> hd (c_str (cb_path c)) = CHR ''/'' \<and> length (c_str (cb_path c)) < 80 \<and>
     list_all path_character (c_str (cb_path c))"
  by (rule cb_valid_iff)

subsection \<open>One update\<close>

lemma cb_Set_cases:
  assumes "CallbackConfig_Set config st env = (status, st', env')"
  shows "(st' = st \<and> status = HEALTH_CHECK_STATUS_ERROR \<and> touches 0 0 env env' \<and>
      (CallbackConfig_IsValid config \<longrightarrow> \<not> healthy env)) \<or>
    (\<exists>c env1 r. config = Some c \<and> CallbackConfig_IsValid (Some c) \<and> touches 0 0 env env1 \<and>
      cbs.save (cs_activeAddress st) ((cs_snapshot st)\<lparr>cs_config := c\<rparr>) env1 = (r, env') \<and>
      (case r of None \<Rightarrow> status = HEALTH_CHECK_STATUS_ERROR \<and> st' = st
       | Some (_, a) \<Rightarrow> status = HEALTH_CHECK_STATUS_OK \<and> st' = \<lparr>cs_snapshot = cb_next c st, cs_activeAddress = a\<rparr>))"
proof (cases "CallbackConfig_IsValid config")
  case False
  then show ?thesis
    using assms by (simp add: CallbackConfig_Set_def touches_refl)
next
  case True
  then obtain c where c: "config = Some c"
    by (cases config) (simp_all add: CallbackConfig_IsValid_def)
  obtain b env1 where l: "xSemaphoreTake env = (b, env1)" by fastforce
  note lk = xSemaphoreTake_frame[OF l]
  show ?thesis
  proof (cases b)
    case False
    then show ?thesis
      using assms True c lk by (auto simp: CallbackConfig_Set_def l)
  next
    case b: True
    obtain r env2 where "cbs.save (cs_activeAddress st) ((cs_snapshot st)\<lparr>cs_config := c\<rparr>) env1 = (r, env2)"
      by fastforce
    then show ?thesis
      using assms True c lk(2)[of 0 0] b
      by (cases st) (auto simp: CallbackConfig_Set_def l cb_Save_ab_save cb_next_def split: option.splits)
  qed
qed

lemma cb_live_fit:
  assumes "cb_live st c" "wf_cb_config config" "CallbackConfig_IsValid (Some config)"
  shows "cb_fit ((cs_snapshot st)\<lparr>cs_config := config\<rparr>)"
  using cbs.running_fits[OF assms(1)] assms(2,3) by (simp add: cb_fit_def wf_cb_snapshot_def)

lemma cb_Set_healthy:
  assumes "cb_live st (cells env)" "wf_cb_config config" "CallbackConfig_IsValid (Some config)" "healthy env"
  shows "\<exists>env'. healthy env' \<and> CallbackConfig_Set (Some config) st env =
    (HEALTH_CHECK_STATUS_OK, \<lparr>cs_snapshot = cb_next config st, cs_activeAddress = cb_inactive st\<rparr>, env')"
proof -
  obtain b env1 where l: "xSemaphoreTake env = (b, env1)" by fastforce
  have "b" "healthy env1"
    using xSemaphoreTake_frame(3)[OF l assms(4)] by simp_all
  then show ?thesis
    using cbs.save_healthy[OF cb_live_fit[OF assms(1-3)], of env1 "cs_activeAddress st"] assms(3)
    by (cases st) (auto simp: CallbackConfig_Set_def l cb_Save_ab_save cb_next_def)
qed

subsection \<open>Start-up\<close>

lemma cb_Init_load:
  assumes "healthy env"
  shows "\<exists>env0. healthy env0 \<and> cells env0 = cells env \<and>
    (\<forall>s a env1. cbs.load env0 = (Some (s, a), env1) \<longrightarrow>
       CallbackConfig_Init st env = (HEALTH_CHECK_STATUS_OK, \<lparr>cs_snapshot = s, cs_activeAddress = a\<rparr>, env1))"
proof -
  obtain b env0 where m: "xSemaphoreCreateMutexStatic env = (b, env0)" by fastforce
  note mk = xSemaphoreCreateMutexStatic_frame[OF m]
  show ?thesis
    using mk(1) mk(3)[OF assms] by (intro exI[of _ env0]) (simp add: cb_Init_ab_load m)
qed

lemma cb_default_fit: "cb_fit callbackConfig_Default" "cs_generation callbackConfig_Default = 0"
proof -
  have "c_str (strncpy (memset_chars 64) ''callback.invalid'' 63) = ''callback.invalid''"
    "c_str (strncpy (memset_chars 80) ''/'' 79) = ''/''"
    by (subst c_str_strncpy; simp add: c_str_def)+
  then have "CallbackConfig_IsValid (Some (cs_config callbackConfig_Default))"
    by (simp add: cb_valid_iff callbackConfig_Default_def zero_cb_snapshot_def zero_cb_config_def host_character_def
        path_character_def CALLBACK_METHOD_POST_def less_eq_char_def)
  moreover have "wf_cb_snapshot callbackConfig_Default"
    by (simp add: wf_cb_snapshot_def wf_cb_config_def callbackConfig_Default_def zero_cb_snapshot_def
        length_strncpy memset_chars_def)
  ultimately show "cb_fit callbackConfig_Default"
    by (simp add: cb_fit_def)
  show "cs_generation callbackConfig_Default = 0"
    by (simp add: callbackConfig_Default_def zero_cb_snapshot_def)
qed

lemma cb_blank_invalid: "\<not> callbackConfig_IsValid (get_cb_snapshot (replicate 168 0xFF))"
  by (simp add: callbackConfig_IsValid_def get_cb_snapshot_def case_prod_unfold Let_def get_u32_blank)

lemma cb_Init_blank:
  assumes "healthy env" "sector_blank (cells env) FLASH_LAYOUT_CALLBACK_CONFIG_SECTOR_A"
    "sector_blank (cells env) FLASH_LAYOUT_CALLBACK_CONFIG_SECTOR_B"
    and run: "CallbackConfig_Init st0 env = (status, st, env')"
  shows "status = HEALTH_CHECK_STATUS_OK" "healthy env'"
    "cs_snapshot st = callbackConfig_Stamp callbackConfig_Default" "cb_committed st (cells env')"
    "unat FLASH_LAYOUT_CALLBACK_CONFIG_SECTOR_B + 4096 \<le> i \<Longrightarrow> cells env' i = cells env i"
proof -
  let ?A = "FLASH_LAYOUT_CALLBACK_CONFIG_SECTOR_A" and ?B = "FLASH_LAYOUT_CALLBACK_CONFIG_SECTOR_B"
  obtain b env0 where m: "xSemaphoreCreateMutexStatic env = (b, env0)" by fastforce
  note mk = xSemaphoreCreateMutexStatic_frame[OF m]
  have h: "b" "healthy env0" "cells env0 = cells env"
    using mk(1) mk(3)[OF assms(1)] by simp_all
  have none: "cb_held (cells env) ?A = None" "cb_held (cells env) ?B = None"
    using assms(2,3) cb_blank_invalid by (simp_all add: snapshot_at_blank)
  obtain env1 where l: "cbs.load env0 = (None, env1)" "cells env1 = cells env" "healthy env1"
    using cbs.load_empty[OF h(2)] none h(3) by auto
  obtain env2 where s: "cbs.save ?B callbackConfig_Default env1 =
      (Some (callbackConfig_Stamp callbackConfig_Default, cbs.opposite ?B), env2)" "healthy env2"
    using cbs.save_healthy[OF cb_default_fit(1) l(3), of ?B] by blast
  have st: "status = HEALTH_CHECK_STATUS_OK" "env' = env2"
    "st = \<lparr>cs_snapshot = callbackConfig_Stamp callbackConfig_Default, cs_activeAddress = cbs.opposite ?B\<rparr>"
    using run l(1) s(1) h(1) by (auto simp: cb_Init_ab_load m cb_Save_ab_save)
  then show "status = HEALTH_CHECK_STATUS_OK" "healthy env'" "cs_snapshot st = callbackConfig_Stamp callbackConfig_Default"
    using s(2) by simp_all
  have "cbs.published (callbackConfig_Stamp callbackConfig_Default) (cbs.opposite ?B) (cells env2)"
    by (rule cbs.save_commits[OF cb_default_fit(1) s(1)]) (use none l(2) in \<open>simp add: cbs.opposite_opposite\<close>)
  then show "cb_committed st (cells env')"
    using st by simp
  have "cbs.opposite ?B = ?A"
    by (simp add: other_sector_def layout)
  then show "unat ?B + 4096 \<le> i \<Longrightarrow> cells env' i = cells env i"
    using cbs.save_frame[OF cb_default_fit(1) s(1)] st(2) l(2) by (auto simp: touches_def layout)
qed

lemma cb_first:
  "cb_committed cb_first_state (cells cb_first_env)" "healthy cb_first_env"
  "cs_generation (cs_snapshot cb_first_state) = 1"
proof -
  have run: "CallbackConfig_Init cb_static blank_env =
      (fst (CallbackConfig_Init cb_static blank_env), cb_first_state, cb_first_env)"
    by (simp add: cb_first_state_def cb_first_env_def)
  have "healthy blank_env"
    by (simp add: healthy_def blank_env_def)
  note d = cb_Init_blank[OF this sector_blank_env sector_blank_env run]
  show "cb_committed cb_first_state (cells cb_first_env)" "healthy cb_first_env"
    "cs_generation (cs_snapshot cb_first_state) = 1"
    using d by (simp_all add: cb_default_fit(2))
qed

lemma cb_sample_ok: "wf_cb_config cb_sample" "CallbackConfig_IsValid (Some cb_sample)"
proof -
  have "c_str (strncpy (memset_chars 64) ''hooks.example'' 63) = ''hooks.example''"
    "c_str (strncpy (memset_chars 80) ''/hook?k=1'' 79) = ''/hook?k=1''"
    by (subst c_str_strncpy; simp add: c_str_def)+
  then show "CallbackConfig_IsValid (Some cb_sample)"
    by (simp add: cb_valid_iff cb_sample_def host_character_def path_character_def
        CALLBACK_METHOD_GET_def less_eq_char_def)
  show "wf_cb_config cb_sample"
    by (simp add: wf_cb_config_def cb_sample_def length_strncpy memset_chars_def)
qed

lemma cb_Set_stores:
  assumes "cb_live st (cells env)" "wf_cb_config config" "CallbackConfig_Set (Some config) st env = (status, st', env')"
    "status = HEALTH_CHECK_STATUS_OK"
  shows "cb_held (cells env') (cb_inactive st) = Some (cb_next config st)"
  using cb_Set_cases[OF assms(3)]
proof (elim disjE exE conjE)
  fix c env1 r
  assume s: "Some config = Some c" "CallbackConfig_IsValid (Some c)"
    "cbs.save (cs_activeAddress st) ((cs_snapshot st)\<lparr>cs_config := c\<rparr>) env1 = (r, env')"
    "case r of None \<Rightarrow> status = HEALTH_CHECK_STATUS_ERROR \<and> st' = st
     | Some (_, a) \<Rightarrow> status = HEALTH_CHECK_STATUS_OK \<and> st' = \<lparr>cs_snapshot = cb_next c st, cs_activeAddress = a\<rparr>"
  have "cb_fit ((cs_snapshot st)\<lparr>cs_config := c\<rparr>)"
    using cb_live_fit[OF assms(1,2)] s(1,2) by simp
  moreover have "cs_activeAddress st \<in> {FLASH_LAYOUT_CALLBACK_CONFIG_SECTOR_A, FLASH_LAYOUT_CALLBACK_CONFIG_SECTOR_B}"
    using assms(1) by (simp add: live_def)
  moreover have "r \<noteq> None"
    using s(4) assms(4) by (cases r) auto
  ultimately show ?thesis
    using cbs.save_held(2)[OF _ s(3)] s(1) by (simp add: cb_next_def)
qed (use assms(4) in simp)



end
