(* ===== verification/User_Store.thy ===== *)
theory User_Store
  imports Crc32 Object_Rep Ab_Service
begin

text \<open>
  \<open>Srv/Src/user_store.c\<close>: the persistent directory of management accounts.  A snapshot
  holds up to eight records of which the first \<open>count\<close> are in use; the operations find,
  create or replace, delete (closing the gap) and list them.  The store is an instance
  of \<open>ab_service\<close>; the properties show that it is a finite map from user names to
  records that survives faults and restarts.
\<close>

subsection \<open>Structs\<close>

datatype UserStore_RoleTypeDef = USER_ROLE_USER | USER_ROLE_ADMINISTRATOR

record UserStore_RecordTypeDef =
  u_enabled :: u8
  u_role :: u8
  u_username :: string
  u_salt :: "u8 list"
  u_verifier :: "u8 list"
  u_padding :: "u8 list"
  u_iterations :: u32

record UserStore_SnapshotTypeDef =
  us_magic :: u32
  us_version :: u16
  us_count :: u16
  us_generation :: u32
  us_users :: "UserStore_RecordTypeDef list"
  us_crc :: u32

record UserStore_State =
  us_snapshot :: UserStore_SnapshotTypeDef
  us_activeAddress :: u32

fun role_code :: "UserStore_RoleTypeDef \<Rightarrow> u8" where
  "role_code USER_ROLE_USER = 0"
| "role_code USER_ROLE_ADMINISTRATOR = 1"

subsection \<open>Object representations\<close>

definition put_user :: "UserStore_RecordTypeDef \<Rightarrow> u8 list" where
  "put_user u = put_u8 (u_enabled u) @ put_u8 (u_role u) @ put_chars (u_username u) @ u_salt u @ u_verifier u @
     u_padding u @ put_u32 (u_iterations u)"

definition get_user :: "u8 list \<Rightarrow> UserStore_RecordTypeDef \<times> u8 list" where
  "get_user bs =
     (let (enabled, bs) = get_u8 bs; (role, bs) = get_u8 bs; (username, bs) = get_chars 25 bs;
          (salt, bs) = get_bytes 16 bs; (verifier, bs) = get_bytes 32 bs; (padding, bs) = get_bytes 1 bs;
          (iterations, bs) = get_u32 bs
      in (\<lparr>u_enabled = enabled, u_role = role, u_username = username, u_salt = salt, u_verifier = verifier,
           u_padding = padding, u_iterations = iterations\<rparr>, bs))"

definition put_users :: "UserStore_SnapshotTypeDef \<Rightarrow> u8 list" where
  "put_users s = put_u32 (us_magic s) @ put_u16 (us_version s) @ put_u16 (us_count s) @
     put_u32 (us_generation s) @ put_array put_user (us_users s) @ put_u32 (us_crc s)"

definition get_users :: "u8 list \<Rightarrow> UserStore_SnapshotTypeDef" where
  "get_users bs =
     (let (magic, bs) = get_u32 bs; (version, bs) = get_u16 bs; (count, bs) = get_u16 bs;
          (generation, bs) = get_u32 bs; (users, bs) = get_array 8 get_user bs; (crc, bs) = get_u32 bs
      in \<lparr>us_magic = magic, us_version = version, us_count = count, us_generation = generation,
          us_users = users, us_crc = crc\<rparr>)"

subsection \<open>Validation and save\<close>

definition userStore_Crc :: "u8 list \<Rightarrow> u32" where
  "userStore_Crc bytes = crc32 bytes"

definition userStore_IsValid :: "UserStore_SnapshotTypeDef \<Rightarrow> bool" where
  "userStore_IsValid candidate \<longleftrightarrow>
     us_magic candidate = 0x55534552 \<and> us_version candidate = 1 \<and> us_count candidate \<le> 8 \<and>
     us_crc candidate = userStore_Crc (take 652 (put_users candidate))"

definition userStore_Stamp :: "UserStore_SnapshotTypeDef \<Rightarrow> UserStore_SnapshotTypeDef" where
  "userStore_Stamp candidate =
     (let candidate = candidate\<lparr>us_magic := 0x55534552, us_version := 1,
            us_generation := us_generation candidate + 1\<rparr>
      in candidate\<lparr>us_crc := userStore_Crc (take 652 (put_users candidate))\<rparr>)"

definition userStore_Save ::
  "UserStore_SnapshotTypeDef \<Rightarrow> UserStore_State \<Rightarrow> env \<Rightarrow> HealthCheck_StatusTypeDef \<times> UserStore_State \<times> env" where
  "userStore_Save candidate st env =
     (let target = (if us_activeAddress st = FLASH_LAYOUT_USER_STORE_SECTOR_A
                    then FLASH_LAYOUT_USER_STORE_SECTOR_B else FLASH_LAYOUT_USER_STORE_SECTOR_A);
          candidate = userStore_Stamp candidate;
          (s1, env1) = W25Q64_EraseSector target env in
      if s1 \<noteq> W25Q64_STATUS_OK then (HEALTH_CHECK_STATUS_ERROR, st, env1)
      else
        let (s2, env2) = W25Q64_Program target (Some (put_users candidate)) env1 in
        if s2 \<noteq> W25Q64_STATUS_OK then (HEALTH_CHECK_STATUS_ERROR, st, env2)
        else
          let (s3, d, env3) = W25Q64_Read target 656 env2;
              verification = get_users d in
          if s3 \<noteq> W25Q64_STATUS_OK \<or> \<not> userStore_IsValid verification
             \<or> us_generation verification \<noteq> us_generation candidate
          then (HEALTH_CHECK_STATUS_ERROR, st, env3)
          else (HEALTH_CHECK_STATUS_OK, st\<lparr>us_snapshot := candidate, us_activeAddress := target\<rparr>, env3))"

definition zero_user :: UserStore_RecordTypeDef where
  "zero_user = \<lparr>u_enabled = 0, u_role = 0, u_username = memset_chars 25, u_salt = replicate 16 0,
     u_verifier = replicate 32 0, u_padding = [0], u_iterations = 0\<rparr>"

definition zero_users :: UserStore_SnapshotTypeDef where
  "zero_users = \<lparr>us_magic = 0, us_version = 0, us_count = 0, us_generation = 0,
     us_users = replicate 8 zero_user, us_crc = 0\<rparr>"

definition UserStore_Init ::
  "UserStore_State \<Rightarrow> env \<Rightarrow> HealthCheck_StatusTypeDef \<times> UserStore_State \<times> env" where
  "UserStore_Init st env =
     (let (created, env0) = xSemaphoreCreateMutexStatic env in
      if \<not> created then (HEALTH_CHECK_STATUS_ERROR, st, env0)
      else
        let (firstValid, first, env1) =
              load_snapshot get_users 656 userStore_IsValid FLASH_LAYOUT_USER_STORE_SECTOR_A env0;
            (secondValid, second, env2) =
              load_snapshot get_users 656 userStore_IsValid FLASH_LAYOUT_USER_STORE_SECTOR_B env1;
            st = (if firstValid \<and> (\<not> secondValid \<or> us_generation first \<ge> us_generation second)
                  then st\<lparr>us_snapshot := first, us_activeAddress := FLASH_LAYOUT_USER_STORE_SECTOR_A\<rparr>
                  else if secondValid
                  then st\<lparr>us_snapshot := second, us_activeAddress := FLASH_LAYOUT_USER_STORE_SECTOR_B\<rparr>
                  else st\<lparr>us_snapshot := zero_users, us_activeAddress := FLASH_LAYOUT_USER_STORE_SECTOR_B\<rparr>)
        in (HEALTH_CHECK_STATUS_OK, st, env2))"

subsection \<open>Directory operations\<close>

text \<open>The search loops: the position of the first of the given records whose name
  compares equal, their number when there is none.\<close>

fun user_index :: "string \<Rightarrow> UserStore_RecordTypeDef list \<Rightarrow> nat" where
  "user_index username [] = 0"
| "user_index username (u # us) =
     (if c_str (u_username u) = c_str username then 0 else Suc (user_index username us))"

definition users_in_use :: "UserStore_SnapshotTypeDef \<Rightarrow> UserStore_RecordTypeDef list" where
  "users_in_use s = take (unat (us_count s)) (us_users s)"

definition UserStore_Find ::
  "string option \<Rightarrow> UserStore_State \<Rightarrow> env \<Rightarrow>
   HealthCheck_StatusTypeDef \<times> (UserStore_RecordTypeDef \<times> nat) option \<times> env" where
  "UserStore_Find username st env =
     (case username of
        None \<Rightarrow> (HEALTH_CHECK_STATUS_ERROR, None, env)
      | Some name \<Rightarrow>
          let (taken, env1) = xSemaphoreTake env in
          if \<not> taken then (HEALTH_CHECK_STATUS_ERROR, None, env1)
          else
            let position = user_index name (users_in_use (us_snapshot st)) in
            if position < unat (us_count (us_snapshot st))
            then (HEALTH_CHECK_STATUS_OK, Some (us_users (us_snapshot st) ! position, position), env1)
            else (HEALTH_CHECK_STATUS_ERROR, None, env1))"

definition UserStore_Put ::
  "UserStore_RecordTypeDef option \<Rightarrow> UserStore_State \<Rightarrow> env \<Rightarrow>
   HealthCheck_StatusTypeDef \<times> UserStore_State \<times> env" where
  "UserStore_Put r st env =
     (case r of
        None \<Rightarrow> (HEALTH_CHECK_STATUS_ERROR, st, env)
      | Some u \<Rightarrow>
          if c_str (u_username u) = [] then (HEALTH_CHECK_STATUS_ERROR, st, env)
          else
            let (taken, env1) = xSemaphoreTake env in
            if \<not> taken then (HEALTH_CHECK_STATUS_ERROR, st, env1)
            else
              let candidate = us_snapshot st;
                  position = user_index (u_username u) (users_in_use candidate) in
              if position = unat (us_count candidate) \<and> us_count candidate \<ge> 8
              then (HEALTH_CHECK_STATUS_ERROR, st, env1)
              else
                let candidate = (if position = unat (us_count candidate)
                                 then candidate\<lparr>us_count := us_count candidate + 1\<rparr> else candidate);
                    candidate = candidate\<lparr>us_users := (us_users candidate)[position := u]\<rparr>
                in userStore_Save candidate st env1)"

text \<open>The loop of \<open>UserStore_Delete\<close> that moves the records after the deleted one down.\<close>

function shift_users :: "nat \<Rightarrow> nat \<Rightarrow> UserStore_RecordTypeDef list \<Rightarrow> UserStore_RecordTypeDef list" where
  "shift_users tail count users =
     (if tail + 1 < count then shift_users (tail + 1) count (users[tail := users ! (tail + 1)]) else users)"
  by pat_completeness auto
termination
  by (relation "measure (\<lambda>(tail, count, users). count - tail)") auto

declare shift_users.simps [simp del]

definition UserStore_Delete ::
  "string option \<Rightarrow> UserStore_State \<Rightarrow> env \<Rightarrow> HealthCheck_StatusTypeDef \<times> UserStore_State \<times> env" where
  "UserStore_Delete username st env =
     (case username of
        None \<Rightarrow> (HEALTH_CHECK_STATUS_ERROR, st, env)
      | Some name \<Rightarrow>
          let (taken, env1) = xSemaphoreTake env in
          if \<not> taken then (HEALTH_CHECK_STATUS_ERROR, st, env1)
          else
            let candidate = us_snapshot st;
                position = user_index name (users_in_use candidate) in
            if position = unat (us_count candidate) then (HEALTH_CHECK_STATUS_ERROR, st, env1)
            else
              let candidate = candidate\<lparr>us_users :=
                    (shift_users position (unat (us_count candidate)) (us_users candidate))
                      [unat (us_count candidate) - 1 := zero_user]\<rparr>;
                  candidate = candidate\<lparr>us_count := us_count candidate - 1\<rparr>
              in userStore_Save candidate st env1)"

definition UserStore_List :: "nat \<Rightarrow> UserStore_State \<Rightarrow> env \<Rightarrow> UserStore_RecordTypeDef list \<times> env" where
  "UserStore_List capacity st env =
     (if capacity = 0 then ([], env)
      else
        let (taken, env1) = xSemaphoreTake env in
        if \<not> taken then ([], env1)
        else
          let count = (if unat (us_count (us_snapshot st)) < capacity then unat (us_count (us_snapshot st)) else capacity)
          in (take count (us_users (us_snapshot st)), env1))"

subsection \<open>Well-formed snapshots and the abstract directory\<close>

definition wf_user :: "UserStore_RecordTypeDef \<Rightarrow> bool" where
  "wf_user u \<longleftrightarrow> length (u_username u) = 25 \<and> length (u_salt u) = 16 \<and> length (u_verifier u) = 32 \<and>
     length (u_padding u) = 1"

definition wf_users :: "UserStore_SnapshotTypeDef \<Rightarrow> bool" where
  "wf_users s \<longleftrightarrow> length (us_users s) = 8 \<and> list_all wf_user (us_users s)"

definition users_fit :: "UserStore_SnapshotTypeDef \<Rightarrow> bool" where
  "users_fit s \<longleftrightarrow> wf_users s \<and> us_count s \<le> 8"

definition user_names :: "UserStore_SnapshotTypeDef \<Rightarrow> string list" where
  "user_names s = map (\<lambda>u. c_str (u_username u)) (users_in_use s)"

text \<open>Names are unique and not empty.\<close>

definition users_ok :: "UserStore_SnapshotTypeDef \<Rightarrow> bool" where
  "users_ok s \<longleftrightarrow> users_fit s \<and> distinct (user_names s) \<and> [] \<notin> set (user_names s)"

definition user_view :: "UserStore_SnapshotTypeDef \<Rightarrow> string \<Rightarrow> UserStore_RecordTypeDef option" where
  "user_view s = map_of (map (\<lambda>u. (c_str (u_username u), u)) (users_in_use s))"

datatype user_request = Put_User "UserStore_RecordTypeDef option" | Delete_User "string option"

fun user_serve :: "user_request \<Rightarrow> UserStore_State \<Rightarrow> env \<Rightarrow> HealthCheck_StatusTypeDef \<times> UserStore_State \<times> env" where
  "user_serve (Put_User r) st env = UserStore_Put r st env"
| "user_serve (Delete_User name) st env = UserStore_Delete name st env"

text \<open>The abstract directory: \<open>None\<close> is a refusal.\<close>

fun user_spec :: "user_request \<Rightarrow> (string \<Rightarrow> UserStore_RecordTypeDef option) \<Rightarrow>
    (string \<Rightarrow> UserStore_RecordTypeDef option) option" where
  "user_spec (Put_User r) m =
     (case r of None \<Rightarrow> None
      | Some u \<Rightarrow>
          let name = c_str (u_username u) in
          if name = [] \<or> (name \<notin> dom m \<and> card (dom m) \<ge> 8) then None else Some (m(name \<mapsto> u)))"
| "user_spec (Delete_User r) m =
     (case r of None \<Rightarrow> None
      | Some name \<Rightarrow> if c_str name \<notin> dom m then None else Some (m(c_str name := None)))"

text \<open>The snapshot a request wants to store.\<close>

fun user_candidate :: "user_request \<Rightarrow> UserStore_SnapshotTypeDef \<Rightarrow> UserStore_SnapshotTypeDef" where
  "user_candidate (Put_User r) s =
     (let position = user_index (u_username (the r)) (users_in_use s);
          s' = (if position = unat (us_count s) then s\<lparr>us_count := us_count s + 1\<rparr> else s)
      in s'\<lparr>us_users := (us_users s)[position := the r]\<rparr>)"
| "user_candidate (Delete_User name) s =
     (let position = user_index (the name) (users_in_use s)
      in s\<lparr>us_users := (shift_users position (unat (us_count s)) (us_users s))[unat (us_count s) - 1 := zero_user],
           us_count := us_count s - 1\<rparr>)"

fun user_request_wf :: "user_request \<Rightarrow> bool" where
  "user_request_wf (Put_User (Some u)) = wf_user u"
| "user_request_wf _ = True"

abbreviation user_held :: "(nat \<Rightarrow> u8) \<Rightarrow> u32 \<Rightarrow> UserStore_SnapshotTypeDef option" where
  "user_held c sector \<equiv> snapshot_at get_users 656 userStore_IsValid c sector"

abbreviation users_rest :: "UserStore_State \<Rightarrow> (nat \<Rightarrow> u8) \<Rightarrow> bool" where
  "users_rest st c \<equiv> at_rest get_users 656 userStore_IsValid us_generation FLASH_LAYOUT_USER_STORE_SECTOR_A
     FLASH_LAYOUT_USER_STORE_SECTOR_B (us_snapshot st) (us_activeAddress st) c"

abbreviation (input) users_inactive :: "UserStore_State \<Rightarrow> u32" where
  "users_inactive st \<equiv> other_sector FLASH_LAYOUT_USER_STORE_SECTOR_A FLASH_LAYOUT_USER_STORE_SECTOR_B
     (us_activeAddress st)"

definition users_static :: UserStore_State where
  "users_static = \<lparr>us_snapshot = zero_users, us_activeAddress = FLASH_LAYOUT_USER_STORE_SECTOR_B\<rparr>"

definition sample_user :: "string \<Rightarrow> UserStore_RecordTypeDef" where
  "sample_user name = zero_user\<lparr>u_enabled := 1, u_username := strncpy (memset_chars 25) name 24\<rparr>"

subsection \<open>Object representations round trip\<close>

lemma length_put_user [simp]: "wf_user u \<Longrightarrow> length (put_user u) = 80"
  by (simp add: put_user_def wf_user_def)

lemma get_put_user [codec]: "wf_user u \<Longrightarrow> get_user (put_user u @ bs) = (u, bs)"
  by (simp add: get_user_def put_user_def wf_user_def)

lemma length_put_users: "wf_users s \<Longrightarrow> length (put_users s) = 656"
  by (simp add: put_users_def wf_users_def length_put_array[where n = 80] list_all_iff)

lemma get_put_users: "wf_users s \<Longrightarrow> get_users (put_users s) = s"
proof -
  assume wf: "wf_users s"
  have "get_array 8 get_user (put_array put_user (us_users s) @ bs) = (us_users s, bs)" for bs
    using wf by (intro get_put_array) (auto simp: wf_users_def list_all_iff get_put_user)
  moreover have "get_u32 (put_u32 (us_crc s)) = (us_crc s, [])"
    using get_put_u32[of "us_crc s" "[]"] by simp
  ultimately show ?thesis
    by (simp add: get_users_def put_users_def)
qed

lemma snd_get_user [simp]: "snd (get_user bs) = drop 80 bs"
  by (simp add: get_user_def case_prod_unfold Let_def)

lemma wf_get_user: "80 \<le> length bs \<Longrightarrow> wf_user (fst (get_user bs))"
  by (simp add: get_user_def wf_user_def case_prod_unfold Let_def fst_get_bytes)

lemma wf_get_users: "length bs = 656 \<Longrightarrow> wf_users (get_users bs)"
  by (simp add: get_users_def wf_users_def case_prod_unfold Let_def wf_get_array[where k = 80] wf_get_user)

subsection \<open>The stamp\<close>

lemma us_Stamp_fields [simp]:
  "us_generation (userStore_Stamp s) = us_generation s + 1" "us_count (userStore_Stamp s) = us_count s"
  "us_users (userStore_Stamp s) = us_users s"
  by (simp_all add: userStore_Stamp_def Let_def)

lemma us_Stamp_views [simp]:
  "wf_users (userStore_Stamp s) = wf_users s" "users_in_use (userStore_Stamp s) = users_in_use s"
  "user_view (userStore_Stamp s) = user_view s" "users_ok (userStore_Stamp s) = users_ok s"
  by (simp_all add: wf_users_def users_in_use_def user_view_def users_ok_def users_fit_def user_names_def)

lemma us_Stamp_valid:
  assumes "users_fit s"
  shows "userStore_IsValid (userStore_Stamp s)"
proof -
  have "take 652 (put_users (t\<lparr>us_crc := c\<rparr>)) = take 652 (put_users t)" if "wf_users t" for t c
    using that by (simp add: put_users_def wf_users_def length_put_array[where n = 80] list_all_iff)
  moreover have "wf_users (s\<lparr>us_magic := 0x55534552, us_version := 1, us_generation := us_generation s + 1\<rparr>)"
    using assms by (simp add: wf_users_def users_fit_def)
  ultimately show ?thesis
    using assms by (simp add: userStore_IsValid_def userStore_Stamp_def users_fit_def Let_def)
qed

subsection \<open>The store is an A/B service\<close>

interpretation uss: ab_service W25Q64_EraseSector put_users get_users 656 4096
  wf_users userStore_IsValid us_generation
  FLASH_LAYOUT_USER_STORE_SECTOR_A FLASH_LAYOUT_USER_STORE_SECTOR_B userStore_Stamp users_fit
proof (unfold_locales, goal_cases)
  case (8 sector env)
  then show ?case
    by (intro sector_erase(1)[where n = 0]) (auto simp: layout)
next
  case (9 sector env env')
  then show ?case
    by (intro sector_erase(2)) (auto simp: layout)
next
  case (10 sector env)
  then show ?case
    by (intro sector_erase(3)[where n = 0]) (auto simp: layout)
qed (simp_all add: get_put_users length_put_users wf_get_users us_Stamp_valid users_fit_def layout)

lemma us_Save_ab_save:
  "userStore_Save candidate st env =
     (case uss.save (us_activeAddress st) candidate env of
        (None, env') \<Rightarrow> (HEALTH_CHECK_STATUS_ERROR, st, env')
      | (Some (_, a), env') \<Rightarrow> (HEALTH_CHECK_STATUS_OK,
           st\<lparr>us_snapshot := userStore_Stamp candidate, us_activeAddress := a\<rparr>, env'))"
  by (simp add: userStore_Save_def ab_save_def ab_write_def ab_accepts_def other_sector_def Let_def
      split: prod.splits)

lemma us_Init_ab_load:
  "UserStore_Init st env =
     (let (created, env0) = xSemaphoreCreateMutexStatic env in
      if \<not> created then (HEALTH_CHECK_STATUS_ERROR, st, env0)
      else case uss.load env0 of
        (Some (s, a), env1) \<Rightarrow> (HEALTH_CHECK_STATUS_OK, \<lparr>us_snapshot = s, us_activeAddress = a\<rparr>, env1)
      | (None, env1) \<Rightarrow> (HEALTH_CHECK_STATUS_OK, users_static, env1))"
  by (cases st) (simp add: UserStore_Init_def ab_load_def newest_def users_static_def Let_def split: prod.splits)

subsection \<open>Searching and closing the gap\<close>

lemma user_index_le: "user_index name us \<le> length us"
  by (induction us) auto

lemma user_index_absent: "user_index name us = length us \<longleftrightarrow> c_str name \<notin> set (map (\<lambda>u. c_str (u_username u)) us)"
  by (induction us) auto

lemma user_index_found:
  "user_index name us < length us \<Longrightarrow> c_str (u_username (us ! user_index name us)) = c_str name"
  by (induction us) auto

lemma user_index_map_of:
  "map_of (map (\<lambda>u. (c_str (u_username u), u)) us) (c_str name) =
     (if user_index name us < length us then Some (us ! user_index name us) else None)"
  by (induction us) auto

lemma map_of_list_update:
  assumes "i < length us" "distinct (map f us)" "f u = f (us ! i)"
  shows "map_of (map (\<lambda>u. (f u, u)) (us[i := u])) = (map_of (map (\<lambda>u. (f u, u)) us))(f u \<mapsto> u)"
  using assms
proof (induction us arbitrary: i)
  case (Cons v us)
  then show ?case
  proof (cases i)
    case (Suc j)
    then have "f u \<noteq> f v"
      using Cons.prems by (auto simp: in_set_conv_nth) (metis Suc nth_mem image_eqI)
    then show ?thesis
      using Cons.IH[of j] Cons.prems Suc by (auto simp: fun_eq_iff)
  qed auto
qed simp

lemma map_of_remove_nth:
  assumes "i < length us" "distinct (map f us)"
  shows "map_of (map (\<lambda>u. (f u, u)) (take i us @ drop (Suc i) us)) =
    (map_of (map (\<lambda>u. (f u, u)) us))(f (us ! i) := None)"
  using assms
proof (induction us arbitrary: i)
  case (Cons v us)
  show ?case
  proof (cases i)
    case 0
    have "map_of (map (\<lambda>u. (f u, u)) us) (f v) = None"
      using Cons.prems(2) by (auto simp: map_of_eq_None_iff)
    then show ?thesis
      using 0 by (auto simp: fun_eq_iff)
  next
    case (Suc j)
    then have "f (us ! j) \<noteq> f v"
      using Cons.prems by (auto simp: in_set_conv_nth) (metis nth_mem image_eqI)
    then show ?thesis
      using Cons.IH[of j] Cons.prems Suc by (auto simp: fun_eq_iff)
  qed
qed simp

lemma length_shift_users [simp]: "length (shift_users tail count users) = length users"
  by (induction tail count users rule: shift_users.induct) (subst shift_users.simps, auto)

lemma shift_users_set: "count \<le> length users \<Longrightarrow> set (shift_users tail count users) \<subseteq> set users"
proof (induction tail count users rule: shift_users.induct)
  case (1 tail count users)
  show ?case
  proof (cases "tail + 1 < count")
    case True
    then have "set (shift_users tail count users) \<subseteq> set (users[tail := users ! (tail + 1)])"
      using 1 by (subst shift_users.simps) simp
    also have "\<dots> \<subseteq> insert (users ! (tail + 1)) (set users)"
      by (rule set_update_subset_insert)
    also have "\<dots> = set users"
      using True "1.prems" by auto
    finally show ?thesis .
  qed (subst shift_users.simps, simp)
qed

lemma shift_users_take:
  "tail < count \<Longrightarrow> count \<le> length users \<Longrightarrow>
     take (count - 1) (shift_users tail count users) = take tail users @ drop (Suc tail) (take count users)"
proof (induction tail count users rule: shift_users.induct)
  case (1 tail count users)
  show ?case
  proof (cases "tail + 1 < count")
    case True
    then have "take (count - 1) (shift_users tail count users) =
        take (tail + 1) (users[tail := users ! (tail + 1)]) @
        drop (Suc (tail + 1)) (take count (users[tail := users ! (tail + 1)]))"
      using 1 by (subst shift_users.simps) simp
    also have "\<dots> = take tail users @ users ! (tail + 1) # drop (Suc (tail + 1)) (take count users)"
      using True "1.prems" by (simp add: take_Suc_conv_app_nth take_update_swap drop_update_cancel list_update_append)
    also have "\<dots> = take tail users @ drop (Suc tail) (take count users)"
      using True "1.prems" by (simp add: Cons_nth_drop_Suc[symmetric])
    finally show ?thesis .
  next
    case False
    then have "count = Suc tail"
      using "1.prems" by simp
    then show ?thesis
      by (subst shift_users.simps) simp
  qed
qed

subsection \<open>The candidate of a request\<close>

lemma users_in_use_length: "users_fit s \<Longrightarrow> length (users_in_use s) = unat (us_count s)"
  by (simp add: users_in_use_def users_fit_def wf_users_def word_le_nat_alt)

lemma user_view_dom: "dom (user_view s) = set (user_names s)"
  by (simp add: user_view_def user_names_def dom_map_of_conv_image_fst image_image)

lemma user_view_card: "users_ok s \<Longrightarrow> card (dom (user_view s)) = unat (us_count s)"
  by (simp add: user_view_dom users_ok_def distinct_card users_in_use_length) (simp add: user_names_def users_in_use_length)

lemma wf_users_update:
  "wf_users s \<Longrightarrow> wf_user u \<Longrightarrow> wf_users (s\<lparr>us_users := (us_users s)[i := u]\<rparr>)"
  by (auto simp: wf_users_def list_all_iff dest!: set_update_subset_insert[THEN subsetD])

lemma put_replaces:
  assumes ok: "users_ok s" and "c_str (u_username u) \<in> dom (user_view s)"
  shows "users_in_use (user_candidate (Put_User (Some u)) s) =
      (users_in_use s)[user_index (u_username u) (users_in_use s) := u]"
    and "us_count (user_candidate (Put_User (Some u)) s) = us_count s"
proof -
  have "user_index (u_username u) (users_in_use s) \<noteq> unat (us_count s)"
    using assms user_index_absent[of "u_username u" "users_in_use s"]
    by (simp add: user_view_dom user_names_def users_in_use_length users_ok_def)
  then show "users_in_use (user_candidate (Put_User (Some u)) s) =
      (users_in_use s)[user_index (u_username u) (users_in_use s) := u]"
    "us_count (user_candidate (Put_User (Some u)) s) = us_count s"
    by (simp_all add: Let_def) (simp add: users_in_use_def take_update_swap)
qed

lemma unat_count_Suc: "c < (8 :: u16) \<Longrightarrow> unat (c + 1) = Suc (unat c)"
  by (simp add: word_less_nat_alt unat_add_no_wrap)

lemma put_appends:
  assumes ok: "users_ok s" and "c_str (u_username u) \<notin> dom (user_view s)" "card (dom (user_view s)) < 8"
  shows "users_in_use (user_candidate (Put_User (Some u)) s) = users_in_use s @ [u]"
    and "unat (us_count (user_candidate (Put_User (Some u)) s)) = Suc (unat (us_count s))"
proof -
  have fit: "users_fit s"
    using ok by (simp add: users_ok_def)
  have pos: "user_index (u_username u) (users_in_use s) = unat (us_count s)"
    using assms user_index_absent[of "u_username u" "users_in_use s"]
    by (simp add: user_view_dom user_names_def users_in_use_length[OF fit])
  have lt: "unat (us_count s) < 8"
    using assms user_view_card[OF ok] by simp
  then have suc: "unat (us_count s + 1) = Suc (unat (us_count s))"
    by (simp add: unat_count_Suc word_less_nat_alt)
  then show "unat (us_count (user_candidate (Put_User (Some u)) s)) = Suc (unat (us_count s))"
    by (simp add: pos)
  show "users_in_use (user_candidate (Put_User (Some u)) s) = users_in_use s @ [u]"
    using fit lt suc
    by (simp add: pos users_in_use_def[of "user_candidate _ _"])
      (simp add: users_in_use_def users_fit_def wf_users_def take_Suc_conv_app_nth)
qed

lemma delete_removes:
  assumes ok: "users_ok s" and "c_str name \<in> dom (user_view s)"
  shows "users_in_use (user_candidate (Delete_User (Some name)) s) =
      take (user_index name (users_in_use s)) (users_in_use s) @ drop (Suc (user_index name (users_in_use s))) (users_in_use s)"
    and "user_index name (users_in_use s) < length (users_in_use s)"
    and "unat (us_count (user_candidate (Delete_User (Some name)) s)) = unat (us_count s) - 1"
proof -
  have fit: "users_fit s"
    using ok by (simp add: users_ok_def)
  show lt: "user_index name (users_in_use s) < length (users_in_use s)"
    using assms(2) user_index_absent[of name "users_in_use s"] user_index_le[of name "users_in_use s"]
    by (simp add: user_view_dom user_names_def)
  have n: "unat (us_count s) \<le> 8" "0 < unat (us_count s)"
    using fit lt users_in_use_length[OF fit] by (auto simp: users_fit_def word_le_nat_alt)
  then have "unat (us_count s - 1) = unat (us_count s) - 1"
    by (simp add: unat_minus_one[unfolded unat_eq_0] unat_sub_if' word_less_nat_alt)
  then show cnt: "unat (us_count (user_candidate (Delete_User (Some name)) s)) = unat (us_count s) - 1"
    by (simp add: Let_def)
  show "users_in_use (user_candidate (Delete_User (Some name)) s) =
      take (user_index name (users_in_use s)) (users_in_use s) @ drop (Suc (user_index name (users_in_use s))) (users_in_use s)"
    using shift_users_take[of "user_index name (users_in_use s)" "unat (us_count s)" "us_users s"] lt n fit cnt
    by (simp add: users_in_use_length users_in_use_def[of "user_candidate _ _"] Let_def)
      (simp add: users_in_use_def users_fit_def wf_users_def)
qed

declare user_candidate.simps [simp del]

lemma user_candidate_generation [simp]: "us_generation (user_candidate req s) = us_generation s"
  by (cases req) (simp_all add: user_candidate.simps Let_def)

lemma user_candidate_put:
  assumes ok: "users_ok s" "wf_user u" and spec: "user_spec (Put_User (Some u)) (user_view s) = Some v"
  shows "users_ok (user_candidate (Put_User (Some u)) s)" "user_view (user_candidate (Put_User (Some u)) s) = v"
proof -
  let ?c = "user_candidate (Put_User (Some u)) s" and ?i = "user_index (u_username u) (users_in_use s)"
  have fit: "users_fit s" and dist: "distinct (user_names s)" "[] \<notin> set (user_names s)"
    using ok by (simp_all add: users_ok_def)
  have v: "v = (user_view s)(c_str (u_username u) \<mapsto> u)" and ne: "c_str (u_username u) \<noteq> []"
    and room: "c_str (u_username u) \<notin> dom (user_view s) \<Longrightarrow> card (dom (user_view s)) < 8"
    using spec by (auto simp: Let_def split: if_splits)
  have wf: "wf_users ?c"
    using fit ok(2) wf_users_update by (simp add: users_fit_def user_candidate.simps Let_def) (simp add: wf_users_def)
  show "users_ok ?c"
  proof (cases "c_str (u_username u) \<in> dom (user_view s)")
    case True
    note r = put_replaces[OF ok(1) True]
    have "?i < length (users_in_use s)"
      using True user_index_absent[of "u_username u" "users_in_use s"] user_index_le[of "u_username u" "users_in_use s"]
      by (simp add: user_view_dom user_names_def)
    then have "user_names ?c = user_names s"
      using r(1) user_index_found[of "u_username u" "users_in_use s"]
      by (simp add: user_names_def map_update) (metis length_map list_update_id nth_map)
    then show ?thesis
      using wf r(2) fit dist by (simp add: users_ok_def users_fit_def)
  next
    case False
    note r = put_appends[OF ok(1) False room[OF False]]
    have "us_count ?c \<le> 8"
      using r(2) room[OF False] user_view_card[OF ok(1)] by (simp add: word_le_nat_alt)
    moreover have "user_names ?c = user_names s @ [c_str (u_username u)]"
      by (simp add: user_names_def r(1))
    ultimately show ?thesis
      using wf dist ne False by (simp add: users_ok_def users_fit_def user_view_dom)
  qed
  show "user_view ?c = v"
  proof (cases "c_str (u_username u) \<in> dom (user_view s)")
    case True
    note r = put_replaces(1)[OF ok(1) True]
    have lt: "?i < length (users_in_use s)"
      using True user_index_absent[of "u_username u" "users_in_use s"] user_index_le[of "u_username u" "users_in_use s"]
      by (simp add: user_view_dom user_names_def)
    then show ?thesis
      using map_of_list_update[OF lt, of "\<lambda>u. c_str (u_username u)" u] dist(1)
        user_index_found[OF lt] v r by (simp add: user_view_def user_names_def)
  next
    case False
    have "map_of (map (\<lambda>u. (c_str (u_username u), u)) (users_in_use s)) (c_str (u_username u)) = None"
      using False by (simp add: user_view_def domIff)
    then show ?thesis
      using v put_appends(1)[OF ok(1) False room[OF False]]
      by (simp add: user_view_def fun_eq_iff map_add_def split: option.splits)
  qed
qed

lemma user_candidate_delete:
  assumes ok: "users_ok s" and spec: "user_spec (Delete_User (Some name)) (user_view s) = Some v"
  shows "users_ok (user_candidate (Delete_User (Some name)) s)" "user_view (user_candidate (Delete_User (Some name)) s) = v"
proof -
  let ?c = "user_candidate (Delete_User (Some name)) s" and ?i = "user_index name (users_in_use s)"
  have fit: "users_fit s" and dist: "distinct (user_names s)" "[] \<notin> set (user_names s)"
    using ok by (simp_all add: users_ok_def)
  have v: "v = (user_view s)(c_str name := None)" and isin: "c_str name \<in> dom (user_view s)"
    using spec by (auto split: if_splits)
  note r = delete_removes[OF ok isin]
  have names: "user_names ?c = take ?i (user_names s) @ drop (Suc ?i) (user_names s)"
    using r(1) by (simp add: user_names_def take_map drop_map)
  have "set (shift_users ?i (unat (us_count s)) (us_users s)) \<subseteq> set (us_users s)"
    using fit by (intro shift_users_set) (simp add: users_fit_def wf_users_def word_le_nat_alt)
  then have "wf_users ?c"
    using fit
    by (auto simp: users_fit_def wf_users_def list_all_iff user_candidate.simps Let_def zero_user_def wf_user_def memset_chars_def
        dest!: set_update_subset_insert[THEN subsetD])
  moreover have "us_count ?c \<le> 8"
    using r(3) fit by (auto simp: users_fit_def word_le_nat_alt)
  moreover have "distinct (user_names ?c)" "[] \<notin> set (user_names ?c)"
    using dist id_take_nth_drop[of ?i "user_names s"] r(2) names
    by (auto simp: user_names_def set_drop_subset dest: in_set_takeD in_set_dropD)
      (metis distinct_append distinct_drop distinct_take disjoint_iff set_take_disj_set_drop_if_distinct le_SucI order_refl)
  ultimately show "users_ok ?c"
    by (simp add: users_ok_def users_fit_def)
  show "user_view ?c = v"
    using map_of_remove_nth[OF r(2), of "\<lambda>u. c_str (u_username u)"] dist(1) user_index_found[OF r(2)] r(1) v
    by (simp add: user_view_def user_names_def)
qed

lemma user_candidate_spec:
  assumes "users_ok s" "user_request_wf req" "user_spec req (user_view s) = Some v"
  shows "users_ok (user_candidate req s)" "user_view (user_candidate req s) = v"
proof -
  have "users_ok (user_candidate req s) \<and> user_view (user_candidate req s) = v"
  proof (cases req)
    case (Put_User r)
    then obtain u where u: "req = Put_User (Some u)"
      using assms(3) by (cases r) auto
    then show ?thesis
      using user_candidate_put[OF assms(1), of u v] assms(2,3) by simp
  next
    case (Delete_User r)
    then obtain name where "req = Delete_User (Some name)"
      using assms(3) by (cases r) auto
    then show ?thesis
      using user_candidate_delete[OF assms(1), of name v] assms(3) by simp
  qed
  then show "users_ok (user_candidate req s)" "user_view (user_candidate req s) = v"
    by simp_all
qed

subsection \<open>One request\<close>

lemma user_serve_cases:
  assumes run: "user_serve req st env = (status, st', env')" and ok: "users_ok (us_snapshot st)"
  shows "case user_spec req (user_view (us_snapshot st)) of
      None \<Rightarrow> status = HEALTH_CHECK_STATUS_ERROR \<and> st' = st \<and> touches 0 0 env env'
    | Some _ \<Rightarrow> (status = HEALTH_CHECK_STATUS_ERROR \<and> st' = st \<and> touches 0 0 env env' \<and> \<not> healthy env) \<or>
        (\<exists>env1. touches 0 0 env env1 \<and> userStore_Save (user_candidate req (us_snapshot st)) st env1 = (status, st', env'))"
proof -
  let ?s = "us_snapshot st"
  obtain b env1 where l: "xSemaphoreTake env = (b, env1)" by fastforce
  note lk = xSemaphoreTake_frame[OF l]
  have fit: "users_fit ?s" and cnt: "unat (us_count ?s) \<le> 8"
    using ok by (auto simp: users_ok_def users_fit_def word_le_nat_alt)
  have absent: "user_index name (users_in_use ?s) = unat (us_count ?s) \<longleftrightarrow> c_str name \<notin> dom (user_view ?s)" for name
    using user_index_absent[of name "users_in_use ?s"]
    by (simp add: users_in_use_length[OF fit] user_view_dom user_names_def)
  show ?thesis
  proof (cases req)
    case (Put_User r)
    show ?thesis
    proof (cases "r = None \<or> c_str (u_username (the r)) = []")
      case True
      then show ?thesis
        using run Put_User by (auto simp: UserStore_Put_def Let_def touches_refl split: option.splits)
    next
      case False
      then obtain u where u: "r = Some u" "c_str (u_username u) \<noteq> []" by auto
      show ?thesis
        using run Put_User u lk absent[of "u_username u"] user_view_card[OF ok] cnt
        by (cases b) (auto simp: UserStore_Put_def l Let_def user_candidate.simps word_le_nat_alt split: if_splits)
    qed
  next
    case (Delete_User r)
    show ?thesis
    proof (cases r)
      case None
      then show ?thesis
        using run Delete_User by (auto simp: UserStore_Delete_def touches_refl)
    next
      case (Some name)
      then show ?thesis
        using run Delete_User lk absent[of name]
        by (cases b) (auto simp: UserStore_Delete_def l Let_def user_candidate.simps split: if_splits)
    qed
  qed
qed

lemma users_ok_fit: "users_ok s \<Longrightarrow> users_fit s"
  by (simp add: users_ok_def)

lemma user_serve_healthy:
  assumes rest: "users_rest st (cells env)" "us_generation (us_snapshot st) \<noteq> - 1"
    and ok: "users_ok (us_snapshot st)" "user_request_wf req" "healthy env"
    and spec: "user_spec req (user_view (us_snapshot st)) = Some v"
    and run: "user_serve req st env = (status, st', env')"
  shows "status = HEALTH_CHECK_STATUS_OK" "healthy env'" "users_rest st' (cells env')"
    "us_snapshot st' = userStore_Stamp (user_candidate req (us_snapshot st))"
proof -
  obtain env1 where e: "touches 0 0 env env1"
    "userStore_Save (user_candidate req (us_snapshot st)) st env1 = (status, st', env')"
    using user_serve_cases[OF run ok(1)] spec ok(3) by auto
  have h: "healthy env1" "users_rest st (cells env1)"
    using touches_healthy[OF e(1) ok(3)] rest(1) touches_nothing(2)[OF e(1)] by simp_all
  have fit: "users_fit (user_candidate req (us_snapshot st))"
    using user_candidate_spec(1)[OF ok(1,2) spec] by (rule users_ok_fit)
  obtain env2 where s: "uss.save (us_activeAddress st) (user_candidate req (us_snapshot st)) env1 =
      (Some (userStore_Stamp (user_candidate req (us_snapshot st)), users_inactive st), env2)" "healthy env2"
    using uss.save_healthy[OF fit h(1), of "us_activeAddress st"] by blast
  have r: "status = HEALTH_CHECK_STATUS_OK" "env' = env2"
    "st' = \<lparr>us_snapshot = userStore_Stamp (user_candidate req (us_snapshot st)), us_activeAddress = users_inactive st\<rparr>"
    using e(2) s(1) by (cases st; auto simp: us_Save_ab_save)+
  have "uss.published (userStore_Stamp (user_candidate req (us_snapshot st))) (users_inactive st) (cells env2)"
    using uss.save_rest[OF h(2) fit _ rest(2) s(1)] by simp
  then show "status = HEALTH_CHECK_STATUS_OK" "healthy env'" "users_rest st' (cells env')"
    "us_snapshot st' = userStore_Stamp (user_candidate req (us_snapshot st))"
    using r s(2) uss.published_rests by simp_all
qed

lemma users_first: "users_rest users_static (cells blank_env)" "users_ok (us_snapshot users_static)"
  "us_generation (us_snapshot users_static) = 0" "user_view (us_snapshot users_static) = Map.empty"
proof -
  have "\<not> userStore_IsValid (get_users (replicate 656 0xFF))"
    by (simp add: userStore_IsValid_def get_users_def case_prod_unfold Let_def get_u32_blank)
  then have "user_held (cells blank_env) x = None" for x
    by (simp add: snapshot_at_blank)
  then show "users_rest users_static (cells blank_env)"
    by (simp add: at_rest_def users_static_def zero_users_def)
  show "users_ok (us_snapshot users_static)" "us_generation (us_snapshot users_static) = 0"
    "user_view (us_snapshot users_static) = Map.empty"
    by (simp_all add: users_static_def zero_users_def users_ok_def users_fit_def wf_users_def user_names_def
        users_in_use_def user_view_def list_all_iff zero_user_def wf_user_def memset_chars_def)
qed

lemma wf_sample_user: "wf_user (sample_user name)"
  by (simp add: wf_user_def sample_user_def zero_user_def length_strncpy memset_chars_def)

text \<open>C15: the user store is a map from names to records: on hardware that answers, a
  request the abstract directory refuses (no name, an unknown name for a deletion, a ninth
  account) fails with no effect; any other request succeeds and the directory changes
  exactly at the named account.  Names stay unique and nonempty, and the next request
  meets the same conditions again.\<close>

theorem user_store_refines_map:
  assumes "users_rest st (cells env)" "us_generation (us_snapshot st) \<noteq> - 1"
    "users_ok (us_snapshot st)" "user_request_wf req" "healthy env"
    and "user_serve req st env = (status, st', env')"
  shows "healthy env' \<and> users_rest st' (cells env') \<and> users_ok (us_snapshot st') \<and>
    (case user_spec req (user_view (us_snapshot st)) of
       None \<Rightarrow> status = HEALTH_CHECK_STATUS_ERROR \<and> st' = st \<and> cells env' = cells env
     | Some m \<Rightarrow> status = HEALTH_CHECK_STATUS_OK \<and> user_view (us_snapshot st') = m)"
proof (cases "user_spec req (user_view (us_snapshot st))")
  case None
  then have "status = HEALTH_CHECK_STATUS_ERROR" "st' = st" and t: "touches 0 0 env env'"
    using user_serve_cases[OF assms(6,3)] by simp_all
  then show ?thesis
    using None assms(1,3) touches_healthy[OF t assms(5)] touches_nothing(2)[OF t] by simp
next
  case (Some m)
  note h = user_serve_healthy[OF assms(1-5) Some assms(6)]
  then show ?thesis
    using Some user_candidate_spec[OF assms(3,4) Some] by simp
qed

theorem user_store_refines_map_witness:
  "user_view (us_snapshot (fst (snd (user_serve (Put_User (Some (sample_user ''ann''))) users_static blank_env))))
     = [''ann'' \<mapsto> sample_user ''ann'']"
proof -
  let ?req = "Put_User (Some (sample_user ''ann''))"
  obtain status st' env' where run: "user_serve ?req users_static blank_env = (status, st', env')"
    using prod_cases3 by blast
  have name: "c_str (u_username (sample_user ''ann'')) = ''ann''"
    by (simp add: sample_user_def c_str_strncpy)
  have gen: "us_generation (us_snapshot users_static) \<noteq> - 1"
    by (simp add: users_first(3))
  have "user_request_wf ?req" "healthy blank_env"
    by (simp_all add: wf_sample_user healthy_def blank_env_def)
  from user_store_refines_map[OF users_first(1) gen users_first(2) this run]
  have "user_view (us_snapshot st') = [''ann'' \<mapsto> sample_user ''ann'']"
    by (simp add: name users_first(4) Let_def)
  then show ?thesis
    by (simp only: run fst_conv snd_conv)
qed

text \<open>C29: looking up a name gives exactly the record the directory has for it, with a slot
  that holds it, and an error when it has none; the listing returns the directory's
  records in slot order, cut to the caller's capacity.\<close>

theorem user_find_exact:
  assumes "users_ok (us_snapshot st)" "healthy env"
  shows "(case user_view (us_snapshot st) (c_str name) of
      None \<Rightarrow> fst (UserStore_Find (Some name) st env) = HEALTH_CHECK_STATUS_ERROR
    | Some u \<Rightarrow> \<exists>i env'. UserStore_Find (Some name) st env = (HEALTH_CHECK_STATUS_OK, Some (u, i), env') \<and>
        i < unat (us_count (us_snapshot st)) \<and> us_users (us_snapshot st) ! i = u) \<and>
    fst (UserStore_List capacity st env) = take capacity (users_in_use (us_snapshot st))"
proof -
  obtain b env1 where l: "xSemaphoreTake env = (b, env1)" by fastforce
  have b: b
    using xSemaphoreTake_frame(3)[OF l assms(2)] by simp
  have len: "length (users_in_use (us_snapshot st)) = unat (us_count (us_snapshot st))"
    using users_in_use_length[OF users_ok_fit[OF assms(1)]] .
  have nth: "i < unat (us_count (us_snapshot st)) \<Longrightarrow> users_in_use (us_snapshot st) ! i = us_users (us_snapshot st) ! i" for i
    by (simp add: users_in_use_def)
  show ?thesis
    using b user_index_map_of[of "users_in_use (us_snapshot st)" name] nth len
    by (auto simp: UserStore_Find_def UserStore_List_def l user_view_def Let_def min_def users_in_use_def
        split: if_splits option.splits)
qed

theorem user_find_exact_witness:
  "fst (UserStore_Find (Some ''ann'') users_static blank_env) = HEALTH_CHECK_STATUS_ERROR"
  using user_find_exact[of users_static blank_env "''ann''" 1] users_first(2,4)
  by (simp add: healthy_def blank_env_def)

subsection \<open>Faults and restarts\<close>

lemma us_Init_load:
  assumes "healthy env"
  shows "\<exists>env0. healthy env0 \<and> cells env0 = cells env \<and>
    (\<forall>r env1. uss.load env0 = (r, env1) \<longrightarrow> UserStore_Init st env = (HEALTH_CHECK_STATUS_OK,
       (case r of None \<Rightarrow> users_static | Some (s, a) \<Rightarrow> \<lparr>us_snapshot = s, us_activeAddress = a\<rparr>), env1))"
proof -
  obtain b env0 where m: "xSemaphoreCreateMutexStatic env = (b, env0)" by fastforce
  note mk = xSemaphoreCreateMutexStatic_frame[OF m]
  show ?thesis
    using mk(1) mk(3)[OF assms] by (intro exI[of _ env0]) (auto simp: us_Init_ab_load m split: option.splits)
qed

lemma user_serve_stores:
  assumes "users_rest st (cells env)" "users_ok (us_snapshot st)" "user_request_wf req"
    "user_serve req st env = (status, st', env')" "status = HEALTH_CHECK_STATUS_OK"
  shows "user_held (cells env') (users_inactive st) = Some (userStore_Stamp (user_candidate req (us_snapshot st)))"
proof -
  let ?cand = "user_candidate req (us_snapshot st)"
  obtain v env1 where saved: "user_spec req (user_view (us_snapshot st)) = Some v" "userStore_Save ?cand st env1 = (status, st', env')"
    using user_serve_cases[OF assms(4,2)] assms(5) by (auto split: option.splits)
  obtain r env2 where s: "uss.save (us_activeAddress st) ?cand env1 = (r, env2)" by fastforce
  have "r \<noteq> None" "env2 = env'"
    using saved(2) s assms(5) by (auto simp: us_Save_ab_save split: option.splits)
  moreover have "us_activeAddress st \<in> {FLASH_LAYOUT_USER_STORE_SECTOR_A, FLASH_LAYOUT_USER_STORE_SECTOR_B}"
    using assms(1) by (auto simp: at_rest_def live_def)
  ultimately show ?thesis
    using uss.save_held(2)[OF users_ok_fit[OF user_candidate_spec(1)[OF assms(2,3) saved(1)]] s] by simp
qed



end
