(* ===== verification/Tls_Server_Credentials.thy ===== *)
theory Tls_Server_Credentials
  imports Crc32 Object_Rep Ab_Service
begin

text \<open>
  \<open>TLS/Src/tls_server_credentials.c\<close>: the certificate and private key of the management
  server.  Each half is staged on its own and the two are activated together, only when
  the X.509 library says they belong together; the pair is then committed to one of two
  flash sectors.  The library (mbedTLS) is not part of the sources: its parsing and
  pairing functions are the record \<open>mbedtls_pk\<close>, an argument of the operations, and
  whether the random generator can be seeded is an answer of the environment.
\<close>

subsection \<open>Types\<close>

record mbedtls_pk =
  x509_crt_parse :: "u8 list \<Rightarrow> int"
  pk_parse_key :: "u8 list \<Rightarrow> int"
  pk_check_pair :: "u8 list \<Rightarrow> u8 list \<Rightarrow> int"

datatype TlsServerCredentials_StatusTypeDef =
    TLS_SERVER_CREDENTIALS_STATUS_ACTIVATED
  | TLS_SERVER_CREDENTIALS_STATUS_PENDING
  | TLS_SERVER_CREDENTIALS_STATUS_INVALID_DATA
  | TLS_SERVER_CREDENTIALS_STATUS_MISMATCH
  | TLS_SERVER_CREDENTIALS_STATUS_STORAGE_ERROR

record TlsServerCredentials_SnapshotTypeDef =
  tc_magic :: u32
  tc_version :: u16
  tc_reserved :: u16
  tc_generation :: u32
  tc_certificateLength :: u16
  tc_keyLength :: u16
  tc_certificate :: "u8 list"
  tc_key :: "u8 list"
  tc_crc :: u32

record TlsServerCredentials_State =
  tc_snapshot :: TlsServerCredentials_SnapshotTypeDef
  tc_activeAddress :: u32
  tc_hasValidSnapshot :: bool
  pendingCertificate :: "u8 list"
  pendingCertificateLength :: nat
  certificateStaged :: bool
  pendingKey :: "u8 list"
  pendingKeyLength :: nat
  keyStaged :: bool

subsection \<open>Object representation\<close>

definition put_credentials :: "TlsServerCredentials_SnapshotTypeDef \<Rightarrow> u8 list" where
  "put_credentials s = put_u32 (tc_magic s) @ put_u16 (tc_version s) @ put_u16 (tc_reserved s) @
     put_u32 (tc_generation s) @ put_u16 (tc_certificateLength s) @ put_u16 (tc_keyLength s) @
     tc_certificate s @ tc_key s @ put_u32 (tc_crc s)"

definition get_credentials :: "u8 list \<Rightarrow> TlsServerCredentials_SnapshotTypeDef" where
  "get_credentials bs =
     (let (magic, bs) = get_u32 bs; (version, bs) = get_u16 bs; (reserved, bs) = get_u16 bs;
          (generation, bs) = get_u32 bs; (certificateLength, bs) = get_u16 bs; (keyLength, bs) = get_u16 bs;
          (certificate, bs) = get_bytes 1152 bs; (key, bs) = get_bytes 384 bs; (crc, bs) = get_u32 bs
      in \<lparr>tc_magic = magic, tc_version = version, tc_reserved = reserved, tc_generation = generation,
          tc_certificateLength = certificateLength, tc_keyLength = keyLength, tc_certificate = certificate,
          tc_key = key, tc_crc = crc\<rparr>)"

subsection \<open>Validation and save\<close>

definition tlsServerCredentials_Crc :: "u8 list \<Rightarrow> u32" where
  "tlsServerCredentials_Crc bytes = crc32 bytes"

definition tlsServerCredentials_IsValid :: "TlsServerCredentials_SnapshotTypeDef \<Rightarrow> bool" where
  "tlsServerCredentials_IsValid candidate \<longleftrightarrow>
     tc_magic candidate = 0x54534352 \<and> tc_version candidate = 3 \<and>
     tc_certificateLength candidate \<le> 1152 \<and> tc_keyLength candidate \<le> 384 \<and>
     tc_crc candidate = tlsServerCredentials_Crc (take 1552 (put_credentials candidate))"

definition tlsServerCredentials_Stamp ::
  "TlsServerCredentials_SnapshotTypeDef \<Rightarrow> TlsServerCredentials_SnapshotTypeDef" where
  "tlsServerCredentials_Stamp candidate =
     (let candidate = candidate\<lparr>tc_magic := 0x54534352, tc_version := 3,
            tc_generation := tc_generation candidate + 1\<rparr>
      in candidate\<lparr>tc_crc := tlsServerCredentials_Crc (take 1552 (put_credentials candidate))\<rparr>)"

definition tlsServerCredentials_Save ::
  "TlsServerCredentials_SnapshotTypeDef \<Rightarrow> TlsServerCredentials_State \<Rightarrow> env \<Rightarrow>
   HealthCheck_StatusTypeDef \<times> TlsServerCredentials_State \<times> env" where
  "tlsServerCredentials_Save candidate st env =
     (let target = (if tc_activeAddress st = FLASH_LAYOUT_TLS_SERVER_CREDENTIALS_SECTOR_A
                    then FLASH_LAYOUT_TLS_SERVER_CREDENTIALS_SECTOR_B
                    else FLASH_LAYOUT_TLS_SERVER_CREDENTIALS_SECTOR_A);
          candidate = tlsServerCredentials_Stamp candidate;
          (s1, env1) = W25Q64_EraseSector target env in
      if s1 \<noteq> W25Q64_STATUS_OK then (HEALTH_CHECK_STATUS_ERROR, st, env1)
      else
        let (s2, env2) = W25Q64_Program target (Some (put_credentials candidate)) env1 in
        if s2 \<noteq> W25Q64_STATUS_OK then (HEALTH_CHECK_STATUS_ERROR, st, env2)
        else
          let (s3, d, env3) = W25Q64_Read target 1556 env2;
              verification = get_credentials d in
          if s3 \<noteq> W25Q64_STATUS_OK \<or> \<not> tlsServerCredentials_IsValid verification
             \<or> tc_generation verification \<noteq> tc_generation candidate
          then (HEALTH_CHECK_STATUS_ERROR, st, env3)
          else (HEALTH_CHECK_STATUS_OK,
                st\<lparr>tc_snapshot := candidate, tc_activeAddress := target, tc_hasValidSnapshot := True\<rparr>, env3))"

definition tlsServerCredentials_ClearStaging :: "TlsServerCredentials_State \<Rightarrow> TlsServerCredentials_State" where
  "tlsServerCredentials_ClearStaging st =
     st\<lparr>pendingCertificate := replicate 1152 0, pendingKey := replicate 384 0, pendingCertificateLength := 0,
        pendingKeyLength := 0, certificateStaged := False, keyStaged := False\<rparr>"

subsection \<open>Activation\<close>

text \<open>The certificate and the key under consideration: the staged half, else the active
  one, else none.\<close>

definition activation_certificate :: "TlsServerCredentials_State \<Rightarrow> u8 list option" where
  "activation_certificate st =
     (if certificateStaged st then Some (take (pendingCertificateLength st) (pendingCertificate st))
      else if tc_hasValidSnapshot st
      then Some (take (unat (tc_certificateLength (tc_snapshot st))) (tc_certificate (tc_snapshot st)))
      else None)"

definition activation_key :: "TlsServerCredentials_State \<Rightarrow> u8 list option" where
  "activation_key st =
     (if keyStaged st then Some (take (pendingKeyLength st) (pendingKey st))
      else if tc_hasValidSnapshot st
      then Some (take (unat (tc_keyLength (tc_snapshot st))) (tc_key (tc_snapshot st)))
      else None)"

definition tlsServerCredentials_TryActivate ::
  "mbedtls_pk \<Rightarrow> TlsServerCredentials_State \<Rightarrow> env \<Rightarrow>
   TlsServerCredentials_StatusTypeDef \<times> TlsServerCredentials_State \<times> env" where
  "tlsServerCredentials_TryActivate mb st env =
     (case activation_certificate st of
        None \<Rightarrow> (TLS_SERVER_CREDENTIALS_STATUS_PENDING, st, env)
      | Some certificateData \<Rightarrow>
      (case activation_key st of
        None \<Rightarrow> (TLS_SERVER_CREDENTIALS_STATUS_PENDING, st, env)
      | Some keyData \<Rightarrow>
          let (seed, env1) = pop_event env;
              result = (if ev_ok seed then 0 else - 52);
              result = (if result = 0 then x509_crt_parse mb certificateData else result);
              result = (if result = 0 then pk_parse_key mb keyData else result);
              paired = (result = 0 \<and> pk_check_pair mb certificateData keyData = 0)
          in if result \<noteq> 0
             then (TLS_SERVER_CREDENTIALS_STATUS_INVALID_DATA, tlsServerCredentials_ClearStaging st, env1)
             else if \<not> paired then
               if \<not> certificateStaged st \<or> \<not> keyStaged st
               then (TLS_SERVER_CREDENTIALS_STATUS_PENDING, st, env1)
               else (TLS_SERVER_CREDENTIALS_STATUS_MISMATCH, tlsServerCredentials_ClearStaging st, env1)
             else
               let candidate = (tc_snapshot st)
                     \<lparr>tc_certificateLength := of_nat (length certificateData),
                      tc_certificate := certificateData @ replicate (1152 - length certificateData) 0,
                      tc_keyLength := of_nat (length keyData),
                      tc_key := keyData @ replicate (384 - length keyData) 0\<rparr>;
                   (saved, st1, env2) = tlsServerCredentials_Save candidate st env1
               in (if saved = HEALTH_CHECK_STATUS_OK then TLS_SERVER_CREDENTIALS_STATUS_ACTIVATED
                   else TLS_SERVER_CREDENTIALS_STATUS_STORAGE_ERROR,
                   tlsServerCredentials_ClearStaging st1, env2)))"

definition zero_credentials :: TlsServerCredentials_SnapshotTypeDef where
  "zero_credentials = \<lparr>tc_magic = 0, tc_version = 0, tc_reserved = 0, tc_generation = 0,
     tc_certificateLength = 0, tc_keyLength = 0, tc_certificate = replicate 1152 0, tc_key = replicate 384 0,
     tc_crc = 0\<rparr>"

definition TlsServerCredentials_Init ::
  "TlsServerCredentials_State \<Rightarrow> env \<Rightarrow> HealthCheck_StatusTypeDef \<times> TlsServerCredentials_State \<times> env" where
  "TlsServerCredentials_Init st env =
     (let (firstValid, first, env1) =
            load_snapshot get_credentials 1556 tlsServerCredentials_IsValid
              FLASH_LAYOUT_TLS_SERVER_CREDENTIALS_SECTOR_A env;
          (secondValid, second, env2) =
            load_snapshot get_credentials 1556 tlsServerCredentials_IsValid
              FLASH_LAYOUT_TLS_SERVER_CREDENTIALS_SECTOR_B env1;
          st = (if firstValid \<and> (\<not> secondValid \<or> tc_generation first \<ge> tc_generation second)
                then st\<lparr>tc_snapshot := first, tc_activeAddress := FLASH_LAYOUT_TLS_SERVER_CREDENTIALS_SECTOR_A,
                        tc_hasValidSnapshot := True\<rparr>
                else if secondValid
                then st\<lparr>tc_snapshot := second, tc_activeAddress := FLASH_LAYOUT_TLS_SERVER_CREDENTIALS_SECTOR_B,
                        tc_hasValidSnapshot := True\<rparr>
                else st\<lparr>tc_snapshot := zero_credentials,
                        tc_activeAddress := FLASH_LAYOUT_TLS_SERVER_CREDENTIALS_SECTOR_B,
                        tc_hasValidSnapshot := False\<rparr>)
      in (HEALTH_CHECK_STATUS_OK, st, env2))"

definition TlsServerCredentials_StageCertificate ::
  "mbedtls_pk \<Rightarrow> u8 list option \<Rightarrow> TlsServerCredentials_State \<Rightarrow> env \<Rightarrow>
   TlsServerCredentials_StatusTypeDef \<times> TlsServerCredentials_State \<times> env" where
  "TlsServerCredentials_StageCertificate mb der st env =
     (case der of
        None \<Rightarrow> (TLS_SERVER_CREDENTIALS_STATUS_INVALID_DATA, st, env)
      | Some bytes \<Rightarrow>
          if length bytes = 0 \<or> length bytes > 1152 then (TLS_SERVER_CREDENTIALS_STATUS_INVALID_DATA, st, env)
          else
            let (locked, env1) = xSemaphoreTake env in
            if \<not> locked then (TLS_SERVER_CREDENTIALS_STATUS_STORAGE_ERROR, st, env1)
            else tlsServerCredentials_TryActivate mb
                   (st\<lparr>pendingCertificate := bytes @ drop (length bytes) (pendingCertificate st),
                       pendingCertificateLength := length bytes, certificateStaged := True\<rparr>) env1)"

definition TlsServerCredentials_StagePrivateKey ::
  "mbedtls_pk \<Rightarrow> u8 list option \<Rightarrow> TlsServerCredentials_State \<Rightarrow> env \<Rightarrow>
   TlsServerCredentials_StatusTypeDef \<times> TlsServerCredentials_State \<times> env" where
  "TlsServerCredentials_StagePrivateKey mb der st env =
     (case der of
        None \<Rightarrow> (TLS_SERVER_CREDENTIALS_STATUS_INVALID_DATA, st, env)
      | Some bytes \<Rightarrow>
          if length bytes = 0 \<or> length bytes > 384 then (TLS_SERVER_CREDENTIALS_STATUS_INVALID_DATA, st, env)
          else
            let (locked, env1) = xSemaphoreTake env in
            if \<not> locked then (TLS_SERVER_CREDENTIALS_STATUS_STORAGE_ERROR, st, env1)
            else tlsServerCredentials_TryActivate mb
                   (st\<lparr>pendingKey := bytes @ drop (length bytes) (pendingKey st),
                       pendingKeyLength := length bytes, keyStaged := True\<rparr>) env1)"

text \<open>The compiled-in default pair is a generated file; it is an argument.\<close>

definition TlsServerCredentials_GetCertificate :: "u8 list \<Rightarrow> TlsServerCredentials_State \<Rightarrow> u8 list" where
  "TlsServerCredentials_GetCertificate managementServerCertificate st =
     (if tc_hasValidSnapshot st
      then take (unat (tc_certificateLength (tc_snapshot st))) (tc_certificate (tc_snapshot st))
      else managementServerCertificate)"

definition TlsServerCredentials_GetPrivateKey :: "u8 list \<Rightarrow> TlsServerCredentials_State \<Rightarrow> u8 list" where
  "TlsServerCredentials_GetPrivateKey managementServerPrivateKey st =
     (if tc_hasValidSnapshot st then take (unat (tc_keyLength (tc_snapshot st))) (tc_key (tc_snapshot st))
      else managementServerPrivateKey)"

subsection \<open>Well-formed values, pairs and reachable states\<close>

definition wf_credentials :: "TlsServerCredentials_SnapshotTypeDef \<Rightarrow> bool" where
  "wf_credentials s \<longleftrightarrow> length (tc_certificate s) = 1152 \<and> length (tc_key s) = 384"

definition credentials_fit :: "TlsServerCredentials_SnapshotTypeDef \<Rightarrow> bool" where
  "credentials_fit s \<longleftrightarrow> wf_credentials s \<and> tc_certificateLength s \<le> 1152 \<and> tc_keyLength s \<le> 384"

definition pair_ok :: "mbedtls_pk \<Rightarrow> u8 list \<Rightarrow> u8 list \<Rightarrow> bool" where
  "pair_ok mb certificate key \<longleftrightarrow>
     x509_crt_parse mb certificate = 0 \<and> pk_parse_key mb key = 0 \<and> pk_check_pair mb certificate key = 0"

definition snapshot_paired :: "mbedtls_pk \<Rightarrow> TlsServerCredentials_SnapshotTypeDef \<Rightarrow> bool" where
  "snapshot_paired mb s \<longleftrightarrow>
     pair_ok mb (take (unat (tc_certificateLength s)) (tc_certificate s)) (take (unat (tc_keyLength s)) (tc_key s))"

abbreviation tc_held :: "(nat \<Rightarrow> u8) \<Rightarrow> u32 \<Rightarrow> TlsServerCredentials_SnapshotTypeDef option" where
  "tc_held c sector \<equiv> snapshot_at get_credentials 1556 tlsServerCredentials_IsValid c sector"

abbreviation tc_rest :: "TlsServerCredentials_State \<Rightarrow> (nat \<Rightarrow> u8) \<Rightarrow> bool" where
  "tc_rest st c \<equiv> at_rest get_credentials 1556 tlsServerCredentials_IsValid tc_generation
     FLASH_LAYOUT_TLS_SERVER_CREDENTIALS_SECTOR_A FLASH_LAYOUT_TLS_SERVER_CREDENTIALS_SECTOR_B
     (tc_snapshot st) (tc_activeAddress st) c"

abbreviation tc_sectors :: "u32 set" where
  "tc_sectors \<equiv> {FLASH_LAYOUT_TLS_SERVER_CREDENTIALS_SECTOR_A, FLASH_LAYOUT_TLS_SERVER_CREDENTIALS_SECTOR_B}"

definition wf_staging :: "TlsServerCredentials_State \<Rightarrow> bool" where
  "wf_staging st \<longleftrightarrow> length (pendingCertificate st) = 1152 \<and> pendingCertificateLength st \<le> 1152 \<and>
     length (pendingKey st) = 384 \<and> pendingKeyLength st \<le> 384"

text \<open>Static storage before \<open>TlsServerCredentials_Init\<close>, with both buffers cleared.\<close>

definition tc_static :: TlsServerCredentials_State where
  "tc_static = \<lparr>tc_snapshot = zero_credentials, tc_activeAddress = 0, tc_hasValidSnapshot = False,
     pendingCertificate = replicate 1152 0, pendingCertificateLength = 0, certificateStaged = False,
     pendingKey = replicate 384 0, pendingKeyLength = 0, keyStaged = False\<rparr>"

datatype credential_request = Stage_Certificate "u8 list option" | Stage_Key "u8 list option"

fun credential_serve :: "mbedtls_pk \<Rightarrow> credential_request \<Rightarrow> TlsServerCredentials_State \<Rightarrow> env \<Rightarrow>
    TlsServerCredentials_StatusTypeDef \<times> TlsServerCredentials_State \<times> env" where
  "credential_serve mb (Stage_Certificate der) st env = TlsServerCredentials_StageCertificate mb der st env"
| "credential_serve mb (Stage_Key der) st env = TlsServerCredentials_StagePrivateKey mb der st env"

definition credential_candidate ::
  "u8 list \<Rightarrow> u8 list \<Rightarrow> TlsServerCredentials_SnapshotTypeDef \<Rightarrow> TlsServerCredentials_SnapshotTypeDef" where
  "credential_candidate certificate key s = s
     \<lparr>tc_certificateLength := of_nat (length certificate),
      tc_certificate := certificate @ replicate (1152 - length certificate) 0,
      tc_keyLength := of_nat (length key), tc_key := key @ replicate (384 - length key) 0\<rparr>"

text \<open>The staging area as \<open>tlsServerCredentials_TryActivate\<close> sees it during a request, and the snapshot
  the request would store.\<close>

fun credential_staged :: "credential_request \<Rightarrow> TlsServerCredentials_State \<Rightarrow> TlsServerCredentials_State" where
  "credential_staged (Stage_Certificate (Some bytes)) st =
     st\<lparr>pendingCertificate := bytes @ drop (length bytes) (pendingCertificate st),
        pendingCertificateLength := length bytes, certificateStaged := True\<rparr>"
| "credential_staged (Stage_Key (Some bytes)) st =
     st\<lparr>pendingKey := bytes @ drop (length bytes) (pendingKey st), pendingKeyLength := length bytes, keyStaged := True\<rparr>"
| "credential_staged _ st = st"

definition credential_wanted :: "credential_request \<Rightarrow> TlsServerCredentials_State \<Rightarrow> TlsServerCredentials_SnapshotTypeDef option" where
  "credential_wanted req st =
     (case (activation_certificate (credential_staged req st), activation_key (credential_staged req st)) of
        (Some certificate, Some key) \<Rightarrow>
          Some (tlsServerCredentials_Stamp (credential_candidate certificate key (tc_snapshot st)))
      | _ \<Rightarrow> None)"

text \<open>The life of the store under any behaviour of the hardware: the first start with nothing valid stored,
  requests, writes elsewhere, restarts.  The checksum is taken to catch torn sectors: what
  passes the checks after a request passed them before or is the snapshot the request meant to store.\<close>

inductive credential_reach :: "mbedtls_pk \<Rightarrow> TlsServerCredentials_State \<Rightarrow> (nat \<Rightarrow> u8) \<Rightarrow> bool" for mb where
  first_start: "(\<And>sector. sector \<in> tc_sectors \<Longrightarrow> tc_held (cells env) sector = None) \<Longrightarrow>
    TlsServerCredentials_Init tc_static env = (status, st, env') \<Longrightarrow> credential_reach mb st (cells env')"
| request: "credential_reach mb st (cells env) \<Longrightarrow>
    credential_serve mb req st env = (status, st', env') \<Longrightarrow>
    (\<forall>sector\<in>tc_sectors. \<forall>s. tc_held (cells env') sector = Some s \<longrightarrow>
       tc_held (cells env) sector = Some s \<or> credential_wanted req st = Some s) \<Longrightarrow>
    credential_reach mb st' (cells env')"
| elsewhere: "credential_reach mb st c \<Longrightarrow>
    (\<And>sector. sector \<in> tc_sectors \<Longrightarrow> tc_held c' sector = tc_held c sector) \<Longrightarrow> credential_reach mb st c'"
| restart: "credential_reach mb st (cells env) \<Longrightarrow>
    TlsServerCredentials_Init tc_static env = (status, st', env') \<Longrightarrow> credential_reach mb st' (cells env')"

definition credential_inv :: "mbedtls_pk \<Rightarrow> TlsServerCredentials_State \<Rightarrow> (nat \<Rightarrow> u8) \<Rightarrow> bool" where
  "credential_inv mb st c \<longleftrightarrow> wf_staging st \<and> credentials_fit (tc_snapshot st) \<and> tc_activeAddress st \<in> tc_sectors \<and>
     (tc_hasValidSnapshot st \<longrightarrow> snapshot_paired mb (tc_snapshot st)) \<and>
     (\<forall>sector\<in>tc_sectors. \<forall>s. tc_held c sector = Some s \<longrightarrow> snapshot_paired mb s)"

text \<open>A library in which every certificate and key parses and a certificate belongs to the key with the
  same bytes, and the states of a run on a fresh board: a key is staged, then the matching certificate.\<close>

definition sample_mbedtls :: mbedtls_pk where
  "sample_mbedtls = \<lparr>x509_crt_parse = (\<lambda>_. 0), pk_parse_key = (\<lambda>_. 0),
     pk_check_pair = (\<lambda>certificate key. if certificate = key then 0 else - 16000)\<rparr>"

definition tc_first :: "TlsServerCredentials_State \<times> env" where
  "tc_first = snd (TlsServerCredentials_Init tc_static blank_env)"

definition tc_keyed :: "TlsServerCredentials_State \<times> env" where
  "tc_keyed = snd (credential_serve sample_mbedtls (Stage_Key (Some [7])) (fst tc_first) (snd tc_first))"

definition tc_activated :: "TlsServerCredentials_State \<times> env" where
  "tc_activated = snd (credential_serve sample_mbedtls (Stage_Certificate (Some [7])) (fst tc_keyed) (snd tc_keyed))"

subsection \<open>Object representation round trip and stamp\<close>

lemma length_put_credentials: "wf_credentials s \<Longrightarrow> length (put_credentials s) = 1556"
  by (simp add: put_credentials_def wf_credentials_def)

lemma get_put_credentials: "wf_credentials s \<Longrightarrow> get_credentials (put_credentials s) = s"
  using get_put_u32[of "tc_crc s" "[]"]
  by (simp add: get_credentials_def put_credentials_def wf_credentials_def)

lemma wf_get_credentials: "length bs = 1556 \<Longrightarrow> wf_credentials (get_credentials bs)"
  by (simp add: get_credentials_def wf_credentials_def case_prod_unfold Let_def fst_get_bytes)

lemma tc_Stamp_fields [simp]:
  "tc_generation (tlsServerCredentials_Stamp s) = tc_generation s + 1"
  "tc_certificateLength (tlsServerCredentials_Stamp s) = tc_certificateLength s"
  "tc_keyLength (tlsServerCredentials_Stamp s) = tc_keyLength s"
  "tc_certificate (tlsServerCredentials_Stamp s) = tc_certificate s"
  "tc_key (tlsServerCredentials_Stamp s) = tc_key s"
  by (simp_all add: tlsServerCredentials_Stamp_def Let_def)

lemma tc_Stamp_views [simp]:
  "wf_credentials (tlsServerCredentials_Stamp s) = wf_credentials s"
  "credentials_fit (tlsServerCredentials_Stamp s) = credentials_fit s"
  "snapshot_paired mb (tlsServerCredentials_Stamp s) = snapshot_paired mb s"
  by (simp_all add: wf_credentials_def credentials_fit_def snapshot_paired_def)

lemma tc_Stamp_valid:
  assumes "credentials_fit s"
  shows "tlsServerCredentials_IsValid (tlsServerCredentials_Stamp s)"
proof -
  have "take 1552 (put_credentials (t\<lparr>tc_crc := c\<rparr>)) = take 1552 (put_credentials t)" if "wf_credentials t" for t c
    using that by (simp add: put_credentials_def wf_credentials_def)
  moreover have "wf_credentials (s\<lparr>tc_magic := 0x54534352, tc_version := 3, tc_generation := tc_generation s + 1\<rparr>)"
    using assms by (simp add: wf_credentials_def credentials_fit_def)
  ultimately show ?thesis
    using assms by (simp add: tlsServerCredentials_IsValid_def tlsServerCredentials_Stamp_def credentials_fit_def Let_def)
qed

subsection \<open>The store is an A/B service\<close>

interpretation tcs: ab_service W25Q64_EraseSector put_credentials get_credentials 1556 4096
  wf_credentials tlsServerCredentials_IsValid tc_generation
  FLASH_LAYOUT_TLS_SERVER_CREDENTIALS_SECTOR_A FLASH_LAYOUT_TLS_SERVER_CREDENTIALS_SECTOR_B
  tlsServerCredentials_Stamp credentials_fit
proof (unfold_locales, goal_cases)
  case (8 sector env)
  then show ?case
    by (intro sector_erase(1)[where n = 0]) (auto simp: layout)
next
  case (9 sector env env')
  then show ?case
    by (intro sector_erase(2)) (auto simp: layout)
next
  case (10 sector env)
  then show ?case
    by (intro sector_erase(3)[where n = 0]) (auto simp: layout)
qed (simp_all add: get_put_credentials length_put_credentials wf_get_credentials tc_Stamp_valid credentials_fit_def layout)

lemma tc_Save_ab_save:
  "tlsServerCredentials_Save candidate st env =
     (case tcs.save (tc_activeAddress st) candidate env of
        (None, env') \<Rightarrow> (HEALTH_CHECK_STATUS_ERROR, st, env')
      | (Some (_, a), env') \<Rightarrow> (HEALTH_CHECK_STATUS_OK,
           st\<lparr>tc_snapshot := tlsServerCredentials_Stamp candidate, tc_activeAddress := a, tc_hasValidSnapshot := True\<rparr>, env'))"
  by (simp add: tlsServerCredentials_Save_def ab_save_def ab_write_def ab_accepts_def other_sector_def Let_def
      split: prod.splits)

lemma tc_Init_ab_load:
  "TlsServerCredentials_Init st env =
     (case tcs.load env of
        (Some (s, a), env1) \<Rightarrow> (HEALTH_CHECK_STATUS_OK,
           st\<lparr>tc_snapshot := s, tc_activeAddress := a, tc_hasValidSnapshot := True\<rparr>, env1)
      | (None, env1) \<Rightarrow> (HEALTH_CHECK_STATUS_OK, st\<lparr>tc_snapshot := zero_credentials,
           tc_activeAddress := FLASH_LAYOUT_TLS_SERVER_CREDENTIALS_SECTOR_B, tc_hasValidSnapshot := False\<rparr>, env1))"
  by (simp add: TlsServerCredentials_Init_def ab_load_def newest_def Let_def split: prod.splits)

subsection \<open>One request\<close>

lemma credential_staged_fields [simp]:
  "tc_snapshot (credential_staged req st) = tc_snapshot st"
  "tc_activeAddress (credential_staged req st) = tc_activeAddress st"
  "tc_hasValidSnapshot (credential_staged req st) = tc_hasValidSnapshot st"
  by (cases "(req, st)" rule: credential_staged.cases; simp)+

lemma candidate_fit:
  assumes "length certificate \<le> 1152" "length key \<le> 384"
  shows "credentials_fit (credential_candidate certificate key s)"
    and "unat (tc_certificateLength (credential_candidate certificate key s)) = length certificate"
    and "unat (tc_keyLength (credential_candidate certificate key s)) = length key"
  using assms
  by (simp_all add: credential_candidate_def credentials_fit_def wf_credentials_def word_le_nat_alt unat_of_nat
      take_bit_nat_eq_self)

lemma candidate_paired:
  assumes "length certificate \<le> 1152" "length key \<le> 384" "pair_ok mb certificate key"
  shows "snapshot_paired mb (credential_candidate certificate key s)"
  using assms candidate_fit(2,3)[OF assms(1,2), of s]
  by (simp add: snapshot_paired_def) (simp add: credential_candidate_def)

lemma candidate_generation [simp]: "tc_generation (credential_candidate certificate key s) = tc_generation s"
  by (simp add: credential_candidate_def)

lemma ClearStaging_fields [simp]:
  "tc_snapshot (tlsServerCredentials_ClearStaging st) = tc_snapshot st"
  "tc_activeAddress (tlsServerCredentials_ClearStaging st) = tc_activeAddress st"
  "tc_hasValidSnapshot (tlsServerCredentials_ClearStaging st) = tc_hasValidSnapshot st"
  "wf_staging (tlsServerCredentials_ClearStaging st)"
  by (simp_all add: tlsServerCredentials_ClearStaging_def wf_staging_def)

lemma TryActivate_cases:
  assumes "tlsServerCredentials_TryActivate mb st env = (status, st', env')"
  shows "(st' \<in> {st, tlsServerCredentials_ClearStaging st} \<and> touches 0 0 env env' \<and>
      status \<notin> {TLS_SERVER_CREDENTIALS_STATUS_ACTIVATED, TLS_SERVER_CREDENTIALS_STATUS_STORAGE_ERROR}) \<or>
    (\<exists>certificate key env1 r. activation_certificate st = Some certificate \<and> activation_key st = Some key \<and>
      pair_ok mb certificate key \<and> touches 0 0 env env1 \<and>
      tcs.save (tc_activeAddress st) (credential_candidate certificate key (tc_snapshot st)) env1 = (r, env') \<and>
      (case r of
         None \<Rightarrow> status = TLS_SERVER_CREDENTIALS_STATUS_STORAGE_ERROR \<and> st' = tlsServerCredentials_ClearStaging st
       | Some (_, a) \<Rightarrow> status = TLS_SERVER_CREDENTIALS_STATUS_ACTIVATED \<and>
           st' = tlsServerCredentials_ClearStaging (st\<lparr>tc_snapshot :=
             tlsServerCredentials_Stamp (credential_candidate certificate key (tc_snapshot st)),
             tc_activeAddress := a, tc_hasValidSnapshot := True\<rparr>)))"
proof (cases "activation_certificate st = None \<or> activation_key st = None")
  case True
  then show ?thesis
    using assms by (auto simp: tlsServerCredentials_TryActivate_def touches_refl split: option.splits)
next
  case False
  then obtain certificate key where ck: "activation_certificate st = Some certificate" "activation_key st = Some key"
    by auto
  obtain e env1 where p: "pop_event env = (e, env1)" by fastforce
  have t: "touches 0 0 env env1"
    using pop_event_frame[OF p] by simp
  let ?c = "credential_candidate certificate key (tc_snapshot st)"
  obtain r env2 where s: "tcs.save (tc_activeAddress st) ?c env1 = (r, env2)" by fastforce
  show ?thesis
  proof (cases "ev_ok e \<and> pair_ok mb certificate key")
    case False
    then show ?thesis
      using assms t ck p by (auto simp: tlsServerCredentials_TryActivate_def pair_ok_def Let_def split: if_splits)
  next
    case True
    then have "tlsServerCredentials_TryActivate mb st env =
        (let (saved, st1, env2) = tlsServerCredentials_Save ?c st env1
         in (if saved = HEALTH_CHECK_STATUS_OK then TLS_SERVER_CREDENTIALS_STATUS_ACTIVATED
             else TLS_SERVER_CREDENTIALS_STATUS_STORAGE_ERROR, tlsServerCredentials_ClearStaging st1, env2))"
      using ck p by (simp add: tlsServerCredentials_TryActivate_def pair_ok_def credential_candidate_def)
    then have "env' = env2 \<and> (case r of
         None \<Rightarrow> status = TLS_SERVER_CREDENTIALS_STATUS_STORAGE_ERROR \<and> st' = tlsServerCredentials_ClearStaging st
       | Some (_, a) \<Rightarrow> status = TLS_SERVER_CREDENTIALS_STATUS_ACTIVATED \<and>
           st' = tlsServerCredentials_ClearStaging (st\<lparr>tc_snapshot := tlsServerCredentials_Stamp ?c,
             tc_activeAddress := a, tc_hasValidSnapshot := True\<rparr>))"
      using assms s by (auto simp: tc_Save_ab_save split: option.splits)
    then show ?thesis
      using t ck s True by blast
  qed
qed

lemma activation_lengths:
  assumes "wf_staging st" "credentials_fit (tc_snapshot st)"
  shows "activation_certificate st = Some certificate \<Longrightarrow> length certificate \<le> 1152"
    and "activation_key st = Some key \<Longrightarrow> length key \<le> 384"
  using assms
  by (auto simp: activation_certificate_def activation_key_def wf_staging_def credentials_fit_def wf_credentials_def
      split: if_splits)

text \<open>A request is refused before it touches anything, or stages its bytes and tries to
  activate.\<close>

lemma credential_serve_cases:
  assumes "credential_serve mb req st env = (status, st', env')" "wf_staging st"
  shows "(st' = st \<and> touches 0 0 env env' \<and>
      status \<in> {TLS_SERVER_CREDENTIALS_STATUS_INVALID_DATA, TLS_SERVER_CREDENTIALS_STATUS_STORAGE_ERROR}) \<or>
    (\<exists>st1 env1. touches 0 0 env env1 \<and> st1 = credential_staged req st \<and> wf_staging st1 \<and> tc_snapshot st1 = tc_snapshot st \<and>
      tc_activeAddress st1 = tc_activeAddress st \<and> tc_hasValidSnapshot st1 = tc_hasValidSnapshot st \<and>
      tlsServerCredentials_TryActivate mb st1 env1 = (status, st', env'))"
proof -
  obtain b env1 where l: "xSemaphoreTake env = (b, env1)" by fastforce
  have t: "touches 0 0 env env1"
    using xSemaphoreTake_frame(2)[OF l] .
  show ?thesis
  proof (cases req)
    case (Stage_Certificate der)
    show ?thesis
    proof (cases "der = None \<or> length (the der) = 0 \<or> length (the der) > 1152 \<or> \<not> b")
      case True
      then show ?thesis
        using assms Stage_Certificate t
        by (auto simp: TlsServerCredentials_StageCertificate_def l touches_refl split: option.splits if_splits)
    next
      case False
      let ?st1 = "st\<lparr>pendingCertificate := the der @ drop (length (the der)) (pendingCertificate st),
         pendingCertificateLength := length (the der), certificateStaged := True\<rparr>"
      have "tlsServerCredentials_TryActivate mb ?st1 env1 = (status, st', env')"
        using assms Stage_Certificate False by (auto simp: TlsServerCredentials_StageCertificate_def l)
      moreover have "wf_staging ?st1"
        using assms(2) False by (simp add: wf_staging_def)
      moreover have "?st1 = credential_staged req st"
        using Stage_Certificate False by auto
      ultimately show ?thesis
        using t by (intro disjI2 exI[of _ ?st1] exI[of _ env1]) simp
    qed
  next
    case (Stage_Key der)
    show ?thesis
    proof (cases "der = None \<or> length (the der) = 0 \<or> length (the der) > 384 \<or> \<not> b")
      case True
      then show ?thesis
        using assms Stage_Key t
        by (auto simp: TlsServerCredentials_StagePrivateKey_def l touches_refl split: option.splits if_splits)
    next
      case False
      let ?st1 = "st\<lparr>pendingKey := the der @ drop (length (the der)) (pendingKey st),
         pendingKeyLength := length (the der), keyStaged := True\<rparr>"
      have "tlsServerCredentials_TryActivate mb ?st1 env1 = (status, st', env')"
        using assms Stage_Key False by (auto simp: TlsServerCredentials_StagePrivateKey_def l)
      moreover have "wf_staging ?st1"
        using assms(2) False by (simp add: wf_staging_def)
      moreover have "?st1 = credential_staged req st"
        using Stage_Key False by auto
      ultimately show ?thesis
        using t by (intro disjI2 exI[of _ ?st1] exI[of _ env1]) simp
    qed
  qed
qed

text \<open>What a request does to the store and to flash.\<close>

lemma credential_step:
  assumes run: "credential_serve mb req st env = (status, st', env')"
    and wf: "wf_staging st" "credentials_fit (tc_snapshot st)"
  shows "wf_staging st' \<and>
    ((tc_snapshot st' = tc_snapshot st \<and> tc_activeAddress st' = tc_activeAddress st \<and>
      tc_hasValidSnapshot st' = tc_hasValidSnapshot st \<and> cells env' = cells env \<and>
      status \<noteq> TLS_SERVER_CREDENTIALS_STATUS_ACTIVATED) \<or>
     (\<exists>candidate env1 r. credential_wanted req st = Some (tlsServerCredentials_Stamp candidate) \<and>
       credentials_fit candidate \<and> snapshot_paired mb candidate \<and>
       tc_generation candidate = tc_generation (tc_snapshot st) \<and> cells env1 = cells env \<and>
       tcs.save (tc_activeAddress st) candidate env1 = (r, env') \<and>
       (case r of
          None \<Rightarrow> status = TLS_SERVER_CREDENTIALS_STATUS_STORAGE_ERROR \<and> tc_snapshot st' = tc_snapshot st \<and>
            tc_activeAddress st' = tc_activeAddress st \<and> tc_hasValidSnapshot st' = tc_hasValidSnapshot st
        | Some (_, a) \<Rightarrow> status = TLS_SERVER_CREDENTIALS_STATUS_ACTIVATED \<and>
            tc_snapshot st' = tlsServerCredentials_Stamp candidate \<and> tc_activeAddress st' = a \<and> tc_hasValidSnapshot st')))"
  using credential_serve_cases[OF run wf(1)]
proof (elim disjE exE conjE)
  assume "st' = st" "touches 0 0 env env'"
    "status \<in> {TLS_SERVER_CREDENTIALS_STATUS_INVALID_DATA, TLS_SERVER_CREDENTIALS_STATUS_STORAGE_ERROR}"
  then show ?thesis
    using wf touches_nothing(2) by auto
next
  fix st1 env1
  assume stg: "st1 = credential_staged req st" and s: "touches 0 0 env env1" "wf_staging st1" "tc_snapshot st1 = tc_snapshot st"
    "tc_activeAddress st1 = tc_activeAddress st" "tc_hasValidSnapshot st1 = tc_hasValidSnapshot st"
    "tlsServerCredentials_TryActivate mb st1 env1 = (status, st', env')"
  from TryActivate_cases[OF s(6)] show ?thesis
  proof (elim disjE exE conjE)
    assume q: "st' \<in> {st1, tlsServerCredentials_ClearStaging st1}" "touches 0 0 env1 env'"
      "status \<notin> {TLS_SERVER_CREDENTIALS_STATUS_ACTIVATED, TLS_SERVER_CREDENTIALS_STATUS_STORAGE_ERROR}"
    then show ?thesis
      using s(2-5) touches_nothing(2)[OF s(1)] touches_nothing(2)[OF q(2)] by auto
  next
    fix certificate key env2 r
    assume a: "activation_certificate st1 = Some certificate" "activation_key st1 = Some key"
      "pair_ok mb certificate key" "touches 0 0 env1 env2"
      "tcs.save (tc_activeAddress st1) (credential_candidate certificate key (tc_snapshot st1)) env2 = (r, env')"
      "case r of
         None \<Rightarrow> status = TLS_SERVER_CREDENTIALS_STATUS_STORAGE_ERROR \<and> st' = tlsServerCredentials_ClearStaging st1
       | Some (_, a) \<Rightarrow> status = TLS_SERVER_CREDENTIALS_STATUS_ACTIVATED \<and>
           st' = tlsServerCredentials_ClearStaging (st1\<lparr>tc_snapshot :=
             tlsServerCredentials_Stamp (credential_candidate certificate key (tc_snapshot st1)),
             tc_activeAddress := a, tc_hasValidSnapshot := True\<rparr>)"
    let ?c = "credential_candidate certificate key (tc_snapshot st1)"
    have "length certificate \<le> 1152" "length key \<le> 384"
      using activation_lengths[OF s(2)] a(1,2) wf(2) s(3) by auto
    note len = this
    have "credential_wanted req st = Some (tlsServerCredentials_Stamp ?c)"
      using a(1,2) s(3) stg by (simp add: credential_wanted_def)
    moreover have "credentials_fit ?c \<and> snapshot_paired mb ?c \<and> tc_generation ?c = tc_generation (tc_snapshot st) \<and>
        cells env2 = cells env"
      using candidate_fit(1)[OF len] candidate_paired[OF len a(3)] s(3) touches_nothing(2)[OF s(1)] touches_nothing(2)[OF a(4)]
      by simp
    moreover have "wf_staging st'"
      using a(6) by (auto split: option.splits)
    ultimately show ?thesis
      using a(5,6) s(3-5)
      by (intro conjI disjI2 exI[of _ ?c] exI[of _ env2] exI[of _ r]) (auto split: option.splits)
  qed
qed

subsection \<open>Reachable states\<close>

lemma credential_inv_request:
  assumes inv: "credential_inv mb st (cells env)"
    and run: "credential_serve mb req st env = (status, st', env')"
    and torn: "\<forall>sector\<in>tc_sectors. \<forall>s. tc_held (cells env') sector = Some s \<longrightarrow>
      tc_held (cells env) sector = Some s \<or> credential_wanted req st = Some s"
  shows "credential_inv mb st' (cells env')"
proof -
  have wf: "wf_staging st" "credentials_fit (tc_snapshot st)"
    using inv by (simp_all add: credential_inv_def)
  from credential_step[OF run wf] show ?thesis
  proof (elim conjE disjE exE)
    assume "wf_staging st'" "tc_snapshot st' = tc_snapshot st" "tc_activeAddress st' = tc_activeAddress st"
      "tc_hasValidSnapshot st' = tc_hasValidSnapshot st" "cells env' = cells env"
    then show ?thesis
      using inv by (simp add: credential_inv_def)
  next
    fix candidate env1 r
    assume wf': "wf_staging st'" and wanted: "credential_wanted req st = Some (tlsServerCredentials_Stamp candidate)"
      and c: "credentials_fit candidate" "snapshot_paired mb candidate"
      "tcs.save (tc_activeAddress st) candidate env1 = (r, env')"
      and res: "case r of
          None \<Rightarrow> status = TLS_SERVER_CREDENTIALS_STATUS_STORAGE_ERROR \<and> tc_snapshot st' = tc_snapshot st \<and>
            tc_activeAddress st' = tc_activeAddress st \<and> tc_hasValidSnapshot st' = tc_hasValidSnapshot st
        | Some (_, a) \<Rightarrow> status = TLS_SERVER_CREDENTIALS_STATUS_ACTIVATED \<and>
            tc_snapshot st' = tlsServerCredentials_Stamp candidate \<and> tc_activeAddress st' = a \<and> tc_hasValidSnapshot st'"
    have held: "\<forall>sector\<in>tc_sectors. \<forall>s. tc_held (cells env') sector = Some s \<longrightarrow> snapshot_paired mb s"
      using torn wanted c(2) inv by (fastforce simp: credential_inv_def)
    show ?thesis
    proof (cases r)
      case None
      then show ?thesis
        using res wf' held inv by (simp add: credential_inv_def)
    next
      case (Some p)
      obtain s a where p: "p = (s, a)" by fastforce
      have "a = tcs.opposite (tc_activeAddress st)"
        using tcs.save_result[OF c(1)] c(3) Some p by auto
      then have "a \<in> tc_sectors"
        using tcs.opposite_in by simp
      then show ?thesis
        using res wf' held c(1,2) Some p unfolding credential_inv_def by simp
    qed
  qed
qed

lemma credential_inv_load:
  assumes "TlsServerCredentials_Init tc_static env = (status, st, env')"
    and paired: "\<forall>sector\<in>tc_sectors. \<forall>s. tc_held (cells env) sector = Some s \<longrightarrow> snapshot_paired mb s"
  shows "credential_inv mb st (cells env')"
proof -
  obtain r env1 where l: "tcs.load env = (r, env1)" by fastforce
  note ld = tcs.load_sound[OF l]
  have e: "cells env' = cells env"
    using assms(1) l ld(1) by (auto simp: tc_Init_ab_load split: option.splits)
  have wf: "wf_staging st"
    using assms(1) l by (auto simp: tc_Init_ab_load wf_staging_def tc_static_def split: option.splits)
  show ?thesis
  proof (cases r)
    case None
    have "credentials_fit zero_credentials"
      by (simp add: zero_credentials_def credentials_fit_def wf_credentials_def)
    then show ?thesis
      using assms l None wf e by (auto simp: tc_Init_ab_load credential_inv_def)
  next
    case (Some p)
    obtain s a where p: "p = (s, a)" by fastforce
    have run: "tcs.running s a (cells env)"
      using ld(2) Some p by simp
    then have "credentials_fit s" "snapshot_paired mb s" "a \<in> tc_sectors"
      using tcs.running_fits[OF run] paired
      by (auto simp: credentials_fit_def tlsServerCredentials_IsValid_def live_def)
    then show ?thesis
      using assms l Some p wf e by (auto simp: tc_Init_ab_load credential_inv_def)
  qed
qed

lemma credential_reach_inv: "credential_reach mb st c \<Longrightarrow> credential_inv mb st c"
proof (induction rule: credential_reach.induct)
  case (first_start env status st env')
  then show ?case
    by (intro credential_inv_load[OF first_start(2)]) auto
next
  case (request st env req status st' env')
  then show ?case
    using credential_inv_request by blast
next
  case (elsewhere st c c')
  then show ?case
    by (simp add: credential_inv_def)
next
  case (restart st env status st' env')
  then show ?case
    by (intro credential_inv_load[OF restart(2)]) (simp add: credential_inv_def)
qed

text \<open>C11: the management server never presents a certificate with a foreign key: in every
  state reachable through staging requests and restarts, whatever the hardware does, as long as
  a torn sector fails its checks (after a request a sector passes them only if it did before or holds exactly the
  snapshot the request meant to store), the certificate and the key handed out parse and belong
  together whenever the store has a valid snapshot; without one, both are the compiled-in ones.\<close>

theorem credentials_always_paired:
  assumes "credential_reach mb st c"
  shows "if tc_hasValidSnapshot st
    then pair_ok mb (TlsServerCredentials_GetCertificate certificate st) (TlsServerCredentials_GetPrivateKey key st)
    else TlsServerCredentials_GetCertificate certificate st = certificate \<and> TlsServerCredentials_GetPrivateKey key st = key"
  using credential_reach_inv[OF assms]
  by (simp add: credential_inv_def snapshot_paired_def TlsServerCredentials_GetCertificate_def
      TlsServerCredentials_GetPrivateKey_def)

lemma tc_first_reach: "credential_reach mb (fst tc_first) (cells (snd tc_first))" "healthy (snd tc_first)"
  "fst tc_first = tc_static\<lparr>tc_activeAddress := FLASH_LAYOUT_TLS_SERVER_CREDENTIALS_SECTOR_B\<rparr>"
  "tc_held (cells (snd tc_first)) x = None"
proof -
  have h: "healthy blank_env"
    by (simp add: healthy_def blank_env_def)
  have "\<not> tlsServerCredentials_IsValid (get_credentials (replicate 1556 0xFF))"
    by (simp add: tlsServerCredentials_IsValid_def get_credentials_def case_prod_unfold Let_def get_u32_blank)
  then have none: "tc_held (cells blank_env) x = None" for x
    by (simp add: snapshot_at_blank)
  obtain env1 where l: "tcs.load blank_env = (None, env1)" "healthy env1"
    using tcs.load_empty[OF h none none] by blast
  then show "healthy (snd tc_first)"
    "fst tc_first = tc_static\<lparr>tc_activeAddress := FLASH_LAYOUT_TLS_SERVER_CREDENTIALS_SECTOR_B\<rparr>"
    by (simp_all add: tc_first_def tc_Init_ab_load tc_static_def)
  show "credential_reach mb (fst tc_first) (cells (snd tc_first))"
    by (rule credential_reach.first_start[of blank_env "fst (TlsServerCredentials_Init tc_static blank_env)"])
      (simp_all add: none tc_first_def)
  have "cells (snd tc_first) = cells blank_env"
    using tcs.load_sound(1)[OF l(1)] l(1) by (simp add: tc_first_def tc_Init_ab_load)
  then show "tc_held (cells (snd tc_first)) x = None"
    by (simp add: none)
qed

lemma tc_keyed_reach:
  "credential_reach sample_mbedtls (fst tc_keyed) (cells (snd tc_keyed))" "healthy (snd tc_keyed)"
  "activation_key (fst tc_keyed) = Some [7]" "tc_snapshot (fst tc_keyed) = zero_credentials"
  "tc_rest (fst tc_keyed) (cells (snd tc_keyed))" "keyStaged (fst tc_keyed)"
proof -
  let ?st = "(fst tc_first)\<lparr>pendingKey := [7] @ drop 1 (pendingKey (fst tc_first)), pendingKeyLength := 1, keyStaged := True\<rparr>"
  obtain env1 where l: "xSemaphoreTake (snd tc_first) = (True, env1)" "healthy env1" "touches 0 0 (snd tc_first) env1"
    using xSemaphoreTake_healthy[OF tc_first_reach(2)] by blast
  have c: "cells env1 = cells (snd tc_first)"
    using touches_nothing(2)[OF l(3)] .
  have none: "activation_certificate ?st = None"
    by (simp add: activation_certificate_def tc_first_reach(3) tc_static_def)
  have run: "credential_serve sample_mbedtls (Stage_Key (Some [7])) (fst tc_first) (snd tc_first) =
      (TLS_SERVER_CREDENTIALS_STATUS_PENDING, ?st, env1)"
    using none by (simp add: TlsServerCredentials_StagePrivateKey_def l tlsServerCredentials_TryActivate_def)
  then have k: "fst tc_keyed = ?st" "snd tc_keyed = env1"
    by (simp_all only: tc_keyed_def snd_conv fst_conv)
  show "healthy (snd tc_keyed)" "activation_key (fst tc_keyed) = Some [7]" "tc_snapshot (fst tc_keyed) = zero_credentials"
    "keyStaged (fst tc_keyed)"
    using l(2) by (simp_all add: k activation_key_def tc_first_reach(3) tc_static_def)
  show "tc_rest (fst tc_keyed) (cells (snd tc_keyed))"
    by (simp add: at_rest_def k c tc_first_reach(3,4) tc_static_def zero_credentials_def)
  from credential_reach.request[OF tc_first_reach(1) run] c
  show "credential_reach sample_mbedtls (fst tc_keyed) (cells (snd tc_keyed))"
    using k by simp
qed

text \<open>C30: what staging a certificate does in a reachable state on hardware that answers.  A missing, empty or too
  long certificate is refused and changes nothing.  Otherwise, without a key at hand, that is, without a staged key and without
  a valid snapshot (the compiled-in key is never considered), it waits; bytes that do not parse clear the
  staging area; a foreign certificate clears it when the key was staged and waits otherwise; a matching one
  is activated, and then the server presents exactly these bytes with exactly that key, and so does every
  restart on working hardware (if the copy in use was the one in flash).  In every other case the pair in use
  and the flash are unchanged.\<close>

theorem stage_certificate_outcome:
  assumes "credential_reach mb st (cells env)" "healthy env"
    and "TlsServerCredentials_StageCertificate mb der st env = (status, st', env')"
  shows "if der = None \<or> length (the der) = 0 \<or> 1152 < length (the der)
    then status = TLS_SERVER_CREDENTIALS_STATUS_INVALID_DATA \<and> st' = st \<and> env' = env
    else status = (case activation_key st of
        None \<Rightarrow> TLS_SERVER_CREDENTIALS_STATUS_PENDING
      | Some k \<Rightarrow> if x509_crt_parse mb (the der) \<noteq> 0 \<or> pk_parse_key mb k \<noteq> 0
                  then TLS_SERVER_CREDENTIALS_STATUS_INVALID_DATA
                  else if pk_check_pair mb (the der) k = 0 then TLS_SERVER_CREDENTIALS_STATUS_ACTIVATED
                  else if keyStaged st then TLS_SERVER_CREDENTIALS_STATUS_MISMATCH
                  else TLS_SERVER_CREDENTIALS_STATUS_PENDING) \<and>
      (certificateStaged st' \<longleftrightarrow> status = TLS_SERVER_CREDENTIALS_STATUS_PENDING) \<and>
      (if status = TLS_SERVER_CREDENTIALS_STATUS_ACTIVATED
       then TlsServerCredentials_GetCertificate c0 st' = the der \<and>
         Some (TlsServerCredentials_GetPrivateKey k0 st') = activation_key st \<and>
         (tc_rest st (cells env) \<and> tc_generation (tc_snapshot st) \<noteq> - 1 \<longrightarrow>
           (\<forall>st0 restart. healthy restart \<and> cells restart = cells env' \<longrightarrow>
             (case TlsServerCredentials_Init st0 restart of (_, found, _) \<Rightarrow>
                TlsServerCredentials_GetCertificate c0 found = the der \<and>
                Some (TlsServerCredentials_GetPrivateKey k0 found) = activation_key st)))
       else TlsServerCredentials_GetCertificate c0 st' = TlsServerCredentials_GetCertificate c0 st \<and>
         TlsServerCredentials_GetPrivateKey k0 st' = TlsServerCredentials_GetPrivateKey k0 st \<and> cells env' = cells env)"
proof (cases "der = None \<or> length (the der) = 0 \<or> 1152 < length (the der)")
  case True
  then show ?thesis
    using assms(3) by (auto simp: TlsServerCredentials_StageCertificate_def split: option.splits if_splits)
next
  case False
  then obtain bytes where bytes: "der = Some bytes" "length bytes \<noteq> 0" "length bytes \<le> 1152" by fastforce
  let ?st = "st\<lparr>pendingCertificate := bytes @ drop (length bytes) (pendingCertificate st),
     pendingCertificateLength := length bytes, certificateStaged := True\<rparr>"
  have inv: "credential_inv mb st (cells env)"
    using credential_reach_inv[OF assms(1)] .
  obtain env1 where l: "xSemaphoreTake env = (True, env1)" "healthy env1" "touches 0 0 env env1"
    using xSemaphoreTake_healthy[OF assms(2)] by blast
  obtain e env2 where p: "pop_event env1 = (e, env2)" by fastforce
  have seed: "ev_ok e" "healthy env2" "cells env2 = cells env"
    using pop_event_frame[OF p, of 0 0] l(2) touches_nothing(2)[OF l(3)] touches_nothing(2)[of _ env1 env2] by auto
  have cert: "activation_certificate ?st = Some bytes" "activation_key ?st = activation_key st"
    by (simp_all add: activation_certificate_def activation_key_def)
  have run: "tlsServerCredentials_TryActivate mb ?st env1 = (status, st', env')"
    using assms(3) bytes by (simp add: TlsServerCredentials_StageCertificate_def l(1))
  show ?thesis
  proof (cases "activation_key st = None \<or> \<not> pair_ok mb bytes (the (activation_key st))")
    case True
    then show ?thesis
      using run cert seed p touches_nothing(2)[OF l(3)] bytes
      by (auto simp: tlsServerCredentials_TryActivate_def pair_ok_def Let_def tlsServerCredentials_ClearStaging_def
          TlsServerCredentials_GetCertificate_def TlsServerCredentials_GetPrivateKey_def split: option.splits if_splits)
  next
    case False
    then obtain k where k: "activation_key st = Some k" "pair_ok mb bytes k" by auto
    let ?c = "credential_candidate bytes k (tc_snapshot st)"
    have len: "length bytes \<le> 1152" "length k \<le> 384"
      using activation_lengths(2)[of st] inv k(1) bytes(3) by (auto simp: credential_inv_def)
    obtain env3 where s: "tcs.save (tc_activeAddress st) ?c env2 =
        (Some (tlsServerCredentials_Stamp ?c, tcs.opposite (tc_activeAddress st)), env3)" "healthy env3"
      using tcs.save_healthy[OF candidate_fit(1)[OF len] seed(2)] by blast
    have res: "status = TLS_SERVER_CREDENTIALS_STATUS_ACTIVATED" "env' = env3"
      "st' = tlsServerCredentials_ClearStaging (?st\<lparr>tc_snapshot := tlsServerCredentials_Stamp ?c,
         tc_activeAddress := tcs.opposite (tc_activeAddress st), tc_hasValidSnapshot := True\<rparr>)"
      using run cert k seed(1) p s(1)
      by (auto simp: tlsServerCredentials_TryActivate_def pair_ok_def credential_candidate_def tc_Save_ab_save)
    have halves: "take (unat (tc_certificateLength ?c)) (tc_certificate ?c) = bytes"
      "take (unat (tc_keyLength ?c)) (tc_key ?c) = k"
      using candidate_fit(2,3)[OF len, of "tc_snapshot st"] by (simp_all add: credential_candidate_def)
    have "case TlsServerCredentials_Init st0 restart of (_, found, _) \<Rightarrow>
        TlsServerCredentials_GetCertificate c0 found = bytes \<and> Some (TlsServerCredentials_GetPrivateKey k0 found) = activation_key st"
      if rest: "tc_rest st (cells env)" "tc_generation (tc_snapshot st) \<noteq> - 1"
        and h: "healthy restart" "cells restart = cells env'" for st0 restart
    proof -
      have "tcs.published (tlsServerCredentials_Stamp ?c) (tcs.opposite (tc_activeAddress st)) (cells env')"
        using tcs.save_rest[OF _ candidate_fit(1)[OF len] candidate_generation rest(2) s(1)] rest(1) seed(3) res(2) by simp
      from tcs.load_published[OF this[folded h(2)] h(1)] obtain env4 where
        "tcs.load restart = (Some (tlsServerCredentials_Stamp ?c, tcs.opposite (tc_activeAddress st)), env4)"
        by blast
      then show ?thesis
        using halves k(1)
        by (simp add: tc_Init_ab_load TlsServerCredentials_GetCertificate_def TlsServerCredentials_GetPrivateKey_def)
    qed
    then show ?thesis
      using res k halves bytes
      by (auto simp: pair_ok_def TlsServerCredentials_GetCertificate_def TlsServerCredentials_GetPrivateKey_def
          tlsServerCredentials_ClearStaging_def)
  qed
qed

lemma tc_activated_reach:
  "credential_reach sample_mbedtls (fst tc_activated) (cells (snd tc_activated))" "tc_hasValidSnapshot (fst tc_activated)"
  "healthy (snd tc_activated)"
proof -
  let ?req = "Stage_Certificate (Some [7])" and ?c = "credential_candidate [7] [7] zero_credentials"
  let ?st = "credential_staged ?req (fst tc_keyed)"
  obtain env1 where l: "xSemaphoreTake (snd tc_keyed) = (True, env1)" "healthy env1" "touches 0 0 (snd tc_keyed) env1"
    using xSemaphoreTake_healthy[OF tc_keyed_reach(2)] by blast
  obtain e env2 where p: "pop_event env1 = (e, env2)" by fastforce
  have seed: "ev_ok e" "healthy env2" "cells env2 = cells (snd tc_keyed)"
    using pop_event_frame[OF p, of 0 0] l(2) touches_nothing(2)[OF l(3)] touches_nothing(2)[of _ env1 env2] by auto
  have ck: "activation_certificate ?st = Some [7]" "activation_key ?st = Some [7]"
    using tc_keyed_reach(3,6) by (simp_all add: activation_certificate_def activation_key_def)
  have fit: "credentials_fit ?c"
    by (rule candidate_fit(1)) simp_all
  obtain env3 where s: "tcs.save (tc_activeAddress (fst tc_keyed)) ?c env2 =
      (Some (tlsServerCredentials_Stamp ?c, tcs.opposite (tc_activeAddress (fst tc_keyed))), env3)" "healthy env3"
    using tcs.save_healthy[OF fit seed(2)] by blast
  have run: "credential_serve sample_mbedtls ?req (fst tc_keyed) (snd tc_keyed) = (TLS_SERVER_CREDENTIALS_STATUS_ACTIVATED,
      tlsServerCredentials_ClearStaging (?st\<lparr>tc_snapshot := tlsServerCredentials_Stamp ?c,
        tc_activeAddress := tcs.opposite (tc_activeAddress (fst tc_keyed)), tc_hasValidSnapshot := True\<rparr>), env3)"
    using ck l(1) p s(1) seed(1) tc_keyed_reach(4)
    by (simp add: TlsServerCredentials_StageCertificate_def tlsServerCredentials_TryActivate_def sample_mbedtls_def
        credential_candidate_def tc_Save_ab_save)
  have a: "fst tc_activated = tlsServerCredentials_ClearStaging (?st\<lparr>tc_snapshot := tlsServerCredentials_Stamp ?c,
        tc_activeAddress := tcs.opposite (tc_activeAddress (fst tc_keyed)), tc_hasValidSnapshot := True\<rparr>)" "snd tc_activated = env3"
    by (simp_all only: tc_activated_def run snd_conv fst_conv)
  show "tc_hasValidSnapshot (fst tc_activated)" "healthy (snd tc_activated)"
    using s(2) by (simp_all add: a)
  have act: "tc_activeAddress (fst tc_keyed) \<in> tc_sectors"
    using credential_reach_inv[OF tc_keyed_reach(1)] by (simp add: credential_inv_def)
  note held = tcs.save_held[OF fit s(1) act]
  have wanted: "credential_wanted ?req (fst tc_keyed) = Some (tlsServerCredentials_Stamp ?c)"
    using ck tc_keyed_reach(4) by (simp add: credential_wanted_def)
  have "tc_held (cells (snd tc_keyed)) sector = Some x \<or> credential_wanted ?req (fst tc_keyed) = Some x"
    if "sector \<in> tc_sectors" "tc_held (cells env3) sector = Some x" for sector x
  proof (cases "sector = tc_activeAddress (fst tc_keyed)")
    case True
    then show ?thesis
      using that(2) held(1) seed(3) by simp
  next
    case False
    then have "sector = tcs.opposite (tc_activeAddress (fst tc_keyed))"
      using that(1) act by (auto simp: other_sector_def)
    then show ?thesis
      using that(2) held(2) wanted by simp
  qed
  then show "credential_reach sample_mbedtls (fst tc_activated) (cells (snd tc_activated))"
    using credential_reach.request[OF tc_keyed_reach(1) run] a by simp
qed

text \<open>With the key staged, a foreign certificate is a mismatch, the matching one is activated and found by a
  restart, and a missing one is refused.\<close>

theorem stage_certificate_outcome_witness:
  "fst (TlsServerCredentials_StageCertificate sample_mbedtls (Some [9, 9]) (fst tc_keyed) (snd tc_keyed))
     = TLS_SERVER_CREDENTIALS_STATUS_MISMATCH \<and>
   fst (TlsServerCredentials_StageCertificate sample_mbedtls None (fst tc_keyed) (snd tc_keyed))
     = TLS_SERVER_CREDENTIALS_STATUS_INVALID_DATA \<and>
   fst (TlsServerCredentials_StageCertificate sample_mbedtls (Some [7]) (fst tc_keyed) (snd tc_keyed))
     = TLS_SERVER_CREDENTIALS_STATUS_ACTIVATED \<and>
   TlsServerCredentials_GetCertificate [1] (fst (snd (TlsServerCredentials_Init tc_static (snd tc_activated)))) = [7] \<and>
   TlsServerCredentials_GetPrivateKey [2] (fst (snd (TlsServerCredentials_Init tc_static (snd tc_activated)))) = [7]"
proof -
  obtain s1 st1 env1 where r1:
    "TlsServerCredentials_StageCertificate sample_mbedtls (Some [9, 9]) (fst tc_keyed) (snd tc_keyed) = (s1, st1, env1)"
    using prod_cases3 by blast
  obtain s2 st2 env2 where r2:
    "TlsServerCredentials_StageCertificate sample_mbedtls None (fst tc_keyed) (snd tc_keyed) = (s2, st2, env2)"
    using prod_cases3 by blast
  obtain s3 st3 env3 where r3:
    "TlsServerCredentials_StageCertificate sample_mbedtls (Some [7]) (fst tc_keyed) (snd tc_keyed) = (s3, st3, env3)"
    using prod_cases3 by blast
  obtain s4 found env4 where r4: "TlsServerCredentials_Init tc_static env3 = (s4, found, env4)"
    using prod_cases3 by blast
  have after: "snd tc_activated = env3" "healthy env3"
    using r3 tc_activated_reach(3) by (simp_all add: tc_activated_def)
  have gen: "tc_generation (tc_snapshot (fst tc_keyed)) \<noteq> - 1"
    by (simp add: tc_keyed_reach(4) zero_credentials_def)
  note o1 = stage_certificate_outcome[OF tc_keyed_reach(1,2) r1, of "[1]" "[2]"]
    and o2 = stage_certificate_outcome[OF tc_keyed_reach(1,2) r2, of "[1]" "[2]"]
    and o3 = stage_certificate_outcome[OF tc_keyed_reach(1,2) r3, of "[1]" "[2]"]
  have "s1 = TLS_SERVER_CREDENTIALS_STATUS_MISMATCH" "s2 = TLS_SERVER_CREDENTIALS_STATUS_INVALID_DATA"
    "s3 = TLS_SERVER_CREDENTIALS_STATUS_ACTIVATED"
    using o1 o2 o3 by (simp_all add: tc_keyed_reach sample_mbedtls_def)
  moreover have "\<forall>st0 restart. healthy restart \<and> cells restart = cells env3 \<longrightarrow>
      (case TlsServerCredentials_Init st0 restart of (_, found, _) \<Rightarrow>
         TlsServerCredentials_GetCertificate [1] found = [7] \<and> Some (TlsServerCredentials_GetPrivateKey [2] found) = Some [7])"
    using o3 gen tc_keyed_reach(3,5) \<open>s3 = _\<close> by simp
  from this[rule_format, of env3 tc_static] r4 after(2)
  have "TlsServerCredentials_GetCertificate [1] found = [7] \<and> TlsServerCredentials_GetPrivateKey [2] found = [7]"
    by simp
  ultimately show ?thesis
    by (simp add: r1 r2 r3 r4 after(1))
qed

theorem credentials_always_paired_witness:
  "pair_ok sample_mbedtls (TlsServerCredentials_GetCertificate [1] (fst tc_activated))
     (TlsServerCredentials_GetPrivateKey [2] (fst tc_activated)) \<and> \<not> pair_ok sample_mbedtls [1] [2]"
  using credentials_always_paired[OF tc_activated_reach(1), of "[1]" "[2]"] tc_activated_reach(2)
  by (simp add: pair_ok_def sample_mbedtls_def)

end
