(* ===== verification/Tls_Trust_Store.thy ===== *)
theory Tls_Trust_Store
  imports Crc32 Object_Rep Ab_Service
begin

text \<open>
  \<open>TLS/Src/tls_trust_store.c\<close>: the six persistent trust anchors.  A snapshot spans four
  sectors of a flash bank; there are two banks, and two older formats with their own
  banks from which start-up migrates.  Parsing certificates is the X.509 library's work;
  its functions and error codes are the record \<open>mbedtls_ca\<close>, an argument of the
  operations.  The store is an instance of \<open>ab_service\<close> whose erase is a loop over
  sectors.  The scratch union \<open>trustStoreWorkspace\<close> is written before every use and has
  no counterpart in the state.
\<close>

subsection \<open>Types\<close>

record mbedtls_ca =
  crt_parse_der :: "u8 list \<Rightarrow> int"
  crt_parse_der_nocopy :: "u8 list \<Rightarrow> int"
  crt_get_ca_istrue :: "u8 list \<Rightarrow> int"
  crt_check_cert_sign :: "u8 list \<Rightarrow> int"
  dn_gets :: "u8 list \<Rightarrow> int \<times> string"
  err_x509_alloc_failed :: int
  err_pk_alloc_failed :: int
  err_mpi_alloc_failed :: int
  err_asn1_alloc_failed :: int

datatype TlsTrustStore_StatusTypeDef =
    TLS_TRUST_STORE_STATUS_OK
  | TLS_TRUST_STORE_STATUS_INVALID_ARGUMENT
  | TLS_TRUST_STORE_STATUS_INVALID_CERTIFICATE
  | TLS_TRUST_STORE_STATUS_NO_MEMORY
  | TLS_TRUST_STORE_STATUS_NOT_CA
  | TLS_TRUST_STORE_STATUS_NOT_FOUND
  | TLS_TRUST_STORE_STATUS_FULL
  | TLS_TRUST_STORE_STATUS_STORAGE_ERROR

record TlsTrustStore_InfoTypeDef =
  info_id :: u8
  info_derLength :: u16
  info_subject :: string

record TlsTrustStore_AnchorTypeDef =
  a_occupied :: u8
  a_reserved :: u8
  a_derLength :: u16
  a_subject :: string
  a_der :: "u8 list"

record TlsTrustStore_SnapshotTypeDef =
  ts_magic :: u32
  ts_version :: u16
  ts_reserved :: u16
  ts_generation :: u32
  ts_anchors :: "TlsTrustStore_AnchorTypeDef list"
  ts_crc :: u32

text \<open>The previous and the legacy struct differ from the current one only in the number of
  anchors, 5 and 3 instead of 6; they share the record.\<close>

type_synonym TlsTrustStore_PreviousSnapshotTypeDef = TlsTrustStore_SnapshotTypeDef
type_synonym TlsTrustStore_LegacySnapshotTypeDef = TlsTrustStore_SnapshotTypeDef

record TlsTrustStore_State =
  trustStoreSnapshot :: TlsTrustStore_SnapshotTypeDef
  trustStoreActiveAddress :: u32
  trustStoreMutex :: bool

subsection \<open>Object representations\<close>

definition put_anchor :: "TlsTrustStore_AnchorTypeDef \<Rightarrow> u8 list" where
  "put_anchor a = put_u8 (a_occupied a) @ put_u8 (a_reserved a) @ put_u16 (a_derLength a) @
     put_chars (a_subject a) @ a_der a"

definition get_anchor :: "u8 list \<Rightarrow> TlsTrustStore_AnchorTypeDef \<times> u8 list" where
  "get_anchor bs =
     (let (occupied, bs) = get_u8 bs; (reserved, bs) = get_u8 bs; (derLength, bs) = get_u16 bs;
          (subject, bs) = get_chars 128 bs; (der, bs) = get_bytes 2048 bs
      in (\<lparr>a_occupied = occupied, a_reserved = reserved, a_derLength = derLength, a_subject = subject,
           a_der = der\<rparr>, bs))"

definition put_trust :: "TlsTrustStore_SnapshotTypeDef \<Rightarrow> u8 list" where
  "put_trust s = put_u32 (ts_magic s) @ put_u16 (ts_version s) @ put_u16 (ts_reserved s) @
     put_u32 (ts_generation s) @ put_array put_anchor (ts_anchors s) @ put_u32 (ts_crc s)"

definition get_trust :: "nat \<Rightarrow> u8 list \<Rightarrow> TlsTrustStore_SnapshotTypeDef" where
  "get_trust n bs =
     (let (magic, bs) = get_u32 bs; (version, bs) = get_u16 bs; (reserved, bs) = get_u16 bs;
          (generation, bs) = get_u32 bs; (anchors, bs) = get_array n get_anchor bs; (crc, bs) = get_u32 bs
      in \<lparr>ts_magic = magic, ts_version = version, ts_reserved = reserved, ts_generation = generation,
          ts_anchors = anchors, ts_crc = crc\<rparr>)"

subsection \<open>Validation\<close>

definition tlsTrustStore_Crc :: "u8 list \<Rightarrow> u32" where
  "tlsTrustStore_Crc bytes = crc32 bytes"

text \<open>The body of the three validation loops.\<close>

definition anchor_sound :: "TlsTrustStore_AnchorTypeDef \<Rightarrow> bool" where
  "anchor_sound anchor \<longleftrightarrow>
     \<not> (a_occupied anchor \<noteq> 0 \<and>
        (a_derLength anchor = 0 \<or> a_derLength anchor > 2048 \<or> CHR 0x00 \<notin> set (a_subject anchor)))"

definition tlsTrustStore_IsSnapshotValid :: "TlsTrustStore_SnapshotTypeDef \<Rightarrow> bool" where
  "tlsTrustStore_IsSnapshotValid candidate =
     (if ts_magic candidate \<noteq> 0x54525354 \<or> ts_version candidate \<noteq> 3 \<or>
         ts_crc candidate \<noteq> tlsTrustStore_Crc (take 13092 (put_trust candidate))
      then False else list_all anchor_sound (take 6 (ts_anchors candidate)))"

definition tlsTrustStore_IsLegacySnapshotValid :: "TlsTrustStore_LegacySnapshotTypeDef \<Rightarrow> bool" where
  "tlsTrustStore_IsLegacySnapshotValid candidate =
     (if ts_magic candidate \<noteq> 0x54525354 \<or> ts_version candidate \<noteq> 1 \<or>
         ts_crc candidate \<noteq> tlsTrustStore_Crc (take 6552 (put_trust candidate))
      then False else list_all anchor_sound (take 3 (ts_anchors candidate)))"

definition tlsTrustStore_IsPreviousSnapshotValid :: "TlsTrustStore_PreviousSnapshotTypeDef \<Rightarrow> bool" where
  "tlsTrustStore_IsPreviousSnapshotValid candidate =
     (if ts_magic candidate \<noteq> 0x54525354 \<or> ts_version candidate \<noteq> 2 \<or>
         ts_crc candidate \<noteq> tlsTrustStore_Crc (take 10912 (put_trust candidate))
      then False else list_all anchor_sound (take 5 (ts_anchors candidate)))"

definition tlsTrustStore_ReadSnapshot :: "u32 \<Rightarrow> env \<Rightarrow> bool \<times> TlsTrustStore_SnapshotTypeDef \<times> env" where
  "tlsTrustStore_ReadSnapshot address env =
     load_snapshot (get_trust 6) 13096 tlsTrustStore_IsSnapshotValid address env"

definition tlsTrustStore_ReadLegacySnapshot ::
  "u32 \<Rightarrow> env \<Rightarrow> bool \<times> TlsTrustStore_LegacySnapshotTypeDef \<times> env" where
  "tlsTrustStore_ReadLegacySnapshot address env =
     load_snapshot (get_trust 3) 6556 tlsTrustStore_IsLegacySnapshotValid address env"

definition tlsTrustStore_ReadPreviousSnapshot ::
  "u32 \<Rightarrow> env \<Rightarrow> bool \<times> TlsTrustStore_PreviousSnapshotTypeDef \<times> env" where
  "tlsTrustStore_ReadPreviousSnapshot address env =
     load_snapshot (get_trust 5) 10916 tlsTrustStore_IsPreviousSnapshotValid address env"

subsection \<open>Migration and save\<close>

definition zero_anchor :: TlsTrustStore_AnchorTypeDef where
  "zero_anchor = \<lparr>a_occupied = 0, a_reserved = 0, a_derLength = 0, a_subject = memset_chars 128,
     a_der = replicate 2048 0\<rparr>"

definition zero_trust :: TlsTrustStore_SnapshotTypeDef where
  "zero_trust = \<lparr>ts_magic = 0, ts_version = 0, ts_reserved = 0, ts_generation = 0,
     ts_anchors = replicate 6 zero_anchor, ts_crc = 0\<rparr>"

definition tlsTrustStore_MigratePrevious ::
  "TlsTrustStore_PreviousSnapshotTypeDef \<Rightarrow> TlsTrustStore_SnapshotTypeDef" where
  "tlsTrustStore_MigratePrevious previous =
     zero_trust\<lparr>ts_generation := ts_generation previous,
       ts_anchors := ts_anchors previous @ drop 5 (ts_anchors zero_trust)\<rparr>"

definition tlsTrustStore_MigrateLegacy ::
  "TlsTrustStore_LegacySnapshotTypeDef \<Rightarrow> TlsTrustStore_SnapshotTypeDef" where
  "tlsTrustStore_MigrateLegacy legacy =
     zero_trust\<lparr>ts_generation := ts_generation legacy,
       ts_anchors := ts_anchors legacy @ drop 3 (ts_anchors zero_trust)\<rparr>"

text \<open>The erase loop of \<open>tlsTrustStore_Save\<close>: sectors left, current sector, bank.\<close>

fun tlsTrustStore_EraseBank :: "nat \<Rightarrow> nat \<Rightarrow> u32 \<Rightarrow> env \<Rightarrow> W25Q64_StatusTypeDef \<times> env" where
  "tlsTrustStore_EraseBank 0 sector target env = (W25Q64_STATUS_OK, env)"
| "tlsTrustStore_EraseBank (Suc n) sector target env =
     (let (status, env1) = W25Q64_EraseSector (target + of_nat sector * 4096) env in
      if status \<noteq> W25Q64_STATUS_OK then (status, env1)
      else tlsTrustStore_EraseBank n (Suc sector) target env1)"

definition tlsTrustStore_Save ::
  "TlsTrustStore_SnapshotTypeDef \<Rightarrow> TlsTrustStore_State \<Rightarrow> env \<Rightarrow>
   HealthCheck_StatusTypeDef \<times> TlsTrustStore_State \<times> env" where
  "tlsTrustStore_Save candidate st env =
     (let target = (if trustStoreActiveAddress st = FLASH_LAYOUT_TLS_TRUST_STORE_BANK_A
                    then FLASH_LAYOUT_TLS_TRUST_STORE_BANK_B else FLASH_LAYOUT_TLS_TRUST_STORE_BANK_A);
          (s1, env1) = tlsTrustStore_EraseBank 4 0 target env in
      if s1 \<noteq> W25Q64_STATUS_OK then (HEALTH_CHECK_STATUS_ERROR, st, env1)
      else
        let (s2, env2) = W25Q64_Program target (Some (put_trust candidate)) env1 in
        if s2 \<noteq> W25Q64_STATUS_OK then (HEALTH_CHECK_STATUS_ERROR, st, env2)
        else
          let (valid, readBack, env3) = tlsTrustStore_ReadSnapshot target env2 in
          if \<not> valid then (HEALTH_CHECK_STATUS_ERROR, st, env3)
          else (HEALTH_CHECK_STATUS_OK,
                st\<lparr>trustStoreSnapshot := readBack, trustStoreActiveAddress := target\<rparr>, env3))"

definition tlsTrustStore_Stamp :: "TlsTrustStore_SnapshotTypeDef \<Rightarrow> TlsTrustStore_SnapshotTypeDef" where
  "tlsTrustStore_Stamp candidate =
     (let candidate = candidate\<lparr>ts_magic := 0x54525354, ts_version := 3, ts_reserved := 0,
            ts_generation := ts_generation candidate + 1\<rparr>
      in candidate\<lparr>ts_crc := tlsTrustStore_Crc (take 13092 (put_trust candidate))\<rparr>)"

definition tlsTrustStore_CommitCandidate ::
  "TlsTrustStore_SnapshotTypeDef \<Rightarrow> TlsTrustStore_State \<Rightarrow> env \<Rightarrow>
   TlsTrustStore_StatusTypeDef \<times> TlsTrustStore_State \<times> env" where
  "tlsTrustStore_CommitCandidate candidate st env =
     (let (saved, st1, env1) = tlsTrustStore_Save (tlsTrustStore_Stamp candidate) st env
      in (if saved = HEALTH_CHECK_STATUS_OK then TLS_TRUST_STORE_STATUS_OK
          else TLS_TRUST_STORE_STATUS_STORAGE_ERROR, st1, env1))"

definition tlsTrustStore_ValidateDer ::
  "mbedtls_ca \<Rightarrow> u8 list option \<Rightarrow> TlsTrustStore_StatusTypeDef + TlsTrustStore_AnchorTypeDef" where
  "tlsTrustStore_ValidateDer mb der =
     (case der of
        None \<Rightarrow> Inl TLS_TRUST_STORE_STATUS_INVALID_ARGUMENT
      | Some bytes \<Rightarrow>
          if length bytes = 0 \<or> length bytes > 2048 then Inl TLS_TRUST_STORE_STATUS_INVALID_ARGUMENT
          else
            let result = crt_parse_der_nocopy mb bytes in
            if result \<noteq> 0 then
              if result = err_x509_alloc_failed mb \<or> result = err_pk_alloc_failed mb \<or>
                 (- result) AND 0x7F = - err_mpi_alloc_failed mb \<or>
                 (- result) AND 0x7F = - err_asn1_alloc_failed mb
              then Inl TLS_TRUST_STORE_STATUS_NO_MEMORY
              else Inl TLS_TRUST_STORE_STATUS_INVALID_CERTIFICATE
            else if crt_get_ca_istrue mb bytes \<noteq> 1 \<or> crt_check_cert_sign mb bytes \<noteq> 0
            then Inl TLS_TRUST_STORE_STATUS_NOT_CA
            else
              let (subjectLength, subject) = dn_gets mb bytes in
              if subjectLength \<le> 0 \<or> subjectLength \<ge> 128
              then Inl TLS_TRUST_STORE_STATUS_INVALID_CERTIFICATE
              else Inr (zero_anchor\<lparr>a_subject := subject, a_occupied := 1,
                     a_derLength := of_nat (length bytes),
                     a_der := bytes @ drop (length bytes) (a_der zero_anchor)\<rparr>))"

subsection \<open>Start-up\<close>

definition commit_status :: "TlsTrustStore_StatusTypeDef \<Rightarrow> HealthCheck_StatusTypeDef" where
  "commit_status status =
     (if status = TLS_TRUST_STORE_STATUS_OK then HEALTH_CHECK_STATUS_OK else HEALTH_CHECK_STATUS_ERROR)"

definition tlsTrustStore_InitEmpty ::
  "TlsTrustStore_State \<Rightarrow> env \<Rightarrow> HealthCheck_StatusTypeDef \<times> TlsTrustStore_State \<times> env" where
  "tlsTrustStore_InitEmpty st env =
     (let (status, st1, env1) = tlsTrustStore_CommitCandidate zero_trust
            (st\<lparr>trustStoreActiveAddress := FLASH_LAYOUT_TLS_TRUST_STORE_BANK_B\<rparr>) env
      in (commit_status status, st1, env1))"

definition tlsTrustStore_InitLegacy ::
  "TlsTrustStore_State \<Rightarrow> env \<Rightarrow> HealthCheck_StatusTypeDef \<times> TlsTrustStore_State \<times> env" where
  "tlsTrustStore_InitLegacy st env =
     (let (valid1, legacy1, env1) = tlsTrustStore_ReadLegacySnapshot FLASH_LAYOUT_TLS_TRUST_STORE_LEGACY_BANK_A env;
          st1 = (if valid1 then st\<lparr>trustStoreSnapshot := tlsTrustStore_MigrateLegacy legacy1\<rparr> else st);
          (valid2, legacy2, env2) = tlsTrustStore_ReadLegacySnapshot FLASH_LAYOUT_TLS_TRUST_STORE_LEGACY_BANK_B env1;
          st2 = (if valid2 \<and> (\<not> valid1 \<or> ts_generation legacy2 \<ge> ts_generation legacy1)
                 then st1\<lparr>trustStoreSnapshot := tlsTrustStore_MigrateLegacy legacy2\<rparr> else st1)
      in if valid1 \<or> valid2 then
           let (status, st3, env3) = tlsTrustStore_CommitCandidate (trustStoreSnapshot st2)
                 (st2\<lparr>trustStoreActiveAddress := FLASH_LAYOUT_TLS_TRUST_STORE_BANK_B\<rparr>) env2
           in (commit_status status, st3, env3)
         else tlsTrustStore_InitEmpty st2 env2)"

definition tlsTrustStore_InitPrevious ::
  "TlsTrustStore_State \<Rightarrow> env \<Rightarrow> HealthCheck_StatusTypeDef \<times> TlsTrustStore_State \<times> env" where
  "tlsTrustStore_InitPrevious st env =
     (let (valid1, previous1, env1) =
            tlsTrustStore_ReadPreviousSnapshot FLASH_LAYOUT_TLS_TRUST_STORE_PREVIOUS_BANK_A env;
          st1 = (if valid1 then st\<lparr>trustStoreSnapshot := tlsTrustStore_MigratePrevious previous1\<rparr> else st);
          (valid2, previous2, env2) =
            tlsTrustStore_ReadPreviousSnapshot FLASH_LAYOUT_TLS_TRUST_STORE_PREVIOUS_BANK_B env1;
          st2 = (if valid2 \<and> (\<not> valid1 \<or> ts_generation previous2 \<ge> ts_generation previous1)
                 then st1\<lparr>trustStoreSnapshot := tlsTrustStore_MigratePrevious previous2\<rparr> else st1)
      in if valid1 \<or> valid2 then
           let (status, st3, env3) = tlsTrustStore_CommitCandidate (trustStoreSnapshot st2)
                 (st2\<lparr>trustStoreActiveAddress := FLASH_LAYOUT_TLS_TRUST_STORE_BANK_A\<rparr>) env2
           in (commit_status status, st3, env3)
         else tlsTrustStore_InitLegacy st2 env2)"

definition TlsTrustStore_Init ::
  "TlsTrustStore_State \<Rightarrow> env \<Rightarrow> HealthCheck_StatusTypeDef \<times> TlsTrustStore_State \<times> env" where
  "TlsTrustStore_Init st env =
     (let (created, env0) = xSemaphoreCreateMutexStatic env;
          st = st\<lparr>trustStoreMutex := created\<rparr> in
      if \<not> created then (HEALTH_CHECK_STATUS_ERROR, st, env0)
      else
        let (firstValid, first, env1) = tlsTrustStore_ReadSnapshot FLASH_LAYOUT_TLS_TRUST_STORE_BANK_A env0;
            st = st\<lparr>trustStoreSnapshot := first\<rparr>;
            (secondValid, second, env2) = tlsTrustStore_ReadSnapshot FLASH_LAYOUT_TLS_TRUST_STORE_BANK_B env1
        in if firstValid \<and> (\<not> secondValid \<or> ts_generation first \<ge> ts_generation second) then
             let (again, first, env3) = tlsTrustStore_ReadSnapshot FLASH_LAYOUT_TLS_TRUST_STORE_BANK_A env2;
                 st = st\<lparr>trustStoreSnapshot := first\<rparr>
             in if \<not> again then (HEALTH_CHECK_STATUS_ERROR, st, env3)
                else (HEALTH_CHECK_STATUS_OK,
                      st\<lparr>trustStoreActiveAddress := FLASH_LAYOUT_TLS_TRUST_STORE_BANK_A\<rparr>, env3)
           else if secondValid then
             (HEALTH_CHECK_STATUS_OK,
              st\<lparr>trustStoreSnapshot := second, trustStoreActiveAddress := FLASH_LAYOUT_TLS_TRUST_STORE_BANK_B\<rparr>, env2)
           else tlsTrustStore_InitPrevious st env2)"

subsection \<open>Operations\<close>

definition anchor_id_ok :: "u8 \<Rightarrow> TlsTrustStore_State \<Rightarrow> bool" where
  "anchor_id_ok anchorId st \<longleftrightarrow> \<not> (anchorId < 1 \<or> anchorId > 6 \<or> \<not> trustStoreMutex st)"

definition anchor_at :: "u8 \<Rightarrow> TlsTrustStore_State \<Rightarrow> TlsTrustStore_AnchorTypeDef" where
  "anchor_at anchorId st = ts_anchors (trustStoreSnapshot st) ! unat (anchorId - 1)"

definition TlsTrustStore_Exists :: "u8 \<Rightarrow> TlsTrustStore_State \<Rightarrow> env \<Rightarrow> bool \<times> env" where
  "TlsTrustStore_Exists anchorId st env =
     (if \<not> anchor_id_ok anchorId st then (False, env)
      else let (taken, env1) = xSemaphoreTake env in (taken \<and> a_occupied (anchor_at anchorId st) \<noteq> 0, env1))"

fun tlsTrustStore_ListLoop ::
  "nat \<Rightarrow> nat \<Rightarrow> TlsTrustStore_AnchorTypeDef list \<Rightarrow> TlsTrustStore_InfoTypeDef list" where
  "tlsTrustStore_ListLoop index room [] = []"
| "tlsTrustStore_ListLoop index room (anchor # anchors) =
     (if room = 0 then []
      else if a_occupied anchor = 0 then tlsTrustStore_ListLoop (Suc index) room anchors
      else \<lparr>info_id = of_nat (index + 1), info_derLength = a_derLength anchor,
            info_subject = (strncpy (memset_chars 128) (a_subject anchor) 127)[127 := CHR 0x00]\<rparr>
           # tlsTrustStore_ListLoop (Suc index) (room - 1) anchors)"

definition TlsTrustStore_List ::
  "nat \<Rightarrow> TlsTrustStore_State \<Rightarrow> env \<Rightarrow> TlsTrustStore_InfoTypeDef list \<times> env" where
  "TlsTrustStore_List capacity st env =
     (if capacity = 0 \<or> \<not> trustStoreMutex st then ([], env)
      else
        let (taken, env1) = xSemaphoreTake env
        in if \<not> taken then ([], env1)
           else (tlsTrustStore_ListLoop 0 capacity (take 6 (ts_anchors (trustStoreSnapshot st))), env1))"

text \<open>The parsed certificate is the library's object for the bytes returned.\<close>

definition TlsTrustStore_Parse ::
  "mbedtls_ca \<Rightarrow> u8 \<Rightarrow> TlsTrustStore_State \<Rightarrow> env \<Rightarrow> TlsTrustStore_StatusTypeDef \<times> u8 list option \<times> env" where
  "TlsTrustStore_Parse mb anchorId st env =
     (if \<not> anchor_id_ok anchorId st then (TLS_TRUST_STORE_STATUS_NOT_FOUND, None, env)
      else
        let (taken, env1) = xSemaphoreTake env in
        if \<not> taken then (TLS_TRUST_STORE_STATUS_STORAGE_ERROR, None, env1)
        else
          let anchor = anchor_at anchorId st; der = take (unat (a_derLength anchor)) (a_der anchor) in
          if a_occupied anchor \<noteq> 0 then
            if crt_parse_der mb der = 0 then (TLS_TRUST_STORE_STATUS_OK, Some der, env1)
            else (TLS_TRUST_STORE_STATUS_INVALID_CERTIFICATE, None, env1)
          else (TLS_TRUST_STORE_STATUS_NOT_FOUND, None, env1))"

fun free_anchor :: "TlsTrustStore_AnchorTypeDef list \<Rightarrow> nat" where
  "free_anchor [] = 0"
| "free_anchor (a # as) = (if a_occupied a = 0 then 0 else Suc (free_anchor as))"

text \<open>Validation into one slot of the candidate and commit, as \<open>Add\<close> and \<open>Replace\<close> do it.\<close>

definition tlsTrustStore_Store ::
  "mbedtls_ca \<Rightarrow> nat \<Rightarrow> u8 list option \<Rightarrow> TlsTrustStore_State \<Rightarrow> env \<Rightarrow>
   TlsTrustStore_StatusTypeDef \<times> TlsTrustStore_State \<times> env" where
  "tlsTrustStore_Store mb index der st env =
     (case tlsTrustStore_ValidateDer mb der of
        Inl status \<Rightarrow> (status, st, env)
      | Inr anchor \<Rightarrow> tlsTrustStore_CommitCandidate ((trustStoreSnapshot st)
          \<lparr>ts_anchors := (ts_anchors (trustStoreSnapshot st))[index := anchor]\<rparr>) st env)"

definition TlsTrustStore_Add ::
  "mbedtls_ca \<Rightarrow> u8 list option \<Rightarrow> TlsTrustStore_State \<Rightarrow> env \<Rightarrow>
   TlsTrustStore_StatusTypeDef \<times> u8 option \<times> TlsTrustStore_State \<times> env" where
  "TlsTrustStore_Add mb der st env =
     (if \<not> trustStoreMutex st then (TLS_TRUST_STORE_STATUS_STORAGE_ERROR, None, st, env)
      else
        let (taken, env1) = xSemaphoreTake env in
        if \<not> taken then (TLS_TRUST_STORE_STATUS_STORAGE_ERROR, None, st, env1)
        else
          let index = free_anchor (take 6 (ts_anchors (trustStoreSnapshot st))) in
          if index = 6 then (TLS_TRUST_STORE_STATUS_FULL, None, st, env1)
          else
            let (status, st1, env2) = tlsTrustStore_Store mb index der st env1
            in (status, if status = TLS_TRUST_STORE_STATUS_OK then Some (of_nat (index + 1)) else None, st1, env2))"

definition TlsTrustStore_Replace ::
  "mbedtls_ca \<Rightarrow> u8 \<Rightarrow> u8 list option \<Rightarrow> TlsTrustStore_State \<Rightarrow> env \<Rightarrow>
   TlsTrustStore_StatusTypeDef \<times> TlsTrustStore_State \<times> env" where
  "TlsTrustStore_Replace mb anchorId der st env =
     (if \<not> anchor_id_ok anchorId st then (TLS_TRUST_STORE_STATUS_NOT_FOUND, st, env)
      else
        let (taken, env1) = xSemaphoreTake env in
        if \<not> taken then (TLS_TRUST_STORE_STATUS_STORAGE_ERROR, st, env1)
        else if a_occupied (anchor_at anchorId st) = 0 then (TLS_TRUST_STORE_STATUS_NOT_FOUND, st, env1)
        else tlsTrustStore_Store mb (unat (anchorId - 1)) der st env1)"

definition TlsTrustStore_Delete ::
  "u8 \<Rightarrow> TlsTrustStore_State \<Rightarrow> env \<Rightarrow> TlsTrustStore_StatusTypeDef \<times> TlsTrustStore_State \<times> env" where
  "TlsTrustStore_Delete anchorId st env =
     (if \<not> anchor_id_ok anchorId st then (TLS_TRUST_STORE_STATUS_NOT_FOUND, st, env)
      else
        let (taken, env1) = xSemaphoreTake env in
        if \<not> taken then (TLS_TRUST_STORE_STATUS_STORAGE_ERROR, st, env1)
        else if a_occupied (anchor_at anchorId st) = 0 then (TLS_TRUST_STORE_STATUS_NOT_FOUND, st, env1)
        else tlsTrustStore_CommitCandidate ((trustStoreSnapshot st)
               \<lparr>ts_anchors := (ts_anchors (trustStoreSnapshot st))[unat (anchorId - 1) := zero_anchor]\<rparr>) st env1)"

definition TlsTrustStore_Reset ::
  "TlsTrustStore_State \<Rightarrow> env \<Rightarrow> TlsTrustStore_StatusTypeDef \<times> TlsTrustStore_State \<times> env" where
  "TlsTrustStore_Reset st env =
     (if \<not> trustStoreMutex st then (TLS_TRUST_STORE_STATUS_STORAGE_ERROR, st, env)
      else
        let (taken, env1) = xSemaphoreTake env in
        if \<not> taken then (TLS_TRUST_STORE_STATUS_STORAGE_ERROR, st, env1)
        else tlsTrustStore_CommitCandidate
               (zero_trust\<lparr>ts_generation := ts_generation (trustStoreSnapshot st)\<rparr>) st env1)"

subsection \<open>Well-formed values and the abstract store\<close>

definition wf_anchor :: "TlsTrustStore_AnchorTypeDef \<Rightarrow> bool" where
  "wf_anchor a \<longleftrightarrow> length (a_subject a) = 128 \<and> length (a_der a) = 2048"

definition wf_trust :: "nat \<Rightarrow> TlsTrustStore_SnapshotTypeDef \<Rightarrow> bool" where
  "wf_trust n s \<longleftrightarrow> length (ts_anchors s) = n \<and> list_all wf_anchor (ts_anchors s)"

definition trust_fit :: "TlsTrustStore_SnapshotTypeDef \<Rightarrow> bool" where
  "trust_fit s \<longleftrightarrow> wf_trust 6 s \<and> list_all anchor_sound (ts_anchors s)"

text \<open>What the library documents of \<open>mbedtls_x509_dn_gets\<close>: it fills the caller's buffer of
  128 characters and terminates what it wrote when it reports a length that fits.\<close>

definition dn_gets_documented :: "mbedtls_ca \<Rightarrow> bool" where
  "dn_gets_documented mb \<longleftrightarrow> (\<forall>der. length (snd (dn_gets mb der)) = 128 \<and>
     (0 < fst (dn_gets mb der) \<and> fst (dn_gets mb der) < 128 \<longrightarrow> CHR 0x00 \<in> set (snd (dn_gets mb der))))"

type_synonym trust_slot = "(u8 list \<times> string) option"

definition anchor_view :: "TlsTrustStore_AnchorTypeDef \<Rightarrow> trust_slot" where
  "anchor_view a = (if a_occupied a = 0 then None
     else Some (take (unat (a_derLength a)) (a_der a), c_str (a_subject a)))"

definition trust_view :: "TlsTrustStore_SnapshotTypeDef \<Rightarrow> trust_slot list" where
  "trust_view s = map anchor_view (ts_anchors s)"

datatype trust_request =
    Add_Anchor "u8 list option"
  | Replace_Anchor u8 "u8 list option"
  | Delete_Anchor u8
  | Reset_Anchors

fun trust_serve :: "mbedtls_ca \<Rightarrow> trust_request \<Rightarrow> TlsTrustStore_State \<Rightarrow> env \<Rightarrow>
    TlsTrustStore_StatusTypeDef \<times> TlsTrustStore_State \<times> env" where
  "trust_serve mb (Add_Anchor der) st env =
     (let (status, _, st', env') = TlsTrustStore_Add mb der st env in (status, st', env'))"
| "trust_serve mb (Replace_Anchor i der) st env = TlsTrustStore_Replace mb i der st env"
| "trust_serve mb (Delete_Anchor i) st env = TlsTrustStore_Delete i st env"
| "trust_serve mb Reset_Anchors st env = TlsTrustStore_Reset st env"

fun first_vacant :: "trust_slot list \<Rightarrow> nat" where
  "first_vacant [] = 0"
| "first_vacant (None # ss) = 0"
| "first_vacant (Some _ # ss) = Suc (first_vacant ss)"

text \<open>The abstract store: six slots, each empty or holding a certificate and its subject.\<close>

definition trust_content :: "mbedtls_ca \<Rightarrow> u8 list option \<Rightarrow> TlsTrustStore_StatusTypeDef + u8 list \<times> string" where
  "trust_content mb der = (case tlsTrustStore_ValidateDer mb der of
     Inl e \<Rightarrow> Inl e | Inr _ \<Rightarrow> Inr (the der, c_str (snd (dn_gets mb (the der)))))"

fun trust_spec :: "mbedtls_ca \<Rightarrow> trust_request \<Rightarrow> trust_slot list \<Rightarrow> TlsTrustStore_StatusTypeDef + trust_slot list" where
  "trust_spec mb (Add_Anchor der) slots =
     (if None \<notin> set slots then Inl TLS_TRUST_STORE_STATUS_FULL
      else case trust_content mb der of Inl e \<Rightarrow> Inl e | Inr x \<Rightarrow> Inr (slots[first_vacant slots := Some x]))"
| "trust_spec mb (Replace_Anchor i der) slots =
     (if i = 0 \<or> unat i > length slots \<or> slots ! (unat i - 1) = None then Inl TLS_TRUST_STORE_STATUS_NOT_FOUND
      else case trust_content mb der of Inl e \<Rightarrow> Inl e | Inr x \<Rightarrow> Inr (slots[unat i - 1 := Some x]))"
| "trust_spec mb (Delete_Anchor i) slots =
     (if i = 0 \<or> unat i > length slots \<or> slots ! (unat i - 1) = None then Inl TLS_TRUST_STORE_STATUS_NOT_FOUND
      else Inr (slots[unat i - 1 := None]))"
| "trust_spec mb Reset_Anchors slots = Inr (replicate (length slots) None)"

text \<open>The snapshot a request wants to store.\<close>

fun trust_candidate :: "mbedtls_ca \<Rightarrow> trust_request \<Rightarrow> TlsTrustStore_SnapshotTypeDef \<Rightarrow> TlsTrustStore_SnapshotTypeDef" where
  "trust_candidate mb (Add_Anchor der) s =
     s\<lparr>ts_anchors := (ts_anchors s)[free_anchor (ts_anchors s) := projr (tlsTrustStore_ValidateDer mb der)]\<rparr>"
| "trust_candidate mb (Replace_Anchor i der) s =
     s\<lparr>ts_anchors := (ts_anchors s)[unat (i - 1) := projr (tlsTrustStore_ValidateDer mb der)]\<rparr>"
| "trust_candidate mb (Delete_Anchor i) s = s\<lparr>ts_anchors := (ts_anchors s)[unat (i - 1) := zero_anchor]\<rparr>"
| "trust_candidate mb Reset_Anchors s = zero_trust\<lparr>ts_generation := ts_generation s\<rparr>"

abbreviation ts_held :: "(nat \<Rightarrow> u8) \<Rightarrow> u32 \<Rightarrow> TlsTrustStore_SnapshotTypeDef option" where
  "ts_held c bank \<equiv> snapshot_at (get_trust 6) 13096 tlsTrustStore_IsSnapshotValid c bank"

abbreviation ts_live :: "TlsTrustStore_State \<Rightarrow> (nat \<Rightarrow> u8) \<Rightarrow> bool" where
  "ts_live st c \<equiv> live (get_trust 6) 13096 tlsTrustStore_IsSnapshotValid FLASH_LAYOUT_TLS_TRUST_STORE_BANK_A
     FLASH_LAYOUT_TLS_TRUST_STORE_BANK_B (trustStoreSnapshot st) (trustStoreActiveAddress st) c"

abbreviation ts_committed :: "TlsTrustStore_State \<Rightarrow> (nat \<Rightarrow> u8) \<Rightarrow> bool" where
  "ts_committed st c \<equiv> committed (get_trust 6) 13096 tlsTrustStore_IsSnapshotValid ts_generation
     FLASH_LAYOUT_TLS_TRUST_STORE_BANK_A FLASH_LAYOUT_TLS_TRUST_STORE_BANK_B
     (trustStoreSnapshot st) (trustStoreActiveAddress st) c"

abbreviation (input) ts_inactive :: "TlsTrustStore_State \<Rightarrow> u32" where
  "ts_inactive st \<equiv> other_sector FLASH_LAYOUT_TLS_TRUST_STORE_BANK_A FLASH_LAYOUT_TLS_TRUST_STORE_BANK_B
     (trustStoreActiveAddress st)"

text \<open>Static storage before the first start, a board that came up on erased flash, and a
  library that accepts every certificate under one subject.\<close>

definition ts_static :: TlsTrustStore_State where
  "ts_static = \<lparr>trustStoreSnapshot = zero_trust, trustStoreActiveAddress = 0, trustStoreMutex = False\<rparr>"

definition ts_first :: "TlsTrustStore_State \<times> env" where
  "ts_first = snd (TlsTrustStore_Init ts_static blank_env)"

definition sample_ca :: mbedtls_ca where
  "sample_ca = \<lparr>crt_parse_der = (\<lambda>_. 0), crt_parse_der_nocopy = (\<lambda>_. 0), crt_get_ca_istrue = (\<lambda>_. 1), crt_check_cert_sign = (\<lambda>_. 0),
     dn_gets = (\<lambda>_. (7, strncpy (memset_chars 128) ''CN=Root'' 127)), err_x509_alloc_failed = - 10368,
     err_pk_alloc_failed = - 16256, err_mpi_alloc_failed = - 16, err_asn1_alloc_failed = - 106\<rparr>"

definition sample_anchor :: TlsTrustStore_AnchorTypeDef where
  "sample_anchor = zero_anchor\<lparr>a_occupied := 1, a_derLength := 2, a_subject := strncpy (memset_chars 128) ''CN=Root'' 127,
     a_der := [0x30, 0x00] @ replicate 2046 0\<rparr>"

definition sample_five_body :: TlsTrustStore_PreviousSnapshotTypeDef where
  "sample_five_body = \<lparr>ts_magic = 0x54525354, ts_version = 2, ts_reserved = 0, ts_generation = 9,
     ts_anchors = sample_anchor # replicate 4 zero_anchor, ts_crc = 0\<rparr>"

definition sample_five :: TlsTrustStore_PreviousSnapshotTypeDef where
  "sample_five = sample_five_body\<lparr>ts_crc := tlsTrustStore_Crc (take 10912 (put_trust sample_five_body))\<rparr>"

definition five_env :: env where
  "five_env = blank_env\<lparr>cells := (\<lambda>i. let k = i - unat FLASH_LAYOUT_TLS_TRUST_STORE_PREVIOUS_BANK_A in
     if unat FLASH_LAYOUT_TLS_TRUST_STORE_PREVIOUS_BANK_A \<le> i \<and> k < 10916 then put_trust sample_five ! k else 0xFF)\<rparr>"

abbreviation ts_held_previous :: "(nat \<Rightarrow> u8) \<Rightarrow> u32 \<Rightarrow> TlsTrustStore_PreviousSnapshotTypeDef option" where
  "ts_held_previous c bank \<equiv> snapshot_at (get_trust 5) 10916 tlsTrustStore_IsPreviousSnapshotValid c bank"

abbreviation ts_held_legacy :: "(nat \<Rightarrow> u8) \<Rightarrow> u32 \<Rightarrow> TlsTrustStore_LegacySnapshotTypeDef option" where
  "ts_held_legacy c bank \<equiv> snapshot_at (get_trust 3) 6556 tlsTrustStore_IsLegacySnapshotValid c bank"

text \<open>The choice between two older snapshots: the higher generation, bank B on a tie.\<close>

definition later_of :: "TlsTrustStore_SnapshotTypeDef option \<Rightarrow> TlsTrustStore_SnapshotTypeDef option \<Rightarrow>
    TlsTrustStore_SnapshotTypeDef option" where
  "later_of first second = (case second of None \<Rightarrow> first | Some b \<Rightarrow>
     (case first of None \<Rightarrow> Some b | Some a \<Rightarrow> if ts_generation b \<ge> ts_generation a then Some b else Some a))"

subsection \<open>Object representations round trip\<close>

lemma length_put_anchor [simp]: "wf_anchor a \<Longrightarrow> length (put_anchor a) = 2180"
  by (simp add: put_anchor_def wf_anchor_def)

lemma get_put_anchor [codec]: "wf_anchor a \<Longrightarrow> get_anchor (put_anchor a @ bs) = (a, bs)"
  by (simp add: get_anchor_def put_anchor_def wf_anchor_def)

lemma length_put_trust: "wf_trust n s \<Longrightarrow> length (put_trust s) = 16 + n * 2180"
  by (simp add: put_trust_def wf_trust_def length_put_array[where n = 2180] list_all_iff)

lemma get_put_trust: "wf_trust n s \<Longrightarrow> get_trust n (put_trust s) = s"
proof -
  assume wf: "wf_trust n s"
  have "get_array n get_anchor (put_array put_anchor (ts_anchors s) @ bs) = (ts_anchors s, bs)" for bs
    using wf by (intro get_put_array) (auto simp: wf_trust_def list_all_iff get_put_anchor)
  moreover have "get_u32 (put_u32 (ts_crc s)) = (ts_crc s, [])"
    using get_put_u32[of "ts_crc s" "[]"] by simp
  ultimately show ?thesis
    by (simp add: get_trust_def put_trust_def)
qed

lemma snd_get_anchor [simp]: "snd (get_anchor bs) = drop 2180 bs"
  by (simp add: get_anchor_def case_prod_unfold Let_def)

lemma wf_get_anchor: "2180 \<le> length bs \<Longrightarrow> wf_anchor (fst (get_anchor bs))"
  by (simp add: get_anchor_def wf_anchor_def case_prod_unfold Let_def fst_get_bytes)

lemma wf_get_trust: "length bs = 16 + n * 2180 \<Longrightarrow> wf_trust n (get_trust n bs)"
  by (simp add: get_trust_def wf_trust_def case_prod_unfold Let_def wf_get_array[where k = 2180] wf_get_anchor)

subsection \<open>The stamp\<close>

lemma ts_Stamp_fields [simp]:
  "ts_generation (tlsTrustStore_Stamp s) = ts_generation s + 1" "ts_anchors (tlsTrustStore_Stamp s) = ts_anchors s"
  by (simp_all add: tlsTrustStore_Stamp_def Let_def)

lemma ts_Stamp_views [simp]:
  "wf_trust n (tlsTrustStore_Stamp s) = wf_trust n s" "trust_fit (tlsTrustStore_Stamp s) = trust_fit s"
  "trust_view (tlsTrustStore_Stamp s) = trust_view s"
  by (simp_all add: wf_trust_def trust_fit_def trust_view_def)

lemma ts_Stamp_valid:
  assumes "trust_fit s"
  shows "tlsTrustStore_IsSnapshotValid (tlsTrustStore_Stamp s)"
proof -
  have "take 13092 (put_trust (t\<lparr>ts_crc := c\<rparr>)) = take 13092 (put_trust t)" if "wf_trust 6 t" for t c
    using that by (simp add: put_trust_def wf_trust_def length_put_array[where n = 2180] list_all_iff)
  moreover have "wf_trust 6 (s\<lparr>ts_magic := 0x54525354, ts_version := 3, ts_reserved := 0,
      ts_generation := ts_generation s + 1\<rparr>)"
    using assms by (simp add: wf_trust_def trust_fit_def)
  ultimately show ?thesis
    using assms by (simp add: tlsTrustStore_IsSnapshotValid_def tlsTrustStore_Stamp_def trust_fit_def wf_trust_def Let_def)
qed

subsection \<open>Erasing a bank\<close>

lemma bank_sector:
  fixes target :: u32
  assumes "unat target + (k + 1) * 4096 \<le> W25Q64_CAPACITY_BYTES"
  shows "unat (target + of_nat k * 4096) = unat target + k * 4096"
proof -
  have "unat (of_nat k * 4096 :: u32) = k * 4096"
    using assms by (simp add: unat_mult_lem[THEN iffD1] unat_of_nat take_bit_nat_eq_self)
  then show ?thesis
    using assms by (simp add: unat_add_no_wrap)
qed

lemma EraseBank_spec:
  assumes "unat target mod 4096 = 0" "unat target + (k + n) * 4096 \<le> W25Q64_CAPACITY_BYTES"
    and "tlsTrustStore_EraseBank n k target env = (status, env')"
  shows "touches (unat target + k * 4096) (n * 4096) env env' \<and>
    (status = W25Q64_STATUS_OK \<longrightarrow> (\<forall>i<n * 4096. cells env' (unat target + k * 4096 + i) = 0xFF)) \<and>
    (healthy env \<longrightarrow> status = W25Q64_STATUS_OK)"
  using assms
proof (induction n arbitrary: k env)
  case 0
  then show ?case
    by auto
next
  case (Suc n)
  let ?a = "target + of_nat k * 4096 :: u32"
  have a: "unat ?a = unat target + k * 4096"
    using Suc.prems(2) by (intro bank_sector) simp
  obtain s1 env1 where e: "W25Q64_EraseSector ?a env = (s1, env1)" by fastforce
  have inside: "unat ?a < W25Q64_CAPACITY_BYTES" "unat ?a mod W25Q64_SECTOR_SIZE = 0"
    using Suc.prems(1,2) a by (auto simp: mod_add_eq[symmetric])
  note se = sector_erase[OF inside order_refl]
  have t1: "touches (unat ?a) 4096 env env1"
    using se(1)[of env] e by simp
  show ?case
  proof (cases "s1 = W25Q64_STATUS_OK")
    case False
    then have "\<not> healthy env"
      using se(3)[of env] e by auto
    then show ?thesis
      using False Suc.prems(3) e touches_mono[OF t1] a by auto
  next
    case True
    have run: "tlsTrustStore_EraseBank n (Suc k) target env1 = (status, env')"
      using Suc.prems(3) e True by simp
    have IH: "touches (unat target + Suc k * 4096) (n * 4096) env1 env'"
      "status = W25Q64_STATUS_OK \<longrightarrow> (\<forall>i<n * 4096. cells env' (unat target + Suc k * 4096 + i) = 0xFF)"
      "healthy env1 \<longrightarrow> status = W25Q64_STATUS_OK"
      using Suc.IH[OF Suc.prems(1) _ run] Suc.prems(2) by auto
    have blank: "cells_at (cells env1) (unat ?a) 4096 = replicate 4096 0xFF"
      using se(2) e True by simp
    have kept: "cells_at (cells env') (unat ?a) 4096 = cells_at (cells env1) (unat ?a) 4096"
      by (rule touches_cells_at[OF IH(1)]) (simp add: a)
    have "cells env' (unat target + k * 4096 + i) = 0xFF" if "status = W25Q64_STATUS_OK" "i < Suc n * 4096" for i
    proof (cases "i < 4096")
      case True
      then show ?thesis
        using kept blank a by (auto simp: cells_at_eq_iff)
    next
      case False
      then have lt: "i - 4096 < n * 4096"
        using that(2) by simp
      have "cells env' (unat target + Suc k * 4096 + (i - 4096)) = 0xFF"
        using IH(2)[rule_format, OF that(1) lt] .
      moreover have "unat target + Suc k * 4096 + (i - 4096) = unat target + k * 4096 + i"
        using False by simp
      ultimately show ?thesis
        by (simp only:)
    qed
    moreover have "touches (unat target + k * 4096) (Suc n * 4096) env env'"
    proof (rule touches_trans)
      show "touches (unat target + k * 4096) (Suc n * 4096) env env1"
        by (rule touches_mono[OF t1]) (simp_all add: a)
      show "touches (unat target + k * 4096) (Suc n * 4096) env1 env'"
        by (rule touches_mono[OF IH(1)]) simp_all
    qed
    ultimately show ?thesis
      using IH(3) touches_healthy[OF t1] by blast
  qed
qed

lemma bank_erase:
  assumes "bank \<in> {FLASH_LAYOUT_TLS_TRUST_STORE_BANK_A, FLASH_LAYOUT_TLS_TRUST_STORE_BANK_B}"
  shows "touches (unat bank) 16384 env (snd (tlsTrustStore_EraseBank 4 0 bank env))"
    and "tlsTrustStore_EraseBank 4 0 bank env = (W25Q64_STATUS_OK, env') \<Longrightarrow>
      cells_at (cells env') (unat bank) 13096 = replicate 13096 0xFF"
    and "healthy env \<Longrightarrow> fst (tlsTrustStore_EraseBank 4 0 bank env) = W25Q64_STATUS_OK"
proof -
  have b: "unat bank mod 4096 = 0" "unat bank + (0 + 4) * 4096 \<le> W25Q64_CAPACITY_BYTES"
    using assms by (auto simp: layout)
  obtain status env1 where run: "tlsTrustStore_EraseBank 4 0 bank env = (status, env1)" by fastforce
  note spec = EraseBank_spec[OF b run]
  show "touches (unat bank) 16384 env (snd (tlsTrustStore_EraseBank 4 0 bank env))"
    "healthy env \<Longrightarrow> fst (tlsTrustStore_EraseBank 4 0 bank env) = W25Q64_STATUS_OK"
    using spec run by simp_all
  show "cells_at (cells env') (unat bank) 13096 = replicate 13096 0xFF"
    if "tlsTrustStore_EraseBank 4 0 bank env = (W25Q64_STATUS_OK, env')"
    using spec run that by (simp add: cells_at_eq_iff)
qed

subsection \<open>The store is an A/B service\<close>

interpretation tss: ab_service "tlsTrustStore_EraseBank 4 0" put_trust "get_trust 6" 13096 16384
  "wf_trust 6" tlsTrustStore_IsSnapshotValid ts_generation
  FLASH_LAYOUT_TLS_TRUST_STORE_BANK_A FLASH_LAYOUT_TLS_TRUST_STORE_BANK_B tlsTrustStore_Stamp trust_fit
proof (unfold_locales, goal_cases)
  case (8 sector env)
  then show ?case
    by (rule bank_erase(1))
next
  case (9 sector env env')
  then show ?case
    by (rule bank_erase(2))
next
  case (10 sector env)
  then show ?case
    by (rule bank_erase(3))
qed (simp_all add: get_put_trust length_put_trust wf_get_trust ts_Stamp_valid trust_fit_def layout)

lemma ts_Save_ab_write:
  "tlsTrustStore_Save candidate st env =
     (let (r, env') = ab_write (tlsTrustStore_EraseBank 4 0) put_trust (get_trust 6) 13096
            tlsTrustStore_IsSnapshotValid (ts_inactive st) candidate env
      in case r of
           None \<Rightarrow> (HEALTH_CHECK_STATUS_ERROR, st, env')
         | Some v \<Rightarrow> (HEALTH_CHECK_STATUS_OK,
             st\<lparr>trustStoreSnapshot := v, trustStoreActiveAddress := ts_inactive st\<rparr>, env'))"
  by (simp add: tlsTrustStore_Save_def ab_write_def tlsTrustStore_ReadSnapshot_def load_snapshot_def other_sector_def
      Let_def split: prod.splits)

lemma ts_Commit_ab_save:
  assumes "trust_fit candidate"
  shows "tlsTrustStore_CommitCandidate candidate st env =
     (case tss.save (trustStoreActiveAddress st) candidate env of
        (None, env') \<Rightarrow> (TLS_TRUST_STORE_STATUS_STORAGE_ERROR, st, env')
      | (Some (s, a), env') \<Rightarrow> (TLS_TRUST_STORE_STATUS_OK,
           st\<lparr>trustStoreSnapshot := s, trustStoreActiveAddress := a\<rparr>, env'))"
proof -
  let ?s = "tlsTrustStore_Stamp candidate"
  have "ab_write (tlsTrustStore_EraseBank 4 0) put_trust (get_trust 6) 13096
      tlsTrustStore_IsSnapshotValid (ts_inactive st) ?s env =
    ab_write (tlsTrustStore_EraseBank 4 0) put_trust (get_trust 6) 13096
      (ab_accepts tlsTrustStore_IsSnapshotValid ts_generation ?s) (ts_inactive st) ?s env"
    using ts_Stamp_valid[OF assms] assms
    by (intro tss.write_accept[OF tss.opposite_in]) (simp_all add: ab_accepts_def trust_fit_def)
  then show ?thesis
    by (auto simp: tlsTrustStore_CommitCandidate_def ts_Save_ab_write ab_save_def Let_def
        split: prod.splits option.splits)
qed

subsection \<open>The candidate of a request\<close>

lemma ValidateDer_anchor:
  assumes "dn_gets_documented mb" "tlsTrustStore_ValidateDer mb der = Inr a"
  shows "wf_anchor a" "anchor_sound a" "trust_content mb der = Inr (the der, c_str (snd (dn_gets mb (the der))))"
    "anchor_view a = Some (the der, c_str (snd (dn_gets mb (the der))))"
proof -
  obtain bytes where b: "der = Some bytes" "0 < length bytes" "length bytes \<le> 2048"
    "0 < fst (dn_gets mb bytes)" "fst (dn_gets mb bytes) < 128"
    and a: "a = zero_anchor\<lparr>a_subject := snd (dn_gets mb bytes), a_occupied := 1,
      a_derLength := of_nat (length bytes), a_der := bytes @ drop (length bytes) (a_der zero_anchor)\<rparr>"
    using assms(2)
    by (auto simp: tlsTrustStore_ValidateDer_def Let_def not_less not_le split: option.splits if_splits prod.splits)
  have len: "unat (of_nat (length bytes) :: u16) = length bytes"
    using b(3) by (simp add: unat_of_nat take_bit_nat_eq_self)
  have "length (snd (dn_gets mb bytes)) = 128" "CHR 0x00 \<in> set (snd (dn_gets mb bytes))"
    using assms(1) b(4,5) by (auto simp: dn_gets_documented_def)
  then show "wf_anchor a" "anchor_sound a"
    using b len by (auto simp: a wf_anchor_def anchor_sound_def zero_anchor_def word_less_nat_alt unat_eq_zero)
  show "trust_content mb der = Inr (the der, c_str (snd (dn_gets mb (the der))))"
    using assms(2) by (simp add: trust_content_def)
  show "anchor_view a = Some (the der, c_str (snd (dn_gets mb (the der))))"
    using b len by (simp add: a anchor_view_def)
qed

lemma zero_anchor_ok: "wf_anchor zero_anchor" "anchor_sound zero_anchor" "anchor_view zero_anchor = None"
  by (simp_all add: wf_anchor_def anchor_sound_def anchor_view_def zero_anchor_def memset_chars_def)

lemma trust_fit_update:
  assumes "trust_fit s" "wf_anchor a" "anchor_sound a"
  shows "trust_fit (s\<lparr>ts_anchors := (ts_anchors s)[i := a]\<rparr>)"
  using assms by (auto simp: trust_fit_def wf_trust_def list_all_iff dest!: set_update_subset_insert[THEN subsetD])

lemma zero_trust_fit: "trust_fit (zero_trust\<lparr>ts_generation := g\<rparr>)" "trust_view (zero_trust\<lparr>ts_generation := g\<rparr>) = replicate 6 None"
  by (simp_all add: trust_fit_def wf_trust_def zero_trust_def list_all_iff zero_anchor_ok trust_view_def)

lemma free_anchor_vacant: "free_anchor as = first_vacant (map anchor_view as)"
  by (induction as) (simp_all add: anchor_view_def)

lemma first_vacant_full: "first_vacant ss = length ss \<longleftrightarrow> None \<notin> set ss"
  by (induction ss rule: first_vacant.induct) auto

lemma unat_pred: "(i :: u8) \<noteq> 0 \<Longrightarrow> unat (i - 1) = unat i - 1"
  by (simp add: unat_minus_one)

lemma trust_candidate_spec:
  assumes doc: "dn_gets_documented mb" and fit: "trust_fit s" and spec: "trust_spec mb req (trust_view s) = Inr v"
  shows "trust_fit (trust_candidate mb req s)" "trust_view (trust_candidate mb req s) = v"
    "ts_generation (trust_candidate mb req s) = ts_generation s"
proof -
  have len: "length (trust_view s) = 6"
    using fit by (simp add: trust_view_def trust_fit_def wf_trust_def)
  have "trust_fit (trust_candidate mb req s) \<and> trust_view (trust_candidate mb req s) = v \<and>
      ts_generation (trust_candidate mb req s) = ts_generation s"
  proof (cases req)
    case (Add_Anchor der)
    then obtain a where a: "tlsTrustStore_ValidateDer mb der = Inr a"
      using spec by (auto simp: trust_content_def split: if_splits sum.splits)
    note va = ValidateDer_anchor[OF doc a]
    then show ?thesis
      using spec Add_Anchor a trust_fit_update[OF fit va(1,2)]
      by (auto simp: trust_view_def map_update free_anchor_vacant split: if_splits)
  next
    case (Replace_Anchor i der)
    then obtain a where a: "tlsTrustStore_ValidateDer mb der = Inr a"
      using spec by (auto simp: trust_content_def split: if_splits sum.splits)
    note va = ValidateDer_anchor[OF doc a]
    then show ?thesis
      using spec Replace_Anchor a trust_fit_update[OF fit va(1,2)]
      by (auto simp: trust_view_def map_update unat_pred split: if_splits)
  next
    case (Delete_Anchor i)
    then show ?thesis
      using spec trust_fit_update[OF fit zero_anchor_ok(1,2)]
      by (auto simp: trust_view_def map_update unat_pred zero_anchor_ok(3) split: if_splits)
  next
    case Reset_Anchors
    then show ?thesis
      using spec len zero_trust_fit[of "ts_generation s"] by simp
  qed
  then show "trust_fit (trust_candidate mb req s)" "trust_view (trust_candidate mb req s) = v"
    "ts_generation (trust_candidate mb req s) = ts_generation s"
    by simp_all
qed

subsection \<open>One request\<close>

lemma trust_serve_cases:
  assumes run: "trust_serve mb req st env = (status, st', env')" and fit: "trust_fit (trustStoreSnapshot st)"
    and mutex: "trustStoreMutex st"
  shows "case trust_spec mb req (trust_view (trustStoreSnapshot st)) of
      Inl e \<Rightarrow> st' = st \<and> touches 0 0 env env' \<and> status \<in> {e, TLS_TRUST_STORE_STATUS_STORAGE_ERROR} \<and>
               (healthy env \<longrightarrow> status = e)
    | Inr _ \<Rightarrow> (st' = st \<and> touches 0 0 env env' \<and> status = TLS_TRUST_STORE_STATUS_STORAGE_ERROR \<and> \<not> healthy env) \<or>
        (\<exists>env1. touches 0 0 env env1 \<and>
          tlsTrustStore_CommitCandidate (trust_candidate mb req (trustStoreSnapshot st)) st env1 = (status, st', env'))"
proof -
  let ?s = "trustStoreSnapshot st"
  obtain b env1 where l: "xSemaphoreTake env = (b, env1)" by fastforce
  note lk = xSemaphoreTake_frame[OF l]
  have six: "length (ts_anchors ?s) = 6"
    using fit by (simp add: trust_fit_def wf_trust_def)
  have full: "free_anchor (ts_anchors ?s) = 6 \<longleftrightarrow> None \<notin> set (trust_view ?s)"
    using first_vacant_full[of "trust_view ?s"] six by (simp add: free_anchor_vacant trust_view_def)
  have ids: "anchor_id_ok i st \<longleftrightarrow> i \<noteq> 0 \<and> unat i \<le> length (trust_view ?s)" for i
    using mutex six by (auto simp: anchor_id_ok_def word_less_nat_alt trust_view_def unat_gt_0 Suc_le_eq)
  have slot: "trust_view ?s ! (unat i - 1) = None \<longleftrightarrow> a_occupied (anchor_at i st) = 0" if "anchor_id_ok i st" for i
  proof -
    have i: "i \<noteq> 0" "unat i \<le> length (ts_anchors ?s)"
      using that ids[of i] by (simp_all add: trust_view_def)
    then have "unat i \<noteq> 0"
      by (simp add: unat_eq_zero)
    then have "unat i - 1 < length (ts_anchors ?s)"
      using i(2) by linarith
    then show ?thesis
      using i(1) by (simp add: trust_view_def anchor_at_def anchor_view_def unat_pred)
  qed
  show ?thesis
  proof (cases req)
    case (Add_Anchor der)
    then show ?thesis
      using run lk six full mutex
      by (cases b) (auto simp: TlsTrustStore_Add_def l Let_def tlsTrustStore_Store_def trust_content_def
          split: if_splits sum.splits prod.splits)
  next
    case (Replace_Anchor i der)
    then show ?thesis
      using run lk ids[of i] slot[of i]
      by (cases b; cases "anchor_id_ok i st") (auto simp: TlsTrustStore_Replace_def l tlsTrustStore_Store_def
          trust_content_def split: if_splits sum.splits)
  next
    case (Delete_Anchor i)
    then show ?thesis
      using run lk ids[of i] slot[of i]
      by (cases b; cases "anchor_id_ok i st") (auto simp: TlsTrustStore_Delete_def l split: if_splits)
  next
    case Reset_Anchors
    then show ?thesis
      using run lk mutex by (cases b) (auto simp: TlsTrustStore_Reset_def l)
  qed
qed

lemma ts_live_fit:
  assumes "ts_live st c"
  shows "trust_fit (trustStoreSnapshot st)"
  using tss.running_fits[OF assms]
  by (auto simp: trust_fit_def tlsTrustStore_IsSnapshotValid_def wf_trust_def split: if_splits)

lemma trust_serve_healthy:
  assumes live: "ts_live st (cells env)" "ts_generation (trustStoreSnapshot st) \<noteq> - 1" "trustStoreMutex st"
    and doc: "dn_gets_documented mb" and h: "healthy env"
    and spec: "trust_spec mb req (trust_view (trustStoreSnapshot st)) = Inr v"
    and run: "trust_serve mb req st env = (status, st', env')"
  shows "status = TLS_TRUST_STORE_STATUS_OK" "healthy env'" "ts_committed st' (cells env')"
    "trustStoreSnapshot st' = tlsTrustStore_Stamp (trust_candidate mb req (trustStoreSnapshot st))" "trustStoreMutex st'"
proof -
  let ?c = "trust_candidate mb req (trustStoreSnapshot st)"
  note fit = ts_live_fit[OF live(1)]
  note cs = trust_candidate_spec[OF doc fit spec]
  obtain env1 where e: "touches 0 0 env env1" "tlsTrustStore_CommitCandidate ?c st env1 = (status, st', env')"
    using trust_serve_cases[OF run fit live(3)] spec h by auto
  have h1: "healthy env1" "ts_live st (cells env1)"
    using touches_healthy[OF e(1) h] live(1) touches_nothing(2)[OF e(1)] by simp_all
  obtain env2 where s: "tss.save (trustStoreActiveAddress st) ?c env1 =
      (Some (tlsTrustStore_Stamp ?c, ts_inactive st), env2)" "healthy env2"
    using tss.save_healthy[OF cs(1) h1(1), of "trustStoreActiveAddress st"] by blast
  have r: "status = TLS_TRUST_STORE_STATUS_OK" "env' = env2"
    "st' = st\<lparr>trustStoreSnapshot := tlsTrustStore_Stamp ?c, trustStoreActiveAddress := ts_inactive st\<rparr>"
    using e(2) s(1) by (auto simp: ts_Commit_ab_save[OF cs(1)])
  have "tss.published (tlsTrustStore_Stamp ?c) (ts_inactive st) (cells env2)"
    using tss.save_next[OF h1(2) cs(1) cs(3) live(2) s(1)] .
  then show "status = TLS_TRUST_STORE_STATUS_OK" "healthy env'" "ts_committed st' (cells env')"
    "trustStoreSnapshot st' = tlsTrustStore_Stamp ?c" "trustStoreMutex st'"
    using r s(2) live(3) by simp_all
qed

subsection \<open>Start-up\<close>

lemma ts_ReadSnapshot_healthy:
  assumes "healthy env" "bank \<in> {FLASH_LAYOUT_TLS_TRUST_STORE_BANK_A, FLASH_LAYOUT_TLS_TRUST_STORE_BANK_B}"
  shows "\<exists>b x env'. tlsTrustStore_ReadSnapshot bank env = (b, x, env') \<and> healthy env' \<and> cells env' = cells env \<and>
    ts_held (cells env) bank = (if b then Some x else None)"
proof -
  obtain b x env' where l: "load_snapshot (get_trust 6) 13096 tlsTrustStore_IsSnapshotValid bank env = (b, x, env')"
    using prod_cases3 by blast
  have "unat bank + unat (13096 :: u32) \<le> W25Q64_CAPACITY_BYTES"
    using assms(2) by (auto simp: layout)
  then show ?thesis
    using load_snapshot_healthy[OF l assms(1)] load_snapshot_cells[OF l] l
    by (auto simp: tlsTrustStore_ReadSnapshot_def)
qed

lemma ts_Init_newest:
  assumes "healthy env"
    and "newest ts_generation FLASH_LAYOUT_TLS_TRUST_STORE_BANK_A FLASH_LAYOUT_TLS_TRUST_STORE_BANK_B
      (ts_held (cells env) FLASH_LAYOUT_TLS_TRUST_STORE_BANK_A)
      (ts_held (cells env) FLASH_LAYOUT_TLS_TRUST_STORE_BANK_B) = Some (s, a)"
  shows "\<exists>env'. TlsTrustStore_Init st env = (HEALTH_CHECK_STATUS_OK,
      \<lparr>trustStoreSnapshot = s, trustStoreActiveAddress = a, trustStoreMutex = True\<rparr>, env') \<and>
    cells env' = cells env \<and> healthy env'"
proof -
  let ?A = "FLASH_LAYOUT_TLS_TRUST_STORE_BANK_A" and ?B = "FLASH_LAYOUT_TLS_TRUST_STORE_BANK_B"
  obtain b0 env0 where m: "xSemaphoreCreateMutexStatic env = (b0, env0)" by fastforce
  have h0: "b0" "healthy env0" "cells env0 = cells env"
    using xSemaphoreCreateMutexStatic_frame[OF m] assms(1) by simp_all
  obtain b1 x1 env1 where l1: "tlsTrustStore_ReadSnapshot ?A env0 = (b1, x1, env1)" "healthy env1"
    "cells env1 = cells env" "ts_held (cells env) ?A = (if b1 then Some x1 else None)"
    using ts_ReadSnapshot_healthy[OF h0(2), of ?A] h0(3) by auto
  obtain b2 x2 env2 where l2: "tlsTrustStore_ReadSnapshot ?B env1 = (b2, x2, env2)" "healthy env2"
    "cells env2 = cells env" "ts_held (cells env) ?B = (if b2 then Some x2 else None)"
    using ts_ReadSnapshot_healthy[OF l1(2), of ?B] l1(3) by auto
  obtain b3 x3 env3 where l3: "tlsTrustStore_ReadSnapshot ?A env2 = (b3, x3, env3)" "healthy env3"
    "cells env3 = cells env" "ts_held (cells env) ?A = (if b3 then Some x3 else None)"
    using ts_ReadSnapshot_healthy[OF l2(2), of ?A] l2(3) by auto
  have same: "b3 = b1" "b1 \<Longrightarrow> x3 = x1"
    using l1(4) l3(4) by (auto split: if_splits)
  show ?thesis
    using assms(2) h0(1) l2(2,3) l3(2,3) same l1(4) l2(4)
    by (cases st) (auto simp: TlsTrustStore_Init_def m l1(1) l2(1) l3(1) newest_def Let_def split: if_splits)
qed

text \<open>C16: the trust store is six slots of certificates: on hardware that answers, every
  request the specification refuses (store full, unknown slot, bytes that are no CA
  certificate) returns exactly the specified status with no effect, and any other
  request succeeds and changes exactly its slot; the result is committed to flash.\<close>

theorem trust_refines_slots:
  assumes "ts_live st (cells env)" "ts_generation (trustStoreSnapshot st) \<noteq> - 1" "trustStoreMutex st"
    "dn_gets_documented mb" "healthy env"
    and "trust_serve mb req st env = (status, st', env')"
  shows "case trust_spec mb req (trust_view (trustStoreSnapshot st)) of
      Inl e \<Rightarrow> status = e \<and> st' = st \<and> cells env' = cells env
    | Inr v \<Rightarrow> status = TLS_TRUST_STORE_STATUS_OK \<and> trust_view (trustStoreSnapshot st') = v \<and>
        ts_committed st' (cells env') \<and> trustStoreMutex st' \<and> healthy env'"
proof (cases "trust_spec mb req (trust_view (trustStoreSnapshot st))")
  case (Inl e)
  then have q: "st' = st" "touches 0 0 env env'" "status = e"
    using trust_serve_cases[OF assms(6) ts_live_fit[OF assms(1)] assms(3)] assms(5) by simp_all
  then show ?thesis
    using Inl touches_nothing(2)[OF q(2)] by simp
next
  case (Inr v)
  note h = trust_serve_healthy[OF assms(1-5) Inr assms(6)]
  show ?thesis
    using h Inr trust_candidate_spec(2)[OF assms(4) ts_live_fit[OF assms(1)] Inr] by simp
qed

lemma trust_spec_error: "trust_spec mb req slots \<noteq> Inl TLS_TRUST_STORE_STATUS_OK"
proof -
  have "tlsTrustStore_ValidateDer mb der \<noteq> Inl TLS_TRUST_STORE_STATUS_OK" for der
    by (auto simp: tlsTrustStore_ValidateDer_def Let_def split: option.splits prod.splits)
  then show ?thesis
    by (cases req) (auto simp: trust_content_def split: sum.splits)
qed

lemma trust_serve_stores:
  assumes "dn_gets_documented mb" "ts_live st (cells env)" "trustStoreMutex st"
    "trust_serve mb req st env = (status, st', env')" "status = TLS_TRUST_STORE_STATUS_OK"
  shows "ts_held (cells env') (ts_inactive st) = Some (tlsTrustStore_Stamp (trust_candidate mb req (trustStoreSnapshot st)))"
proof -
  let ?c = "trust_candidate mb req (trustStoreSnapshot st)"
  obtain v env1 where saved: "trust_spec mb req (trust_view (trustStoreSnapshot st)) = Inr v"
    "tlsTrustStore_CommitCandidate ?c st env1 = (status, st', env')"
    using trust_serve_cases[OF assms(4) ts_live_fit[OF assms(2)] assms(3)] trust_spec_error[of mb req "trust_view (trustStoreSnapshot st)"] assms(5)
    by (auto split: sum.splits)
  note cs = trust_candidate_spec[OF assms(1) ts_live_fit[OF assms(2)] saved(1)]
  obtain r env2 where s: "tss.save (trustStoreActiveAddress st) ?c env1 = (r, env2)" by fastforce
  have "r \<noteq> None" "env2 = env'"
    using saved(2) s assms(5) by (auto simp: ts_Commit_ab_save[OF cs(1)] split: option.splits)
  then show ?thesis
    using tss.save_held(2)[OF cs(1) s] assms(2) by (simp add: live_def)
qed


subsection \<open>Migration and the first start\<close>

lemma ts_read_old:
  assumes "healthy env" "unat bank + unat n \<le> W25Q64_CAPACITY_BYTES" "0 < unat n"
  shows "\<exists>b x env'. load_snapshot get n valid bank env = (b, x, env') \<and> healthy env' \<and> cells env' = cells env \<and>
    snapshot_at get (unat n) valid (cells env) bank = (if b then Some x else None)"
proof -
  obtain b x env' where l: "load_snapshot get n valid bank env = (b, x, env')"
    using prod_cases3 by blast
  show ?thesis
    using load_snapshot_healthy[OF l assms(1,3,2)] load_snapshot_cells[OF l] l by auto
qed

lemma ts_Init_none:
  assumes "healthy env" "ts_held (cells env) FLASH_LAYOUT_TLS_TRUST_STORE_BANK_A = None"
    "ts_held (cells env) FLASH_LAYOUT_TLS_TRUST_STORE_BANK_B = None"
  shows "\<exists>st1 env1. TlsTrustStore_Init st env = tlsTrustStore_InitPrevious st1 env1 \<and> trustStoreMutex st1 \<and>
    healthy env1 \<and> cells env1 = cells env"
proof -
  let ?A = "FLASH_LAYOUT_TLS_TRUST_STORE_BANK_A" and ?B = "FLASH_LAYOUT_TLS_TRUST_STORE_BANK_B"
  obtain b0 env0 where m: "xSemaphoreCreateMutexStatic env = (b0, env0)" by fastforce
  have h0: "b0" "healthy env0" "cells env0 = cells env"
    using xSemaphoreCreateMutexStatic_frame[OF m] assms(1) by simp_all
  obtain x1 env1 where l1: "tlsTrustStore_ReadSnapshot ?A env0 = (False, x1, env1)" "healthy env1" "cells env1 = cells env"
    using ts_ReadSnapshot_healthy[OF h0(2), of ?A] h0(3) assms(2) by (auto split: if_splits)
  obtain x2 env2 where l2: "tlsTrustStore_ReadSnapshot ?B env1 = (False, x2, env2)" "healthy env2" "cells env2 = cells env"
    using ts_ReadSnapshot_healthy[OF l1(2), of ?B] l1(3) assms(3) by (auto split: if_splits)
  let ?st = "st\<lparr>trustStoreMutex := True, trustStoreSnapshot := x1\<rparr>"
  have "TlsTrustStore_Init st env = tlsTrustStore_InitPrevious ?st env2"
    using h0(1) by (simp add: TlsTrustStore_Init_def m l1(1) l2(1) Let_def)
  moreover have "trustStoreMutex ?st"
    by simp
  ultimately show ?thesis
    using l2(2,3) by blast
qed

lemma ts_Commit_fresh:
  assumes "trust_fit candidate" "healthy env" "trustStoreActiveAddress st \<in> {FLASH_LAYOUT_TLS_TRUST_STORE_BANK_A,
      FLASH_LAYOUT_TLS_TRUST_STORE_BANK_B}" "ts_held (cells env) (trustStoreActiveAddress st) = None"
  shows "\<exists>env'. tlsTrustStore_CommitCandidate candidate st env = (TLS_TRUST_STORE_STATUS_OK,
      st\<lparr>trustStoreSnapshot := tlsTrustStore_Stamp candidate, trustStoreActiveAddress := ts_inactive st\<rparr>, env') \<and>
    healthy env' \<and> tss.published (tlsTrustStore_Stamp candidate) (ts_inactive st) (cells env') \<and>
    touches (unat (ts_inactive st)) 16384 env env'"
proof -
  obtain env' where s: "tss.save (trustStoreActiveAddress st) candidate env =
      (Some (tlsTrustStore_Stamp candidate, ts_inactive st), env')" "healthy env'"
    using tss.save_healthy[OF assms(1,2), of "trustStoreActiveAddress st"] by blast
  have "tss.published (tlsTrustStore_Stamp candidate) (ts_inactive st) (cells env')"
    by (rule tss.save_commits[OF assms(1) s(1)]) (use assms(3,4) in \<open>simp add: tss.opposite_opposite\<close>)
  then show ?thesis
    using s tss.save_frame[OF assms(1) s(1)] by (simp add: ts_Commit_ab_save[OF assms(1)])
qed

lemma MigratePrevious_fit:
  assumes "wf_trust 5 p" "tlsTrustStore_IsPreviousSnapshotValid p"
  shows "trust_fit (tlsTrustStore_MigratePrevious p)"
    "trust_view (tlsTrustStore_MigratePrevious p) = trust_view p @ [None]"
proof -
  have "drop 5 (replicate 6 zero_anchor) = [zero_anchor]"
    by (simp add: numeral_eq_Suc)
  then show "trust_fit (tlsTrustStore_MigratePrevious p)"
    "trust_view (tlsTrustStore_MigratePrevious p) = trust_view p @ [None]"
    using assms
    by (auto simp: tlsTrustStore_MigratePrevious_def zero_trust_def trust_fit_def wf_trust_def trust_view_def
        zero_anchor_ok tlsTrustStore_IsPreviousSnapshotValid_def split: if_splits)
qed

lemma ts_InitPrevious_later:
  assumes "healthy env" "ts_held (cells env) FLASH_LAYOUT_TLS_TRUST_STORE_BANK_A = None"
    and later: "later_of (ts_held_previous (cells env) FLASH_LAYOUT_TLS_TRUST_STORE_PREVIOUS_BANK_A)
      (ts_held_previous (cells env) FLASH_LAYOUT_TLS_TRUST_STORE_PREVIOUS_BANK_B) = Some p"
  shows "\<exists>st' env'. tlsTrustStore_InitPrevious st env = (HEALTH_CHECK_STATUS_OK, st', env') \<and>
    trustStoreSnapshot st' = tlsTrustStore_Stamp (tlsTrustStore_MigratePrevious p) \<and> ts_committed st' (cells env')"
proof -
  let ?A = "FLASH_LAYOUT_TLS_TRUST_STORE_PREVIOUS_BANK_A" and ?B = "FLASH_LAYOUT_TLS_TRUST_STORE_PREVIOUS_BANK_B"
  have in_flash: "unat ?A + unat (10916 :: u32) \<le> W25Q64_CAPACITY_BYTES" "unat ?B + unat (10916 :: u32) \<le> W25Q64_CAPACITY_BYTES"
    by (simp_all add: layout)
  obtain b1 x1 env1 where l1: "tlsTrustStore_ReadPreviousSnapshot ?A env = (b1, x1, env1)" "healthy env1"
    "cells env1 = cells env" "ts_held_previous (cells env) ?A = (if b1 then Some x1 else None)"
    using ts_read_old[OF assms(1) in_flash(1), of "get_trust 5" tlsTrustStore_IsPreviousSnapshotValid]
    by (auto simp: tlsTrustStore_ReadPreviousSnapshot_def)
  obtain b2 x2 env2 where l2: "tlsTrustStore_ReadPreviousSnapshot ?B env1 = (b2, x2, env2)" "healthy env2"
    "cells env2 = cells env" "ts_held_previous (cells env) ?B = (if b2 then Some x2 else None)"
    using ts_read_old[OF l1(2) in_flash(2), of "get_trust 5" tlsTrustStore_IsPreviousSnapshotValid] l1(3)
    by (auto simp: tlsTrustStore_ReadPreviousSnapshot_def)
  have "\<exists>bank\<in>{?A, ?B}. ts_held_previous (cells env) bank = Some p"
    using later by (auto simp: later_of_def split: option.splits if_splits)
  then have "wf_trust 5 p" "tlsTrustStore_IsPreviousSnapshotValid p"
    using wf_get_trust by (auto simp: snapshot_at_def Let_def split: if_splits)
  note fit = MigratePrevious_fit(1)[OF this]
  let ?st = "st\<lparr>trustStoreSnapshot := tlsTrustStore_MigratePrevious p,
     trustStoreActiveAddress := FLASH_LAYOUT_TLS_TRUST_STORE_BANK_A\<rparr>"
  have run: "tlsTrustStore_InitPrevious st env =
      (let (status, st3, env3) = tlsTrustStore_CommitCandidate (tlsTrustStore_MigratePrevious p) ?st env2
       in (commit_status status, st3, env3))"
    using later l1(4) l2(4)
    by (auto simp: tlsTrustStore_InitPrevious_def l1(1) l2(1) later_of_def Let_def split: if_splits option.splits)
  obtain env' where "tlsTrustStore_CommitCandidate (tlsTrustStore_MigratePrevious p) ?st env2 = (TLS_TRUST_STORE_STATUS_OK,
      ?st\<lparr>trustStoreSnapshot := tlsTrustStore_Stamp (tlsTrustStore_MigratePrevious p),
        trustStoreActiveAddress := ts_inactive ?st\<rparr>, env')"
    "tss.published (tlsTrustStore_Stamp (tlsTrustStore_MigratePrevious p)) (ts_inactive ?st) (cells env')"
    using ts_Commit_fresh[OF fit l2(2), of ?st] assms(2) l2(3) by auto
  then show ?thesis
    using run by (simp add: commit_status_def)
qed

text \<open>C31: start-up migrates the five-slot format without losing an anchor: when the current
  banks hold nothing, the newer of the two previous banks (bank B on a tie) becomes the
  live store with a sixth, empty slot, and is committed in the current format.\<close>

theorem trust_migrates_previous:
  assumes "healthy env" "ts_held (cells env) FLASH_LAYOUT_TLS_TRUST_STORE_BANK_A = None"
    "ts_held (cells env) FLASH_LAYOUT_TLS_TRUST_STORE_BANK_B = None"
    and "later_of (ts_held_previous (cells env) FLASH_LAYOUT_TLS_TRUST_STORE_PREVIOUS_BANK_A)
      (ts_held_previous (cells env) FLASH_LAYOUT_TLS_TRUST_STORE_PREVIOUS_BANK_B) = Some p"
    and "TlsTrustStore_Init st0 env = (status, st, env')"
  shows "status = HEALTH_CHECK_STATUS_OK \<and> trust_view (trustStoreSnapshot st) = trust_view p @ [None] \<and>
    ts_committed st (cells env')"
proof -
  obtain st1 env1 where e: "TlsTrustStore_Init st0 env = tlsTrustStore_InitPrevious st1 env1" "healthy env1"
    "cells env1 = cells env"
    using ts_Init_none[OF assms(1-3), of st0] by blast
  have "\<exists>bank. ts_held_previous (cells env) bank = Some p"
    using assms(4) by (auto simp: later_of_def split: option.splits if_splits)
  then have p: "wf_trust 5 p" "tlsTrustStore_IsPreviousSnapshotValid p"
    using wf_get_trust by (auto simp: snapshot_at_def Let_def split: if_splits)
  show ?thesis
    using ts_InitPrevious_later[OF e(2), of p st1] assms(2,4,5) e(1,3) MigratePrevious_fit(2)[OF p] by auto
qed

lemma ts_blank_none:
  assumes "\<forall>i<4. c (unat bank + i) = 0xFF" "4 \<le> n"
  shows "snapshot_at (get_trust k) n tlsTrustStore_IsSnapshotValid c bank = None"
    "snapshot_at (get_trust k) n tlsTrustStore_IsPreviousSnapshotValid c bank = None"
    "snapshot_at (get_trust k) n tlsTrustStore_IsLegacySnapshotValid c bank = None"
proof -
  have "cells_at c (unat bank) n ! i = 0xFF" if "i < 4" for i
    using assms that by simp
  then have "fst (get_u32 (cells_at c (unat bank) n)) = fst (get_u32 (replicate 4 0xFF))"
    by (simp add: get_u32_def)
  then have "ts_magic (get_trust k (cells_at c (unat bank) n)) = 0xFFFFFFFF"
    by (simp add: get_trust_def case_prod_unfold Let_def get_u32_blank)
  then show "snapshot_at (get_trust k) n tlsTrustStore_IsSnapshotValid c bank = None"
    "snapshot_at (get_trust k) n tlsTrustStore_IsPreviousSnapshotValid c bank = None"
    "snapshot_at (get_trust k) n tlsTrustStore_IsLegacySnapshotValid c bank = None"
    by (simp_all add: snapshot_at_def Let_def tlsTrustStore_IsSnapshotValid_def
        tlsTrustStore_IsPreviousSnapshotValid_def tlsTrustStore_IsLegacySnapshotValid_def)
qed

lemma ts_Init_blank:
  assumes h: "healthy env"
    and blank: "\<forall>i. unat FLASH_LAYOUT_TLS_TRUST_STORE_BANK_A \<le> i \<and> i < W25Q64_CAPACITY_BYTES \<longrightarrow> cells env i = 0xFF"
    and run: "TlsTrustStore_Init st0 env = (status, st, env')"
  shows "healthy env'" "ts_committed st (cells env')" "trustStoreSnapshot st = tlsTrustStore_Stamp zero_trust"
    "trustStoreMutex st" "status = HEALTH_CHECK_STATUS_OK"
    "i < unat FLASH_LAYOUT_TLS_TRUST_STORE_BANK_A \<or> unat FLASH_LAYOUT_TLS_TRUST_STORE_BANK_A + 16384 \<le> i \<Longrightarrow>
       cells env' i = cells env i"
proof -
  have none: "ts_held (cells env) bank = None" "ts_held_previous (cells env) bank = None"
    "ts_held_legacy (cells env) bank = None"
    if "unat FLASH_LAYOUT_TLS_TRUST_STORE_BANK_A \<le> unat bank" "unat bank + 4 \<le> W25Q64_CAPACITY_BYTES" for bank
    by (rule ts_blank_none; use blank that in auto)+
  let ?PA = "FLASH_LAYOUT_TLS_TRUST_STORE_PREVIOUS_BANK_A" and ?PB = "FLASH_LAYOUT_TLS_TRUST_STORE_PREVIOUS_BANK_B"
  let ?LA = "FLASH_LAYOUT_TLS_TRUST_STORE_LEGACY_BANK_A" and ?LB = "FLASH_LAYOUT_TLS_TRUST_STORE_LEGACY_BANK_B"
  have prev: "\<exists>x e'. tlsTrustStore_ReadPreviousSnapshot bank e = (False, x, e') \<and> healthy e' \<and> cells e' = cells e"
    if "healthy e" "cells e = cells env" "bank \<in> {?PA, ?PB}" for e bank
    using ts_read_old[OF that(1), of bank 10916 "get_trust 5" tlsTrustStore_IsPreviousSnapshotValid] that none(2)[of bank]
    by (auto simp: tlsTrustStore_ReadPreviousSnapshot_def layout split: if_splits)
  have leg: "\<exists>x e'. tlsTrustStore_ReadLegacySnapshot bank e = (False, x, e') \<and> healthy e' \<and> cells e' = cells e"
    if "healthy e" "cells e = cells env" "bank \<in> {?LA, ?LB}" for e bank
    using ts_read_old[OF that(1), of bank 6556 "get_trust 3" tlsTrustStore_IsLegacySnapshotValid] that none(3)[of bank]
    by (auto simp: tlsTrustStore_ReadLegacySnapshot_def layout split: if_splits)
  have "ts_held (cells env) FLASH_LAYOUT_TLS_TRUST_STORE_BANK_A = None" "ts_held (cells env) FLASH_LAYOUT_TLS_TRUST_STORE_BANK_B = None"
    by (rule none(1); simp add: layout)+
  then obtain st1 env1 where i: "TlsTrustStore_Init st0 env = tlsTrustStore_InitPrevious st1 env1" "trustStoreMutex st1"
    "healthy env1" "cells env1 = cells env"
    using ts_Init_none[OF h] by blast
  obtain x1 env2 where p1: "tlsTrustStore_ReadPreviousSnapshot ?PA env1 = (False, x1, env2)" "healthy env2" "cells env2 = cells env"
    using prev[OF i(3,4), of ?PA] i(4) by auto
  obtain x2 env3 where p2: "tlsTrustStore_ReadPreviousSnapshot ?PB env2 = (False, x2, env3)" "healthy env3" "cells env3 = cells env"
    using prev[OF p1(2,3), of ?PB] p1(3) by auto
  obtain x3 env4 where p3: "tlsTrustStore_ReadLegacySnapshot ?LA env3 = (False, x3, env4)" "healthy env4" "cells env4 = cells env"
    using leg[OF p2(2,3), of ?LA] p2(3) by auto
  obtain x4 env5 where p4: "tlsTrustStore_ReadLegacySnapshot ?LB env4 = (False, x4, env5)" "healthy env5" "cells env5 = cells env"
    using leg[OF p3(2,3), of ?LB] p3(3) by auto
  let ?st = "st1\<lparr>trustStoreActiveAddress := FLASH_LAYOUT_TLS_TRUST_STORE_BANK_B\<rparr>"
  have fit: "trust_fit zero_trust"
    using zero_trust_fit(1)[of 0] by (simp add: zero_trust_def)
  obtain env6 where c: "tlsTrustStore_CommitCandidate zero_trust ?st env5 = (TLS_TRUST_STORE_STATUS_OK,
      ?st\<lparr>trustStoreSnapshot := tlsTrustStore_Stamp zero_trust, trustStoreActiveAddress := ts_inactive ?st\<rparr>, env6)"
    "healthy env6" "tss.published (tlsTrustStore_Stamp zero_trust) (ts_inactive ?st) (cells env6)"
    "touches (unat (ts_inactive ?st)) 16384 env5 env6"
    using ts_Commit_fresh[OF fit p4(2), of ?st] none(1)[of FLASH_LAYOUT_TLS_TRUST_STORE_BANK_B] p4(3) by (auto simp: layout)
  have res: "(status, st, env') = (HEALTH_CHECK_STATUS_OK,
      ?st\<lparr>trustStoreSnapshot := tlsTrustStore_Stamp zero_trust, trustStoreActiveAddress := ts_inactive ?st\<rparr>, env6)"
    using run i(1) by (simp add: tlsTrustStore_InitPrevious_def tlsTrustStore_InitLegacy_def tlsTrustStore_InitEmpty_def
        p1(1) p2(1) p3(1) p4(1) c(1) commit_status_def)
  then show "healthy env'" "ts_committed st (cells env')" "trustStoreSnapshot st = tlsTrustStore_Stamp zero_trust"
    "trustStoreMutex st" "status = HEALTH_CHECK_STATUS_OK"
    using c(2,3) i(2) by simp_all
  have "ts_inactive ?st = FLASH_LAYOUT_TLS_TRUST_STORE_BANK_A"
    by (simp add: other_sector_def layout)
  then show "i < unat FLASH_LAYOUT_TLS_TRUST_STORE_BANK_A \<or> unat FLASH_LAYOUT_TLS_TRUST_STORE_BANK_A + 16384 \<le> i \<Longrightarrow>
      cells env' i = cells env i"
    using c(4) p4(3) res by (auto simp: touches_def)
qed

lemma ts_first:
  "healthy (snd ts_first)" "ts_live (fst ts_first) (cells (snd ts_first))"
  "ts_generation (trustStoreSnapshot (fst ts_first)) \<noteq> - 1" "trustStoreMutex (fst ts_first)"
  "trust_view (trustStoreSnapshot (fst ts_first)) = replicate 6 None"
proof -
  obtain status st env' where run: "TlsTrustStore_Init ts_static blank_env = (status, st, env')"
    using prod_cases3 by blast
  have "healthy blank_env"
    "\<forall>i. unat FLASH_LAYOUT_TLS_TRUST_STORE_BANK_A \<le> i \<and> i < W25Q64_CAPACITY_BYTES \<longrightarrow> cells blank_env i = 0xFF"
    by (simp_all add: blank_env_def healthy_def)
  note i = ts_Init_blank[OF this run]
  then show "healthy (snd ts_first)" "ts_live (fst ts_first) (cells (snd ts_first))"
    "ts_generation (trustStoreSnapshot (fst ts_first)) \<noteq> - 1" "trustStoreMutex (fst ts_first)"
    "trust_view (trustStoreSnapshot (fst ts_first)) = replicate 6 None"
    using zero_trust_fit(2)[of 0] run by (simp_all add: ts_first_def committed_def zero_trust_def)
qed

lemma sample_ca_documented: "dn_gets_documented sample_ca"
  by (simp add: dn_gets_documented_def sample_ca_def memset_chars_def strncpy_def)

lemma sample_content: "trust_content sample_ca (Some [0x30, 0x00]) = Inr ([0x30, 0x00], ''CN=Root'')"
  by (simp add: trust_content_def tlsTrustStore_ValidateDer_def sample_ca_def memset_chars_def strncpy_def
      c_str_def numeral_eq_Suc)

theorem trust_refines_slots_witness:
  "trust_view (trustStoreSnapshot (fst (snd (trust_serve sample_ca (Add_Anchor (Some [0x30, 0x00]))
     (fst ts_first) (snd ts_first))))) = Some ([0x30, 0x00], ''CN=Root'') # replicate 5 None"
proof -
  obtain status st' env' where run:
    "trust_serve sample_ca (Add_Anchor (Some [0x30, 0x00])) (fst ts_first) (snd ts_first) = (status, st', env')"
    using prod_cases3 by blast
  have "trust_spec sample_ca (Add_Anchor (Some [0x30, 0x00])) (replicate 6 None) =
      Inr (Some ([0x30, 0x00], ''CN=Root'') # replicate 5 None)"
    by (simp add: sample_content numeral_eq_Suc)
  then show ?thesis
    using trust_refines_slots[OF ts_first(2-4) sample_ca_documented ts_first(1) run] ts_first(5) run by simp
qed


lemma sample_five_facts:
  "wf_trust 5 sample_five" "tlsTrustStore_IsPreviousSnapshotValid sample_five"
  "trust_view sample_five = Some ([0x30, 0x00], ''CN=Root'') # replicate 4 None"
proof -
  have s: "length (a_subject sample_anchor) = 128" "CHR 0x00 \<in> set (a_subject sample_anchor)"
    "c_str (a_subject sample_anchor) = ''CN=Root''"
    by (simp_all add: sample_anchor_def memset_chars_def strncpy_def c_str_def numeral_eq_Suc)
  have f: "a_der sample_anchor = [0x30, 0x00] @ replicate 2046 0" "a_derLength sample_anchor = 2" "a_occupied sample_anchor = 1"
    by (simp_all add: sample_anchor_def)
  have a: "wf_anchor sample_anchor" "anchor_sound sample_anchor" "anchor_view sample_anchor = Some ([0x30, 0x00], ''CN=Root'')"
    using s by (simp_all add: wf_anchor_def anchor_sound_def anchor_view_def f)
  have w: "wf_trust 5 (sample_five_body\<lparr>ts_crc := c\<rparr>)" for c
    by (simp add: wf_trust_def sample_five_body_def list_all_iff a zero_anchor_ok)
  have "length (put_array put_anchor (sample_anchor # replicate 4 zero_anchor)) = 10900"
    using a zero_anchor_ok by (subst length_put_array[where n = 2180]) auto
  then have "take 10912 (put_trust (sample_five_body\<lparr>ts_crc := c\<rparr>)) = take 10912 (put_trust sample_five_body)" for c
    by (simp add: put_trust_def sample_five_body_def)
  then show "tlsTrustStore_IsPreviousSnapshotValid sample_five"
    by (simp add: tlsTrustStore_IsPreviousSnapshotValid_def sample_five_def)
      (simp add: sample_five_body_def list_all_iff a zero_anchor_ok)
  show "wf_trust 5 sample_five" "trust_view sample_five = Some ([0x30, 0x00], ''CN=Root'') # replicate 4 None"
    using w by (simp_all add: sample_five_def) (simp add: sample_five_body_def trust_view_def a zero_anchor_ok)
qed

theorem trust_migrates_previous_witness:
  "trust_view (trustStoreSnapshot (fst (snd (TlsTrustStore_Init ts_static five_env)))) =
     Some ([0x30, 0x00], ''CN=Root'') # replicate 5 None"
proof -
  obtain status st env' where run: "TlsTrustStore_Init ts_static five_env = (status, st, env')"
    using prod_cases3 by blast
  have h: "healthy five_env"
    by (simp add: five_env_def healthy_def blank_env_def)
  have "cells_at (cells five_env) (unat FLASH_LAYOUT_TLS_TRUST_STORE_PREVIOUS_BANK_A) 10916 = put_trust sample_five"
    using length_put_trust[OF sample_five_facts(1)] by (intro nth_equalityI) (auto simp: five_env_def cells_at_def)
  then have held: "ts_held_previous (cells five_env) FLASH_LAYOUT_TLS_TRUST_STORE_PREVIOUS_BANK_A = Some sample_five"
    by (simp add: snapshot_at_def get_put_trust sample_five_facts)
  have none: "ts_held (cells five_env) FLASH_LAYOUT_TLS_TRUST_STORE_BANK_A = None"
    "ts_held (cells five_env) FLASH_LAYOUT_TLS_TRUST_STORE_BANK_B = None"
    "ts_held_previous (cells five_env) FLASH_LAYOUT_TLS_TRUST_STORE_PREVIOUS_BANK_B = None"
    by (rule ts_blank_none; simp add: five_env_def layout)+
  have "later_of (ts_held_previous (cells five_env) FLASH_LAYOUT_TLS_TRUST_STORE_PREVIOUS_BANK_A)
      (ts_held_previous (cells five_env) FLASH_LAYOUT_TLS_TRUST_STORE_PREVIOUS_BANK_B) = Some sample_five"
    by (simp add: later_of_def held none(3))
  from trust_migrates_previous[OF h none(1,2) this run] show ?thesis
    using run sample_five_facts(3) by (simp add: numeral_eq_Suc)
qed

end
