(* ===== verification/C_Stdio.thy ===== *)
theory C_Stdio
  imports Prelude "HOL-Library.Sublist"
begin

text \<open>
  The functions of \<open>string.h\<close>, \<open>stdlib.h\<close> and \<open>stdio.h\<close> that the services call on
  text, for the Cortex-M7 (32-bit \<open>unsigned long\<close>).  A C string is the list of its
  characters before the NUL; a pointer into a string is the suffix it points at, so that
  the character under a pointer at the end of the string is the NUL.  \<open>snprintf\<close> is the text its
  format describes together with the caller's comparison of the length with the buffer.
\<close>

subsection \<open>Characters and pointers\<close>

definition is_space :: "char \<Rightarrow> bool" where
  "is_space c \<longleftrightarrow> c = CHR '' '' \<or> c = CHR 0x09 \<or> c = CHR 0x0A \<or> c = CHR 0x0B \<or> c = CHR 0x0C \<or> c = CHR 0x0D"

definition is_blank :: "char \<Rightarrow> bool" where
  "is_blank c \<longleftrightarrow> c = CHR '' '' \<or> c = CHR 0x09"

definition is_digit :: "char \<Rightarrow> bool" where
  "is_digit c \<longleftrightarrow> CHR ''0'' \<le> c \<and> c \<le> CHR ''9''"

definition digit_value :: "char \<Rightarrow> nat" where
  "digit_value c = of_char c - 48"

definition CRLF :: string where
  "CRLF = [CHR 0x0D, CHR 0x0A]"

text \<open>The character a pointer points at.\<close>

definition deref :: "string \<Rightarrow> char" where
  "deref p = (case p of [] \<Rightarrow> CHR 0x00 | c # _ \<Rightarrow> c)"

subsection \<open>\<open>string.h\<close>\<close>

fun strstr :: "string \<Rightarrow> string \<Rightarrow> string option" where
  "strstr [] needle = (if needle = [] then Some [] else None)"
| "strstr (c # cs) needle = (if prefix needle (c # cs) then Some (c # cs) else strstr cs needle)"

fun strchr :: "string \<Rightarrow> char \<Rightarrow> string option" where
  "strchr [] k = None"
| "strchr (c # cs) k = (if c = k then Some (c # cs) else strchr cs k)"

definition strncmp_eq :: "string \<Rightarrow> string \<Rightarrow> bool" where
  "strncmp_eq s literal \<longleftrightarrow> prefix literal s"

subsection \<open>Decimal numbers\<close>

definition digit_char :: "nat \<Rightarrow> char" where
  "digit_char n = char_of (48 + n mod 10)"

fun decimal :: "nat \<Rightarrow> string" where
  "decimal n = (if n < 10 then [digit_char n] else decimal (n div 10) @ [digit_char (n mod 10)])"

declare decimal.simps [simp del]

definition decimal_int :: "int \<Rightarrow> string" where
  "decimal_int i = (if i < 0 then CHR ''-'' # decimal (nat (- i)) else decimal (nat i))"

text \<open>\<open>%0<w>d\<close> of a nonnegative number.\<close>

definition decimal_pad :: "nat \<Rightarrow> nat \<Rightarrow> string" where
  "decimal_pad w n = (let s = decimal n in replicate (w - length s) (CHR ''0'') @ s)"

definition digits_value :: "string \<Rightarrow> nat" where
  "digits_value s = foldl (\<lambda>a c. 10 * a + digit_value c) 0 s"

text \<open>Optional white space and sign; the sign and what follows.\<close>

definition skip_sign :: "string \<Rightarrow> bool \<times> string" where
  "skip_sign s = (case dropWhile is_space s of
       [] \<Rightarrow> (False, [])
     | c # cs \<Rightarrow> if c = CHR ''-'' then (True, cs) else if c = CHR ''+'' then (False, cs) else (False, c # cs))"

text \<open>Base 10; value, end pointer, and whether \<open>errno\<close> became \<open>ERANGE\<close>.\<close>

definition strtoul :: "string \<Rightarrow> u32 \<times> string \<times> bool" where
  "strtoul s = (let (negative, s1) = skip_sign s; ds = takeWhile is_digit s1 in
     if ds = [] then (0, s, False)
     else let n = digits_value ds; rest = dropWhile is_digit s1 in
       if n > 4294967295 then (4294967295, rest, True)
       else (if negative then - of_nat n else of_nat n, rest, False))"

definition strtol :: "string \<Rightarrow> int \<times> string" where
  "strtol s = (let (negative, s1) = skip_sign s; ds = takeWhile is_digit s1 in
     if ds = [] then (0, s)
     else let n = int (digits_value ds); rest = dropWhile is_digit s1 in
       (if negative then max (- 2147483648) (- n) else min 2147483647 n, rest))"

subsection \<open>\<open>sscanf\<close> conversions\<close>

text \<open>\<open>%<w>s\<close>: white space is skipped, at most \<open>w\<close> characters are stored.\<close>

definition scan_word :: "nat \<Rightarrow> string \<Rightarrow> (string \<times> string) option" where
  "scan_word w s = (let s1 = dropWhile is_space s; word = take w (takeWhile (\<lambda>c. \<not> is_space c) s1) in
     if word = [] then None else Some (word, drop (length word) s1))"

text \<open>\<open>%<w>u\<close>: white space is skipped, an optional sign counts towards the width.\<close>

definition scan_unsigned :: "nat \<Rightarrow> string \<Rightarrow> (u32 \<times> string) option" where
  "scan_unsigned w s =
     (let s1 = dropWhile is_space s;
          signs = length (takeWhile (\<lambda>c. c = CHR ''-'' \<or> c = CHR ''+'') (take 1 s1));
          ds = takeWhile is_digit (take (w - signs) (drop signs s1)) in
      if ds = [] then None
      else let n = digits_value ds; v = (if n > 4294967295 then 4294967295 else of_nat n) in
        Some (if prefix ''-'' s1 then - v else v, drop (signs + length ds) s1))"

subsection \<open>Facts\<close>

lemma CRLF_not_Nil [simp]: "CRLF \<noteq> []"
  by (simp add: CRLF_def)

lemma length_CRLF [simp]: "length CRLF = 2"
  by (simp add: CRLF_def)

lemma strstr_suffix: "strstr s needle = Some t \<Longrightarrow> suffix t s \<and> prefix needle t"
  by (induction s needle rule: strstr.induct) (auto split: if_splits simp: suffix_Cons)

lemma strstr_None: "strstr s needle = None \<Longrightarrow> \<not> (prefix needle t \<and> suffix t s)"
  by (induction s needle rule: strstr.induct) (auto split: if_splits simp: suffix_Cons)

text \<open>The result is the first occurrence.\<close>

lemma strstr_first:
  assumes "strstr s needle = Some t" "prefix needle u" "suffix u s"
  shows "suffix u t"
  using assms by (induction s needle rule: strstr.induct) (auto split: if_splits simp: suffix_Cons)

lemma strchr_suffix: "strchr s k = Some t \<Longrightarrow> suffix t s \<and> (\<exists>u. t = k # u)"
  by (induction s k rule: strchr.induct) (auto split: if_splits simp: suffix_Cons)

lemma digit_char_value:
  assumes "n < 10"
  shows "digit_value (digit_char n) = n" "is_digit (digit_char n)"
proof -
  have "of_char (digit_char n) = 48 + n"
    using assms by (simp add: digit_char_def)
  then show "digit_value (digit_char n) = n" "is_digit (digit_char n)"
    using assms by (simp_all add: digit_value_def is_digit_def less_eq_char_def)
qed

lemma digits_value_snoc [simp]: "digits_value (s @ [c]) = 10 * digits_value s + digit_value c"
  by (simp add: digits_value_def)

lemma decimal_value: "digits_value (decimal n) = n"
proof (induction n rule: decimal.induct)
  case (1 n)
  show ?case
  proof (cases "n < 10")
    case True
    then show ?thesis
      by (simp add: decimal.simps[of n] digits_value_def digit_char_value)
  next
    case False
    then show ?thesis
      using 1 by (simp add: decimal.simps[of n] digit_char_value)
  qed
qed

lemma decimal_digits: "c \<in> set (decimal n) \<Longrightarrow> is_digit c"
proof (induction n rule: decimal.induct)
  case (1 n)
  then show ?case
    by (cases "n < 10") (auto simp: decimal.simps[of n] digit_char_value)
qed

lemma decimal_not_Nil [simp]: "decimal n \<noteq> []"
  by (simp add: decimal.simps[of n])

lemma decimal_length: "n < 10 ^ Suc k \<Longrightarrow> length (decimal n) \<le> Suc k"
proof (induction k arbitrary: n)
  case 0
  then show ?case
    by (simp add: decimal.simps[of n])
next
  case (Suc k)
  have "n div 10 < 10 ^ Suc k"
    using Suc.prems by simp
  then show ?case
    using Suc.IH[of "n div 10"] by (simp add: decimal.simps[of n])
qed

lemma digit_not_space: "is_digit c \<Longrightarrow> \<not> is_space c" "is_digit c \<Longrightarrow> c \<noteq> CHR ''-''" "is_digit c \<Longrightarrow> c \<noteq> CHR ''+''"
  "is_digit c \<Longrightarrow> c \<noteq> CHR 0x00" "is_digit c \<Longrightarrow> c \<noteq> CHR 0x22" "is_digit c \<Longrightarrow> c \<noteq> CHR 0x5C"
  by (auto simp: is_digit_def is_space_def less_eq_char_def)

text \<open>Printing and reading back.\<close>

lemma strtoul_decimal:
  assumes "n \<le> 4294967295" "rest = [] \<or> \<not> is_digit (hd rest)"
  shows "strtoul (decimal n @ rest) = (of_nat n, rest, False)"
proof -
  obtain d ds where d: "decimal n = d # ds"
    by (cases "decimal n") auto
  have "is_digit d"
    using decimal_digits[of d n] d by simp
  then have "skip_sign (decimal n @ rest) = (False, decimal n @ rest)"
    by (simp add: skip_sign_def d digit_not_space)
  moreover have "takeWhile is_digit (decimal n @ rest) = decimal n" "dropWhile is_digit (decimal n @ rest) = rest"
    using decimal_digits[of _ n] assms(2) by (cases rest; simp add: takeWhile_append dropWhile_append)+
  ultimately show ?thesis
    using assms(1) by (simp add: strtoul_def decimal_value)
qed

end
