(* ===== verification/Time_Service.thy ===== *)
theory Time_Service
  imports Flash_Chip
begin

text \<open>
  \<open>Srv/Src/time_service.c\<close>: the wall clock kept between SNTP answers.  The tick counter
  \<open>ticks\<close> of the environment is FreeRTOS's 32-bit counter (1000 Hz, one tick per
  millisecond); it wraps after 49.7 days.  The task that starts SNTP and waits is not modelled: it only calls
  lwIP and prints.
\<close>

record TimeService_State =
  synchronizedUnixTime :: u32
  synchronizedAtTick :: u32
  synchronized :: u8

definition configTICK_RATE_HZ :: u32 where
  "configTICK_RATE_HZ = 1000"

definition portTICK_PERIOD_MS :: u32 where
  "portTICK_PERIOD_MS = 1"

definition TimeService_IsSynchronized :: "TimeService_State \<Rightarrow> u8" where
  "TimeService_IsSynchronized st = synchronized st"

text \<open>The output is meaningful only with the status OK; the caller's variable keeps its
  value \<open>old\<close> otherwise.\<close>

definition TimeService_GetUnixTime :: "u32 \<Rightarrow> TimeService_State \<Rightarrow> env \<Rightarrow> HealthCheck_StatusTypeDef \<times> u32" where
  "TimeService_GetUnixTime old st env =
     (if synchronized st = 0 then (HEALTH_CHECK_STATUS_ERROR, old)
      else (HEALTH_CHECK_STATUS_OK,
        synchronizedUnixTime st + (ticks env - synchronizedAtTick st) div configTICK_RATE_HZ))"

definition TimeService_GetUptimeMs :: "env \<Rightarrow> u32" where
  "TimeService_GetUptimeMs env = ticks env * portTICK_PERIOD_MS"

definition TimeService_SetUnixTime :: "u32 \<Rightarrow> TimeService_State \<Rightarrow> env \<Rightarrow> TimeService_State" where
  "TimeService_SetUnixTime unixTime st env =
     st\<lparr>synchronizedUnixTime := unixTime, synchronizedAtTick := ticks env, synchronized := 1\<rparr>"

lemma GetUptimeMs_ticks [simp]: "TimeService_GetUptimeMs env = ticks env"
  by (simp add: TimeService_GetUptimeMs_def portTICK_PERIOD_MS_def)

lemma u32_div_1000: "n < 4294967296 \<Longrightarrow> (of_nat n :: u32) div 1000 = of_nat (n div 1000)"
  by (simp add: word_arith_nat_div unat_of_nat take_bit_nat_eq_self)

text \<open>C32: the wall clock follows the tick counter across its wrap-around: any number of
  milliseconds below 2^32 after the clock was set, the reported time is the set time plus
  the whole seconds elapsed, wherever the counter stood and whether or not it wrapped.\<close>

theorem clock_follows_ticks:
  assumes "elapsed < 4294967296" "ticks later = ticks env + of_nat elapsed"
  shows "TimeService_GetUnixTime old (TimeService_SetUnixTime t st env) later =
    (HEALTH_CHECK_STATUS_OK, t + of_nat (elapsed div 1000))"
  using assms by (simp add: TimeService_GetUnixTime_def TimeService_SetUnixTime_def configTICK_RATE_HZ_def u32_div_1000)

theorem clock_follows_ticks_witness:
  "TimeService_GetUnixTime 0 (TimeService_SetUnixTime 1700000000
     \<lparr>synchronizedUnixTime = 0, synchronizedAtTick = 0, synchronized = 0\<rparr> (blank_env\<lparr>ticks := 0xFFFFFFFF\<rparr>))
     (blank_env\<lparr>ticks := 4999\<rparr>) = (HEALTH_CHECK_STATUS_OK, 1700000005)"
  using clock_follows_ticks[of 5000 "blank_env\<lparr>ticks := 4999\<rparr>" "blank_env\<lparr>ticks := 0xFFFFFFFF\<rparr>" 0 1700000000
    "\<lparr>synchronizedUnixTime = 0, synchronizedAtTick = 0, synchronized = 0\<rparr>"]
  by simp

end
