(* ===== verification/Tls_Platform.thy ===== *)
theory Tls_Platform
  imports Ab_Store Object_Rep Time_Service
begin

text \<open>
  \<open>TLS/Src/tls_platform.c\<close>: the recursive crypto lock, the random number peripheral and the time source of the
  TLS library.  One poll of the peripheral's status register is one event of the
  environment: data ready (\<open>ev_ok\<close>), a clock or seed error (\<open>ev_busy\<close>), the data
  register (bytes 0..3 of \<open>ev_data\<close>), and the milliseconds that pass until the next poll
  (bytes 4..7).  The library's own initialisation results are the record \<open>mbedtls_boot\<close>.
\<close>

record mbedtls_boot =
  platform_set_time :: int
  psa_crypto_init :: bool

record TlsPlatform_State =
  cryptoMutex :: bool

definition rng_data :: "hw_event \<Rightarrow> u32" where
  "rng_data e = fst (get_u32 (map (ev_data e) [0, 1, 2, 3]))"

definition rng_delay :: "hw_event \<Rightarrow> u32" where
  "rng_delay e = fst (get_u32 (map (ev_data e) [4, 5, 6, 7]))"

text \<open>The polling loop of \<open>tlsPlatform_ReadRandom\<close>.\<close>

function tlsPlatform_PollRandom :: "u32 \<Rightarrow> env \<Rightarrow> u32 option \<times> env" where
  "tlsPlatform_PollRandom started env =
     (let (e, env1) = pop_event env in
      if ev_ok e then (Some (rng_data e), env1)
      else if ev_busy e then (None, env1)
      else
        let env2 = env1\<lparr>ticks := ticks env1 + rng_delay e\<rparr> in
        if TimeService_GetUptimeMs env2 - started \<ge> 100 then (None, env2)
        else tlsPlatform_PollRandom started env2)"
  by pat_completeness auto

termination
proof (relation "measure (\<lambda>(started, env). length (events env))")
  fix started :: u32 and env env2 :: env and p e env1
  assume "p = pop_event env" "(e, env1) = p" "\<not> ev_ok e" "env2 = env1\<lparr>ticks := ticks env1 + rng_delay e\<rparr>"
  then show "((started, env2), (started, env)) \<in> measure (\<lambda>(started, env). length (events env))"
    by (cases "events env") (auto simp: pop_event_def quiet_event_def case_prod_unfold Let_def)
qed simp

declare tlsPlatform_PollRandom.simps [simp del]

definition tlsPlatform_ReadRandom :: "env \<Rightarrow> u32 option \<times> env" where
  "tlsPlatform_ReadRandom env = tlsPlatform_PollRandom (TimeService_GetUptimeMs env) env"

definition tlsPlatform_GetTime :: "TimeService_State \<Rightarrow> env \<Rightarrow> u32" where
  "tlsPlatform_GetTime ts env =
     (let (status, unixTime) = TimeService_GetUnixTime 0 ts env in
      if TimeService_IsSynchronized ts = 0 \<or> status \<noteq> HEALTH_CHECK_STATUS_OK then 0 else unixTime)"

text \<open>\<open>output\<close> receives the bytes; the result is False when the source failed, with the
  bytes generated until then.\<close>

function mbedtls_hardware_poll :: "nat \<Rightarrow> env \<Rightarrow> bool \<times> u8 list \<times> env" where
  "mbedtls_hardware_poll remaining env =
     (if remaining = 0 then (True, [], env)
      else
        let (v, env1) = tlsPlatform_ReadRandom env in
        case v of
          None \<Rightarrow> (False, [], env1)
        | Some randomValue \<Rightarrow>
            let chunk = min remaining 4;
                (ok, rest, env2) = mbedtls_hardware_poll (remaining - chunk) env1
            in (ok, take chunk (put_u32 randomValue) @ rest, env2))"
  by pat_completeness auto

termination by (relation "measure fst") auto

declare mbedtls_hardware_poll.simps [simp del]

definition TlsPlatform_Lock :: "TlsPlatform_State \<Rightarrow> env \<Rightarrow> HealthCheck_StatusTypeDef \<times> env" where
  "TlsPlatform_Lock st env =
     (if \<not> cryptoMutex st then (HEALTH_CHECK_STATUS_ERROR, env)
      else let (taken, env1) = xSemaphoreTake env in
        (if taken then HEALTH_CHECK_STATUS_OK else HEALTH_CHECK_STATUS_ERROR, env1))"

definition TlsPlatform_Init ::
  "mbedtls_boot \<Rightarrow> TlsPlatform_State \<Rightarrow> env \<Rightarrow> HealthCheck_StatusTypeDef \<times> TlsPlatform_State \<times> env" where
  "TlsPlatform_Init mb st env =
     (let (created, env1) = xSemaphoreCreateMutexStatic env; st1 = st\<lparr>cryptoMutex := created\<rparr> in
      if \<not> created then (HEALTH_CHECK_STATUS_ERROR, st1, env1)
      else
        let (seed, env2) = tlsPlatform_ReadRandom env1 in
        if seed = None \<or> platform_set_time mb \<noteq> 0 \<or> \<not> psa_crypto_init mb then (HEALTH_CHECK_STATUS_ERROR, st1, env2)
        else (HEALTH_CHECK_STATUS_OK, st1, env2))"

definition TlsPlatform_Random :: "nat \<Rightarrow> TlsPlatform_State \<Rightarrow> env \<Rightarrow> HealthCheck_StatusTypeDef \<times> u8 list \<times> env" where
  "TlsPlatform_Random len st env =
     (let (lock, env1) = TlsPlatform_Lock st env in
      if lock \<noteq> HEALTH_CHECK_STATUS_OK then (HEALTH_CHECK_STATUS_ERROR, [], env1)
      else
        let (ok, output, env2) = mbedtls_hardware_poll len env1
        in (if ok \<and> length output = len then HEALTH_CHECK_STATUS_OK else HEALTH_CHECK_STATUS_ERROR, output, env2))"

subsection \<open>What the callers rely on\<close>

text \<open>Only events and time pass.\<close>

definition only_time :: "env \<Rightarrow> env \<Rightarrow> bool" where
  "only_time env env' \<longleftrightarrow> cells env' = cells env \<and> flashMutex env' = flashMutex env \<and> jedec env' = jedec env \<and>
     (healthy env \<longrightarrow> healthy env' \<and> ticks env' = ticks env)"

lemma only_time_refl [simp]: "only_time env env"
  by (simp add: only_time_def)

lemma only_time_trans: "only_time a b \<Longrightarrow> only_time b c \<Longrightarrow> only_time a c"
  by (auto simp: only_time_def)

lemma only_time_pop: "pop_event env = (e, env') \<Longrightarrow> only_time env env' \<and> (healthy env \<longrightarrow> ev_ok e)"
  by (auto simp: pop_event_def only_time_def healthy_def case_prod_unfold Let_def)

lemma only_time_ticks: "only_time a b \<Longrightarrow> \<not> healthy a \<Longrightarrow> only_time a (b\<lparr>ticks := t\<rparr>)"
  by (simp add: only_time_def)

lemma PollRandom_frame:
  "tlsPlatform_PollRandom started env = (v, env') \<Longrightarrow> only_time env env' \<and> (healthy env \<longrightarrow> v \<noteq> None)"
proof (induction started env arbitrary: v env' rule: tlsPlatform_PollRandom.induct)
  case (1 started env)
  obtain e env1 where p: "pop_event env = (e, env1)" by fastforce
  note f = only_time_pop[OF p]
  let ?env2 = "env1\<lparr>ticks := ticks env1 + rng_delay e\<rparr>"
  show ?case
  proof (cases "ev_ok e \<or> ev_busy e \<or> TimeService_GetUptimeMs ?env2 - started \<ge> 100")
    case True
    then show ?thesis
      using 1(2) p f by (auto simp: tlsPlatform_PollRandom.simps[of started env] only_time_ticks split: if_splits)
  next
    case False
    then have n: "\<not> healthy env"
      using f by auto
    have "tlsPlatform_PollRandom started ?env2 = (v, env')"
      using 1(2) p False by (simp add: tlsPlatform_PollRandom.simps[of started env])
    then have "only_time ?env2 env'"
      using 1(1)[OF p[symmetric] refl _ _ refl] False by simp
    then show ?thesis
      using only_time_trans[OF only_time_ticks] f n by blast
  qed
qed

lemma hardware_poll_frame:
  "mbedtls_hardware_poll n env = (ok, out, env') \<Longrightarrow>
     only_time env env' \<and> (ok \<longrightarrow> length out = n) \<and> (healthy env \<longrightarrow> ok)"
proof (induction n env arbitrary: ok out env' rule: mbedtls_hardware_poll.induct)
  case (1 n env)
  show ?case
  proof (cases "n = 0")
    case True
    then show ?thesis
      using 1(2) by (simp add: mbedtls_hardware_poll.simps)
  next
    case False
    obtain v env1 where r: "tlsPlatform_ReadRandom env = (v, env1)" by fastforce
    have f: "only_time env env1" "healthy env \<longrightarrow> v \<noteq> None"
      using PollRandom_frame[of "TimeService_GetUptimeMs env" env v env1] r by (simp_all add: tlsPlatform_ReadRandom_def)
    show ?thesis
    proof (cases v)
      case None
      then show ?thesis
        using 1(2) r f False by (simp add: mbedtls_hardware_poll.simps[of n])
    next
      case (Some w)
      obtain ok2 rest env2 where q: "mbedtls_hardware_poll (n - min n 4) env1 = (ok2, rest, env2)"
        using prod_cases3 by blast
      have IH: "only_time env1 env2" "ok2 \<longrightarrow> length rest = n - min n 4" "healthy env1 \<longrightarrow> ok2"
        using 1(1)[OF False r[symmetric] refl Some refl q] by blast+
      have "ok = ok2" "out = take (min n 4) (put_u32 w) @ rest" "env' = env2"
        using 1(2) r Some q False by (simp_all add: mbedtls_hardware_poll.simps[of n] Let_def)
      then show ?thesis
        using IH f only_time_trans[OF f(1) IH(1)] by (auto simp: only_time_def)
    qed
  qed
qed

lemma only_time_Take: "xSemaphoreTake env = (b, env') \<Longrightarrow> only_time env env' \<and> (healthy env \<longrightarrow> b)"
  by (auto simp: xSemaphoreTake_def pop_event_def only_time_def healthy_def case_prod_unfold Let_def)

lemma Lock_frame:
  "TlsPlatform_Lock st env = (s, env') \<Longrightarrow>
     only_time env env' \<and> (healthy env \<and> cryptoMutex st \<longrightarrow> s = HEALTH_CHECK_STATUS_OK)"
  by (auto simp: TlsPlatform_Lock_def split: prod.splits if_splits dest: only_time_Take)

lemma Random_frame:
  assumes "TlsPlatform_Random n st env = (s, out, env')"
  shows "only_time env env'" "s = HEALTH_CHECK_STATUS_OK \<Longrightarrow> length out = n"
    "healthy env \<Longrightarrow> cryptoMutex st \<Longrightarrow> s = HEALTH_CHECK_STATUS_OK"
proof -
  obtain l env1 where l: "TlsPlatform_Lock st env = (l, env1)" by fastforce
  obtain ok bytes env2 where p: "mbedtls_hardware_poll n env1 = (ok, bytes, env2)"
    using prod_cases3 by blast
  note lf = Lock_frame[OF l] and pf = hardware_poll_frame[OF p]
  have t: "only_time env env2"
    using only_time_trans[of env env1 env2] lf pf by blast
  show "only_time env env'" "s = HEALTH_CHECK_STATUS_OK \<Longrightarrow> length out = n"
    using assms l p lf t by (auto simp: TlsPlatform_Random_def split: if_splits)
  show "s = HEALTH_CHECK_STATUS_OK" if "healthy env" "cryptoMutex st"
    using assms l p lf pf that by (auto simp: TlsPlatform_Random_def only_time_def split: if_splits)
qed

end
