(* ===== verification/Tls_Transport.thy ===== *)
theory Tls_Transport
  imports Tls_Trust_Store Tls_Platform C_Stdio
begin

text \<open>
  \<open>TLS/Src/tls_transport.c\<close>: one authenticated HTTPS request.  The TLS library and lwIP's
  resolver and sockets are the record \<open>tls_library\<close>, an argument of the operations: what
  each call returns, and which socket operations it made through the callbacks
  \<open>tlsTransport_Send\<close> and \<open>tlsTransport_Receive\<close> on the way (\<open>bio_call\<close>, with the
  socket's answer and \<open>errno\<close>).  Successive reads and writes are numbered.  The list of
  open socket descriptors is threaded through, so that leaks are visible.
\<close>

subsection \<open>Types\<close>

datatype TlsTransport_StatusTypeDef =
    TLS_TRANSPORT_OK
  | TLS_TRANSPORT_DNS_ERROR
  | TLS_TRANSPORT_CONNECT_ERROR
  | TLS_TRANSPORT_CONFIG_ERROR
  | TLS_TRANSPORT_CERTIFICATE_ERROR
  | TLS_TRANSPORT_HANDSHAKE_ERROR
  | TLS_TRANSPORT_IO_ERROR
  | TLS_TRANSPORT_PROTOCOL_ERROR

fun transport_code :: "TlsTransport_StatusTypeDef \<Rightarrow> u8" where
  "transport_code TLS_TRANSPORT_OK = 0"
| "transport_code TLS_TRANSPORT_DNS_ERROR = 1"
| "transport_code TLS_TRANSPORT_CONNECT_ERROR = 2"
| "transport_code TLS_TRANSPORT_CONFIG_ERROR = 3"
| "transport_code TLS_TRANSPORT_CERTIFICATE_ERROR = 4"
| "transport_code TLS_TRANSPORT_HANDSHAKE_ERROR = 5"
| "transport_code TLS_TRANSPORT_IO_ERROR = 6"
| "transport_code TLS_TRANSPORT_PROTOCOL_ERROR = 7"

record TlsTransport_ResultTypeDef =
  res_status :: TlsTransport_StatusTypeDef
  res_detail :: int
  res_httpStatus :: u16
  res_elapsedMs :: u32
  res_certificateExpiresAt :: u32
  res_tlsVersion :: "string option"
  res_cipherSuite :: "string option"

record TlsTransport_SocketContextTypeDef =
  sc_socketDescriptor :: int
  sc_lastError :: int

record mbedtls_x509_time =
  x_year :: int
  x_mon :: int
  x_day :: int
  x_hour :: int
  x_min :: int
  x_sec :: int

text \<open>The socket's answer to one callback: the result and \<open>errno\<close>.\<close>

datatype bio_call = Bio_Send int int | Bio_Receive int int

text \<open>What lwIP answers for one resolved address: \<open>socket\<close>, \<open>connect\<close> and
  \<open>getsockopt(SO_ERROR)\<close>, with \<open>errno\<close>.\<close>

record socket_address =
  sa_socket :: int
  sa_socket_errno :: int
  sa_connect :: int
  sa_connect_errno :: int
  sa_getsockopt :: int
  sa_so_error :: int

text \<open>What the configuration calls have set before the handshake: the protocol versions, whether
  the peer must be verified, the trusted certificate, the expected host name and the socket of the callbacks.\<close>

datatype mbedtls_ssl_protocol_version = MBEDTLS_SSL_VERSION_TLS1_2 | MBEDTLS_SSL_VERSION_TLS1_3

datatype mbedtls_ssl_authmode = MBEDTLS_SSL_VERIFY_NONE | MBEDTLS_SSL_VERIFY_OPTIONAL | MBEDTLS_SSL_VERIFY_REQUIRED

record mbedtls_ssl_context =
  ssl_min_version :: mbedtls_ssl_protocol_version
  ssl_max_version :: mbedtls_ssl_protocol_version
  ssl_authmode :: mbedtls_ssl_authmode
  ssl_ca_chain :: "u8 list"
  ssl_hostname :: string
  ssl_bio :: "int option"

record tls_library =
  drbg_seed :: int
  config_defaults :: int
  ssl_setup :: int
  set_hostname :: "string \<Rightarrow> int"
  getaddrinfo :: "string \<Rightarrow> string \<Rightarrow> int \<times> socket_address list"
  ssl_handshake :: "mbedtls_ssl_context \<Rightarrow> int \<times> bio_call list"
  peer_valid_to :: "mbedtls_ssl_context \<Rightarrow> mbedtls_x509_time option"
  verify_result :: "mbedtls_ssl_context \<Rightarrow> u32"
  ssl_version :: string
  ssl_ciphersuite :: string
  ssl_write :: "nat \<Rightarrow> nat \<Rightarrow> int \<times> bio_call list"
  ssl_read :: "nat \<Rightarrow> int \<times> char \<times> bio_call list"
  request_ticks :: u32
  err_ssl_timeout :: int
  err_net_send_failed :: int
  err_net_recv_failed :: int
  err_ssl_conn_eof :: int
  err_x509_cert_verify_failed :: int
  err_ssl_bad_input_data :: int
  errno_EAGAIN :: int
  errno_EWOULDBLOCK :: int
  errno_ETIMEDOUT :: int

subsection \<open>X.509 time\<close>

definition tlsTransport_X509TimeToUnix :: "mbedtls_x509_time option \<Rightarrow> u32" where
  "tlsTransport_X509TimeToUnix v =
     (case v of
        None \<Rightarrow> 0
      | Some value \<Rightarrow>
          if x_year value < 1970 \<or> x_mon value < 1 \<or> x_mon value > 12 \<or> x_day value < 1 \<or> x_day value > 31 \<or>
             x_hour value < 0 \<or> x_hour value > 23 \<or> x_min value < 0 \<or> x_min value > 59 \<or> x_sec value < 0 \<or>
             x_sec value > 59
          then 0
          else
            let month = (of_int (x_mon value) :: u32);
                year = x_year value - (if month \<le> 2 then 1 else 0);
                era = year div 400;
                yearOfEra = (of_int (year - era * 400) :: u32);
                shiftedMonth = (if month > 2 then month - 3 else month + 9);
                dayOfYear = (153 * shiftedMonth + 2) div 5 + of_int (x_day value) - 1;
                dayOfEra = yearOfEra * 365 + yearOfEra div 4 - yearOfEra div 100 + dayOfYear;
                days = era * 146097 + uint dayOfEra - 719468;
                seconds = days * 86400 + x_hour value * 3600 + x_min value * 60 + x_sec value
            in if seconds > 0 \<and> seconds \<le> 4294967295 then of_int seconds else 0)"

subsection \<open>Socket callbacks\<close>

definition tlsTransport_IsTimeoutError :: "tls_library \<Rightarrow> int \<Rightarrow> bool" where
  "tlsTransport_IsTimeoutError lib socketError \<longleftrightarrow>
     socketError = errno_EAGAIN lib \<or> socketError = errno_EWOULDBLOCK lib \<or> socketError = errno_ETIMEDOUT lib"

definition tlsTransport_Send ::
  "tls_library \<Rightarrow> int \<Rightarrow> int \<Rightarrow> TlsTransport_SocketContextTypeDef \<Rightarrow> int \<times> TlsTransport_SocketContextTypeDef" where
  "tlsTransport_Send lib sent err ctx =
     (if sent \<ge> 0 then (sent, ctx)
      else (if tlsTransport_IsTimeoutError lib err then err_ssl_timeout lib else err_net_send_failed lib,
            ctx\<lparr>sc_lastError := err\<rparr>))"

definition tlsTransport_Receive ::
  "tls_library \<Rightarrow> int \<Rightarrow> int \<Rightarrow> TlsTransport_SocketContextTypeDef \<Rightarrow> int \<times> TlsTransport_SocketContextTypeDef" where
  "tlsTransport_Receive lib received err ctx =
     (if received > 0 then (received, ctx)
      else if received = 0 then (err_ssl_conn_eof lib, ctx)
      else (if tlsTransport_IsTimeoutError lib err then err_ssl_timeout lib else err_net_recv_failed lib,
            ctx\<lparr>sc_lastError := err\<rparr>))"

text \<open>The callbacks a library call makes, in order.\<close>

fun run_bio ::
  "tls_library \<Rightarrow> bio_call list \<Rightarrow> TlsTransport_SocketContextTypeDef \<Rightarrow> TlsTransport_SocketContextTypeDef" where
  "run_bio lib [] ctx = ctx"
| "run_bio lib (Bio_Send r e # cs) ctx = run_bio lib cs (snd (tlsTransport_Send lib r e ctx))"
| "run_bio lib (Bio_Receive r e # cs) ctx = run_bio lib cs (snd (tlsTransport_Receive lib r e ctx))"

subsection \<open>Connecting\<close>

text \<open>The loop over the resolved addresses: descriptor, detail, open descriptors.\<close>

fun tlsTransport_TryAddresses ::
  "socket_address list \<Rightarrow> int \<Rightarrow> int \<Rightarrow> int list \<Rightarrow> int \<times> int \<times> int list" where
  "tlsTransport_TryAddresses [] socketDescriptor detail open_sockets = (socketDescriptor, detail, open_sockets)"
| "tlsTransport_TryAddresses (address # addresses) socketDescriptor detail open_sockets =
     (let socketDescriptor = sa_socket address in
      if socketDescriptor < 0
      then tlsTransport_TryAddresses addresses socketDescriptor (- sa_socket_errno address) open_sockets
      else
        let open1 = socketDescriptor # open_sockets in
        if sa_connect address = 0 then (socketDescriptor, detail, open1)
        else
          let detail1 = (if sa_getsockopt address = 0 \<and> sa_so_error address \<noteq> 0
                         then - sa_so_error address else - sa_connect_errno address)
          in tlsTransport_TryAddresses addresses (- 1) detail1 (remove1 socketDescriptor open1))"

definition tlsTransport_Connect ::
  "tls_library \<Rightarrow> string \<Rightarrow> u16 \<Rightarrow> int \<Rightarrow> int list \<Rightarrow>
   int \<times> TlsTransport_StatusTypeDef \<times> int \<times> int list" where
  "tlsTransport_Connect lib host port detail open_sockets =
     (let portText = decimal (unat port); (resolverResult, addresses) = getaddrinfo lib host portText in
      if resolverResult \<noteq> 0 then (- 1, TLS_TRANSPORT_DNS_ERROR, resolverResult, open_sockets)
      else
        let (socketDescriptor, detail1, open1) = tlsTransport_TryAddresses addresses (- 1) 0 open_sockets
        in (socketDescriptor, TLS_TRANSPORT_CONNECT_ERROR, detail1, open1))"

subsection \<open>Writing the request and reading the status line\<close>

text \<open>\<open>remaining\<close> is \<open>length - offset\<close>, \<open>call\<close> the number of the next library call.\<close>

function tlsTransport_WriteAll ::
  "tls_library \<Rightarrow> nat \<Rightarrow> nat \<Rightarrow> TlsTransport_SocketContextTypeDef \<Rightarrow>
   int \<times> nat \<times> TlsTransport_SocketContextTypeDef" where
  "tlsTransport_WriteAll lib call remaining ctx =
     (if remaining = 0 then (0, call, ctx)
      else
        let (result, io) = ssl_write lib call remaining; ctx1 = run_bio lib io ctx in
        if result \<le> 0 then (result, Suc call, ctx1)
        else tlsTransport_WriteAll lib (Suc call) (remaining - nat result) ctx1)"
  by pat_completeness auto

termination by (relation "measure (\<lambda>(lib, call, remaining, ctx). remaining)") auto

declare tlsTransport_WriteAll.simps [simp del]

text \<open>\<open>left\<close> characters still fit the line buffer.\<close>

fun tlsTransport_ReadLine ::
  "tls_library \<Rightarrow> nat \<Rightarrow> nat \<Rightarrow> string \<Rightarrow> TlsTransport_SocketContextTypeDef \<Rightarrow>
   int option \<times> string \<times> TlsTransport_SocketContextTypeDef" where
  "tlsTransport_ReadLine lib call 0 line ctx = (None, line, ctx)"
| "tlsTransport_ReadLine lib call (Suc left) line ctx =
     (let (result, c, io) = ssl_read lib call; ctx1 = run_bio lib io ctx in
      if result \<le> 0 then (Some result, line, ctx1)
      else
        let line1 = line @ [c] in
        if suffix CRLF line1 then (None, line1, ctx1)
        else tlsTransport_ReadLine lib (Suc call) left line1 ctx1)"

text \<open>\<open>sscanf(line, "HTTP/1.%*u %3u", &status)\<close>.\<close>

definition scan_status :: "string \<Rightarrow> u32 option" where
  "scan_status line =
     (if \<not> prefix ''HTTP/1.'' line then None
      else case scan_unsigned (length line) (drop 7 line) of
          None \<Rightarrow> None
        | Some (_, rest) \<Rightarrow> map_option fst (scan_unsigned 3 rest))"

definition tlsTransport_ReadStatus ::
  "tls_library \<Rightarrow> TlsTransport_SocketContextTypeDef \<Rightarrow> u16 \<Rightarrow> int \<times> u16 \<times> TlsTransport_SocketContextTypeDef" where
  "tlsTransport_ReadStatus lib ctx httpStatus =
     (let (failed, line, ctx1) = tlsTransport_ReadLine lib 0 127 [] ctx in
      case failed of
        Some result \<Rightarrow> (result, httpStatus, ctx1)
      | None \<Rightarrow>
          (case scan_status (c_str line) of
             None \<Rightarrow> (err_ssl_bad_input_data lib, httpStatus, ctx1)
           | Some status \<Rightarrow>
               if length line < 12 \<or> status > 999 then (err_ssl_bad_input_data lib, httpStatus, ctx1)
               else (0, ucast status, ctx1)))"

subsection \<open>The request\<close>

definition host_header :: "string \<Rightarrow> u16 \<Rightarrow> string" where
  "host_header host port = (if port = 443 then host else host @ '':'' @ decimal (unat port))"

definition request_text :: "string \<Rightarrow> string \<Rightarrow> string \<Rightarrow> string \<Rightarrow> string option \<Rightarrow> string" where
  "request_text method resource hostHeader body contentType =
     method @ '' '' @ resource @ '' HTTP/1.1'' @ CRLF @ ''Host: '' @ hostHeader @ CRLF @ ''Connection: close'' @ CRLF @
     ''User-Agent: stm32-health-check/1'' @ CRLF @
     (if body \<noteq> [] then ''Content-Type: '' @ the contentType @ CRLF @ ''Content-Length: '' @ decimal (length body) @
        CRLF @ CRLF @ body
      else CRLF)"

text \<open>From the verified handshake to the status line: detail, result, context.\<close>

definition tlsTransport_Exchange ::
  "tls_library \<Rightarrow> string \<Rightarrow> string \<Rightarrow> u16 \<Rightarrow> string \<Rightarrow> string \<Rightarrow> string option \<Rightarrow>
   TlsTransport_SocketContextTypeDef \<Rightarrow> TlsTransport_ResultTypeDef \<Rightarrow>
   int \<times> TlsTransport_ResultTypeDef \<times> TlsTransport_SocketContextTypeDef" where
  "tlsTransport_Exchange lib method host port resource body contentType ctx r =
     (let r = r\<lparr>res_tlsVersion := Some (ssl_version lib), res_cipherSuite := Some (ssl_ciphersuite lib)\<rparr>;
          hostHeader = host_header host port in
      if length hostHeader = 0 \<or> length hostHeader \<ge> 70 then (err_ssl_bad_input_data lib, r, ctx)
      else if body \<noteq> [] \<and> (method \<noteq> ''POST'' \<or> contentType = None) then (err_ssl_bad_input_data lib, r, ctx)
      else
        let request = request_text method resource hostHeader body contentType in
        if length request \<ge> 512 then (err_ssl_bad_input_data lib, r, ctx)
        else
          let (detail, call, ctx1) = tlsTransport_WriteAll lib 0 (length request) ctx in
          if detail \<noteq> 0 then (detail, r\<lparr>res_status := TLS_TRANSPORT_IO_ERROR\<rparr>, ctx1)
          else
            let (detail, httpStatus, ctx2) = tlsTransport_ReadStatus lib ctx1 (res_httpStatus r);
                r = r\<lparr>res_httpStatus := httpStatus\<rparr> in
            if detail \<noteq> 0 then (detail, r\<lparr>res_status := TLS_TRANSPORT_PROTOCOL_ERROR\<rparr>, ctx2)
            else (0, r\<lparr>res_status := TLS_TRANSPORT_OK\<rparr>, ctx2))"

text \<open>Connection, handshake and verification: detail, result, context, descriptor, open
  descriptors.\<close>

definition tlsTransport_Session ::
  "tls_library \<Rightarrow> mbedtls_ssl_context \<Rightarrow> string \<Rightarrow> string \<Rightarrow> u16 \<Rightarrow> string \<Rightarrow> string \<Rightarrow> string option \<Rightarrow>
   TlsTransport_SocketContextTypeDef \<Rightarrow> TlsTransport_ResultTypeDef \<Rightarrow> int list \<Rightarrow>
   int \<times> TlsTransport_ResultTypeDef \<times> TlsTransport_SocketContextTypeDef \<times> int \<times> int list" where
  "tlsTransport_Session lib ssl method host port resource body contentType ctx r open_sockets =
     (let (socketDescriptor, status, detail, open1) = tlsTransport_Connect lib host port 0 open_sockets;
          r = r\<lparr>res_status := status\<rparr> in
      if socketDescriptor < 0 then (detail, r, ctx, socketDescriptor, open1)
      else
        let ssl = ssl\<lparr>ssl_bio := Some socketDescriptor\<rparr>;
            (detail, io) = ssl_handshake lib ssl; ctx1 = run_bio lib io (ctx\<lparr>sc_socketDescriptor := socketDescriptor\<rparr>);
            r = (case peer_valid_to lib ssl of None \<Rightarrow> r
                 | Some t \<Rightarrow> r\<lparr>res_certificateExpiresAt := tlsTransport_X509TimeToUnix (Some t)\<rparr>) in
        if detail \<noteq> 0 then
          (detail, r\<lparr>res_status := if verify_result lib ssl \<noteq> 0 then TLS_TRANSPORT_CERTIFICATE_ERROR
                                   else TLS_TRANSPORT_HANDSHAKE_ERROR\<rparr>, ctx1, socketDescriptor, open1)
        else if verify_result lib ssl \<noteq> 0 then
          (err_x509_cert_verify_failed lib, r\<lparr>res_status := TLS_TRANSPORT_CERTIFICATE_ERROR\<rparr>, ctx1,
           socketDescriptor, open1)
        else
          let (detail, r, ctx2) = tlsTransport_Exchange lib method host port resource body contentType ctx1 r
          in (detail, r, ctx2, socketDescriptor, open1))"

definition zero_result :: TlsTransport_ResultTypeDef where
  "zero_result = \<lparr>res_status = TLS_TRANSPORT_CONFIG_ERROR, res_detail = 0, res_httpStatus = 0, res_elapsedMs = 0,
     res_certificateExpiresAt = 0, res_tlsVersion = None, res_cipherSuite = None\<rparr>"

text \<open>The client's settings: TLS 1.3 only, verification required, the selected anchor as the only
  trusted certificate.\<close>

definition client_context :: "u8 list \<Rightarrow> string \<Rightarrow> mbedtls_ssl_context" where
  "client_context trustAnchor host =
     \<lparr>ssl_min_version = MBEDTLS_SSL_VERSION_TLS1_3, ssl_max_version = MBEDTLS_SSL_VERSION_TLS1_3,
      ssl_authmode = MBEDTLS_SSL_VERIFY_REQUIRED, ssl_ca_chain = trustAnchor, ssl_hostname = host, ssl_bio = None\<rparr>"

text \<open>Everything after \<open>TlsPlatform_Lock\<close> and before the label \<open>cleanup\<close>.\<close>

definition tlsTransport_Attempt ::
  "tls_library \<Rightarrow> mbedtls_ca \<Rightarrow> string \<Rightarrow> string \<Rightarrow> u16 \<Rightarrow> string \<Rightarrow> u8 \<Rightarrow> string \<Rightarrow> string option \<Rightarrow>
   TlsTrustStore_State \<Rightarrow> int list \<Rightarrow> env \<Rightarrow>
   int \<times> TlsTransport_ResultTypeDef \<times> TlsTransport_SocketContextTypeDef \<times> int \<times> int list \<times> env" where
  "tlsTransport_Attempt lib mb method host port resource trustAnchorId body contentType ts open_sockets env =
     (let ctx = \<lparr>sc_socketDescriptor = - 1, sc_lastError = 0\<rparr>; r = zero_result; detail = drbg_seed lib in
      if detail \<noteq> 0 then (detail, r, ctx, - 1, open_sockets, env)
      else
        let (trustStatus, trustAnchor, env1) = TlsTrustStore_Parse mb trustAnchorId ts env in
        if trustStatus \<noteq> TLS_TRUST_STORE_STATUS_OK then
          (err_x509_cert_verify_failed lib, r\<lparr>res_status := TLS_TRANSPORT_CERTIFICATE_ERROR\<rparr>, ctx, - 1, open_sockets, env1)
        else if config_defaults lib \<noteq> 0 then (config_defaults lib, r, ctx, - 1, open_sockets, env1)
        else if ssl_setup lib \<noteq> 0 then (ssl_setup lib, r, ctx, - 1, open_sockets, env1)
        else if set_hostname lib host \<noteq> 0 then (set_hostname lib host, r, ctx, - 1, open_sockets, env1)
        else
          let (detail, r, ctx1, fd, open1) =
                tlsTransport_Session lib (client_context (the trustAnchor) host) method host port resource body contentType ctx r open_sockets
          in (detail, r, ctx1, fd, open1, env1))"

definition TlsTransport_Request ::
  "tls_library \<Rightarrow> mbedtls_ca \<Rightarrow> string option \<Rightarrow> string option \<Rightarrow> u16 \<Rightarrow> string option \<Rightarrow> u8 \<Rightarrow> string option \<Rightarrow>
   string option \<Rightarrow> TlsTrustStore_State \<Rightarrow> TlsPlatform_State \<Rightarrow> int list \<Rightarrow> env \<Rightarrow>
   TlsTransport_StatusTypeDef \<times> TlsTransport_ResultTypeDef \<times> int list \<times> env" where
  "TlsTransport_Request lib mb method host port resource trustAnchorId body contentType ts ps open_sockets env =
     (if method = None \<or> host = None \<or> resource = None \<or> body = None \<or> port = 0 \<or>
         deref (the resource) \<noteq> CHR ''/'' \<or> (the method \<noteq> ''HEAD'' \<and> the method \<noteq> ''GET'' \<and> the method \<noteq> ''POST'')
      then (TLS_TRANSPORT_CONFIG_ERROR, zero_result, open_sockets, env)
      else
        let started = TimeService_GetUptimeMs env; (lock, env1) = TlsPlatform_Lock ps env in
        if lock \<noteq> HEALTH_CHECK_STATUS_OK then (res_status zero_result, zero_result, open_sockets, env1)
        else
          let (detail, r, ctx, socketDescriptor, open1, env2) =
                tlsTransport_Attempt lib mb (the method) (the host) port (the resource) trustAnchorId (the body)
                  contentType ts open_sockets env1;
              env3 = env2\<lparr>ticks := ticks env2 + request_ticks lib\<rparr>;
              detail = (if detail \<noteq> 0 \<and> sc_lastError ctx \<noteq> 0 then - sc_lastError ctx else detail);
              r = r\<lparr>res_detail := detail, res_elapsedMs := TimeService_GetUptimeMs env3 - started\<rparr>;
              open2 = (if socketDescriptor \<ge> 0 then remove1 socketDescriptor open1 else open1)
          in (res_status r, r, open2, env3))"

definition TlsTransport_Head ::
  "tls_library \<Rightarrow> mbedtls_ca \<Rightarrow> string option \<Rightarrow> u16 \<Rightarrow> string option \<Rightarrow> u8 \<Rightarrow>
   TlsTrustStore_State \<Rightarrow> TlsPlatform_State \<Rightarrow> int list \<Rightarrow> env \<Rightarrow>
   TlsTransport_StatusTypeDef \<times> TlsTransport_ResultTypeDef \<times> int list \<times> env" where
  "TlsTransport_Head lib mb host port resource trustAnchorId ts ps open_sockets env =
     TlsTransport_Request lib mb (Some ''HEAD'') host port resource trustAnchorId (Some '''') None ts ps open_sockets env"

subsection \<open>The calendar, counted day by day\<close>

definition leap_year :: "nat \<Rightarrow> bool" where
  "leap_year y \<longleftrightarrow> (4 dvd y \<and> \<not> 100 dvd y) \<or> 400 dvd y"

text \<open>Days from 1 January 1970 to 1 January of the \<open>n\<close>th year after.\<close>

fun days_to_year :: "nat \<Rightarrow> nat" where
  "days_to_year 0 = 0"
| "days_to_year (Suc n) = days_to_year n + (if leap_year (1970 + n) then 366 else 365)"

definition month_lengths :: "nat \<Rightarrow> nat list" where
  "month_lengths y = [31, if leap_year y then 29 else 28, 31, 30, 31, 30, 31, 31, 30, 31, 30, 31]"

definition calendar_seconds :: "mbedtls_x509_time \<Rightarrow> int" where
  "calendar_seconds v = (let y = nat (x_year v) in
     int (days_to_year (y - 1970) + sum_list (take (nat (x_mon v) - 1) (month_lengths y)) + nat (x_day v) - 1) * 86400 +
     x_hour v * 3600 + x_min v * 60 + x_sec v)"

definition time_in_range :: "mbedtls_x509_time \<Rightarrow> bool" where
  "time_in_range v \<longleftrightarrow> 1970 \<le> x_year v \<and> 1 \<le> x_mon v \<and> x_mon v \<le> 12 \<and> 1 \<le> x_day v \<and> x_day v \<le> 31 \<and>
     0 \<le> x_hour v \<and> x_hour v \<le> 23 \<and> 0 \<le> x_min v \<and> x_min v \<le> 59 \<and> 0 \<le> x_sec v \<and> x_sec v \<le> 59"

text \<open>A peer that accepts the connection and the request and then closes without a word,
  and one that answers 200.\<close>

definition silent_library :: tls_library where
  "silent_library = \<lparr>drbg_seed = 0, config_defaults = 0, ssl_setup = 0, set_hostname = (\<lambda>_. 0),
     getaddrinfo = (\<lambda>_ _. (0, [\<lparr>sa_socket = - 1, sa_socket_errno = 23, sa_connect = 0, sa_connect_errno = 0,
        sa_getsockopt = 0, sa_so_error = 0\<rparr>, \<lparr>sa_socket = 3, sa_socket_errno = 0, sa_connect = 0, sa_connect_errno = 0,
        sa_getsockopt = 0, sa_so_error = 0\<rparr>])),
     ssl_handshake = (\<lambda>_. (0, [])), peer_valid_to = (\<lambda>_. None),
     verify_result = (\<lambda>ssl. if ssl_authmode ssl = MBEDTLS_SSL_VERIFY_NONE then 0xFFFFFFFF else 0), ssl_version = ''TLSv1.3'', ssl_ciphersuite = ''AES'',
     ssl_write = (\<lambda>_ n. (int n, [])), ssl_read = (\<lambda>_. (0, CHR ''x'', [])), request_ticks = 7,
     err_ssl_timeout = - 26624, err_net_send_failed = - 78, err_net_recv_failed = - 76, err_ssl_conn_eof = - 29312,
     err_x509_cert_verify_failed = - 9984, err_ssl_bad_input_data = - 28928, errno_EAGAIN = 11, errno_EWOULDBLOCK = 11,
     errno_ETIMEDOUT = 116\<rparr>"

definition status_line :: string where
  "status_line = ''HTTP/1.1 200 OK'' @ CRLF"

definition answering_library :: tls_library where
  "answering_library = silent_library\<lparr>ssl_read := (\<lambda>k. (1, status_line ! k, []))\<rparr>"

definition sample_trust :: TlsTrustStore_State where
  "sample_trust = \<lparr>trustStoreSnapshot = zero_trust\<lparr>ts_anchors := sample_anchor # replicate 5 zero_anchor\<rparr>,
     trustStoreActiveAddress = FLASH_LAYOUT_TLS_TRUST_STORE_BANK_A, trustStoreMutex = True\<rparr>"

text \<open>The library delivers \<open>s\<close> byte by byte.\<close>

definition answers :: "tls_library \<Rightarrow> nat \<Rightarrow> string \<Rightarrow> bool" where
  "answers lib call s \<longleftrightarrow> (\<forall>k<length s. ssl_read lib (call + k) = (1, s ! k, []))"

subsection \<open>The conversion\<close>

lemma div_Suc_dvd: "0 < k \<Longrightarrow> Suc n div k = n div k + (if k dvd Suc n then 1 else 0)"
  by (simp add: div_Suc dvd_eq_mod_eq_0)

lemma leap_step:
  "int (Suc m div 4) - int (Suc m div 100) + int (Suc m div 400) =
     int (m div 4) - int (m div 100) + int (m div 400) + (if leap_year (Suc m) then 1 else 0)"
proof -
  have "100 dvd Suc m" if "400 dvd Suc m"
    using that by presburger
  moreover have "4 dvd Suc m" if "100 dvd Suc m"
    using that by presburger
  ultimately show ?thesis
    unfolding leap_year_def div_Suc_dvd[of 4 m, simplified] div_Suc_dvd[of 100 m, simplified] div_Suc_dvd[of 400 m, simplified]
    by (cases "4 dvd Suc m"; cases "100 dvd Suc m"; cases "400 dvd Suc m"; simp)
qed

lemma days_to_year_closed:
  "int (days_to_year n) = 365 * int n + int ((1969 + n) div 4) - int ((1969 + n) div 100) + int ((1969 + n) div 400) - 477"
proof (induction n)
  case 0
  show ?case
    by simp
next
  case (Suc n)
  have "1970 + n = Suc (1969 + n)" "1969 + Suc n = Suc (1969 + n)"
    by simp_all
  then show ?case
    using Suc.IH leap_step[of "1969 + n"] by (simp only: days_to_year.simps) (simp split: if_splits)
qed

text \<open>The days of the source's 400-year formula, without wrap-around.\<close>

lemma era_days:
  fixes y :: int
  assumes "0 \<le> y"
  shows "y div 400 * 146097 + ((y - y div 400 * 400) * 365 + (y - y div 400 * 400) div 4 - (y - y div 400 * 400) div 100) =
    365 * y + y div 4 - y div 100 + y div 400"
proof -
  define e r where "e = y div 400" and "r = y - y div 400 * 400"
  have y: "y = r + 4 * (100 * e)" "y = r + 100 * (4 * e)" "y = r + 400 * e"
    by (simp_all add: e_def r_def)
  have "y div 4 = r div 4 + 100 * e"
    by (subst y(1)) simp
  moreover have "y div 100 = r div 100 + 4 * e"
    by (subst y(2)) simp
  ultimately show ?thesis
    using y(3) unfolding e_def[symmetric] r_def[symmetric] by simp
qed

lemma u32_div_of_int:
  assumes "0 \<le> r" "r < 4294967296"
  shows "(of_int r :: u32) div 4 = of_int (r div 4)" "(of_int r :: u32) div 100 = of_int (r div 100)"
  using assms by (simp_all add: word_div_def uint_word_of_int)

lemma uint_u32_of_int: "0 \<le> x \<Longrightarrow> x < 4294967296 \<Longrightarrow> uint (of_int x :: u32) = x"
  by (simp add: uint_word_of_int)

lemma day_of_era_word:
  assumes "0 \<le> r" "r < 400" "0 \<le> c" "c < 400" "1 \<le> d" "d \<le> 31"
  shows "uint ((of_int r :: u32) * 365 + of_int r div 4 - of_int r div 100 + (of_int c + of_int d - 1)) =
    r * 365 + r div 4 - r div 100 + c + d - 1"
proof -
  let ?x = "r * 365 + r div 4 - r div 100 + (c + d - 1)"
  have "(of_int r :: u32) * 365 + of_int r div 4 - of_int r div 100 + (of_int c + of_int d - 1) = of_int ?x"
    using u32_div_of_int[of r] assms by simp
  then have "uint ((of_int r :: u32) * 365 + of_int r div 4 - of_int r div 100 + (of_int c + of_int d - 1)) =
      uint (of_int ?x :: u32)"
    by (simp only:)
  moreover have "r div 100 \<le> r div 4" "0 \<le> r div 100" "r div 4 < 100"
    using assms by auto
  then have "uint (of_int ?x :: u32) = ?x"
    using assms by (intro uint_u32_of_int) linarith+
  ultimately show ?thesis
    by simp
qed

text \<open>The days before the \<open>m\<close>th month, counted from March, against the month lengths.\<close>

lemma months_counted:
  assumes "1 \<le> m" "m \<le> 12"
  shows "\<exists>c::int. 0 \<le> c \<and> c < 400 \<and>
    (153 * (if (of_int m :: u32) > 2 then of_int m - 3 else of_int m + 9) + 2) div 5 = (of_int c :: u32) \<and>
    (if m \<le> 2 then c - 306 else c + (if leap_year y then 60 else 59)) =
      int (sum_list (take (nat m - 1) (month_lengths y)))"
proof -
  have "m = 1 \<or> m = 2 \<or> m = 3 \<or> m = 4 \<or> m = 5 \<or> m = 6 \<or> m = 7 \<or> m = 8 \<or> m = 9 \<or> m = 10 \<or> m = 11 \<or> m = 12"
    using assms by presburger
  then show ?thesis
    apply (elim disjE)
    subgoal by (rule exI[of _ 306]) (simp add: month_lengths_def)
    subgoal by (rule exI[of _ 337]) (simp add: month_lengths_def)
    subgoal by (rule exI[of _ 0]) (simp add: month_lengths_def)
    subgoal by (rule exI[of _ 31]) (simp add: month_lengths_def)
    subgoal by (rule exI[of _ 61]) (simp add: month_lengths_def)
    subgoal by (rule exI[of _ 92]) (simp add: month_lengths_def)
    subgoal by (rule exI[of _ 122]) (simp add: month_lengths_def)
    subgoal by (rule exI[of _ 153]) (simp add: month_lengths_def)
    subgoal by (rule exI[of _ 184]) (simp add: month_lengths_def)
    subgoal by (rule exI[of _ 214]) (simp add: month_lengths_def)
    subgoal by (rule exI[of _ 245]) (simp add: month_lengths_def)
    subgoal by (rule exI[of _ 275]) (simp add: month_lengths_def)
    done
qed

lemma year_days:
  assumes "1970 \<le> y"
  shows "365 * (y - 1) + (y - 1) div 4 - (y - 1) div 100 + (y - 1) div 400 - 719468 + 306 =
      int (days_to_year (nat y - 1970))"
    and "365 * y + y div 4 - y div 100 + y div 400 - 719468 =
      int (days_to_year (nat y - 1970)) + (if leap_year (nat y) then 60 else 59)"
proof -
  have "1970 \<le> nat y"
    using assms by simp
  then obtain n where n: "nat y = 1970 + n"
    using le_Suc_ex by blast
  then have y: "y = int (Suc (1969 + n))" "nat (int (Suc (1969 + n))) - 1970 = n"
    using assms by simp_all
  note c = days_to_year_closed[of n]
  show "365 * (y - 1) + (y - 1) div 4 - (y - 1) div 100 + (y - 1) div 400 - 719468 + 306 =
      int (days_to_year (nat y - 1970))"
    using c n by (simp add: zdiv_int) (simp add: y(1) zdiv_int)
  have d: "y div 4 = int (Suc (1969 + n) div 4)" "y div 100 = int (Suc (1969 + n) div 100)"
    "y div 400 = int (Suc (1969 + n) div 400)"
    by (simp_all only: y(1) zdiv_int of_nat_numeral)
  have "nat y = Suc (1969 + n)" "nat y - 1970 = n"
    using n by simp_all
  then show "365 * y + y div 4 - y div 100 + y div 400 - 719468 =
      int (days_to_year (nat y - 1970)) + (if leap_year (nat y) then 60 else 59)"
    unfolding d using c leap_step[of "1969 + n"] y(1) by (simp only: of_nat_Suc) (simp split: if_splits)
qed

lemma out_of_range:
  "(x_year v < 1970 \<or> x_mon v < 1 \<or> x_mon v > 12 \<or> x_day v < 1 \<or> x_day v > 31 \<or>
      x_hour v < 0 \<or> x_hour v > 23 \<or> x_min v < 0 \<or> x_min v > 59 \<or> x_sec v < 0 \<or> x_sec v > 59) = (\<not> time_in_range v)"
  unfolding time_in_range_def not_le[symmetric] by blast

lemma X509_seconds:
  assumes "time_in_range v"
  shows "tlsTransport_X509TimeToUnix (Some v) =
    (if calendar_seconds v > 0 \<and> calendar_seconds v \<le> 4294967295 then of_int (calendar_seconds v) else 0)"
proof -
  define m where "m = (of_int (x_mon v) :: u32)"
  define y where "y = x_year v - (if m \<le> 2 then 1 else 0)"
  define r where "r = y - y div 400 * 400"
  define doe where "doe = (of_int r :: u32) * 365 + of_int r div 4 - of_int r div 100 +
    ((153 * (if m > 2 then m - 3 else m + 9) + 2) div 5 + of_int (x_day v) - 1)"
  obtain c where c: "0 \<le> c" "c < 400" "(153 * (if m > 2 then m - 3 else m + 9) + 2) div 5 = (of_int c :: u32)"
    "(if x_mon v \<le> 2 then c - 306 else c + (if leap_year (nat (x_year v)) then 60 else 59)) =
      int (sum_list (take (nat (x_mon v) - 1) (month_lengths (nat (x_year v)))))"
    using months_counted[of "x_mon v" "nat (x_year v)"] assms unfolding m_def[symmetric] time_in_range_def by blast
  have m: "m \<le> 2 \<longleftrightarrow> x_mon v \<le> 2"
    using assms by (auto simp: time_in_range_def word_le_def uint_u32_of_int m_def)
  have r: "0 \<le> r" "r < 400" "0 \<le> y"
    using assms by (simp_all add: time_in_range_def r_def y_def flip: minus_div_mult_eq_mod)
  define R Y where "R = r * 365 + r div 4 - r div 100"
    and "Y = 365 * y + y div 4 - y div 100 + y div 400 - 719468"
  have "uint doe = R + c + x_day v - 1"
    unfolding doe_def c(3) R_def by (rule day_of_era_word) (use r c assms in \<open>auto simp: time_in_range_def\<close>)
  moreover have "y div 400 * 146097 + R - 719468 = Y"
    unfolding R_def r_def era_days[OF r(3)] Y_def by (rule refl)
  ultimately have days: "y div 400 * 146097 + uint doe - 719468 = Y + c + x_day v - 1"
    by (simp only: flip: \<open>y div 400 * 146097 + R - 719468 = Y\<close>)
  let ?D = "days_to_year (nat (x_year v) - 1970)"
  let ?S = "sum_list (take (nat (x_mon v) - 1) (month_lengths (nat (x_year v))))"
  have d: "1970 \<le> x_year v" "1 \<le> x_day v"
    using assms by (simp_all add: time_in_range_def)
  then have s: "int (?D + ?S + nat (x_day v) - 1) = int ?D + int ?S + x_day v - 1"
    by (simp add: of_nat_diff)
  have "Y + c = int ?D + int ?S"
  proof (cases "x_mon v \<le> 2")
    case True
    then have "Y + 306 = int ?D" "c - 306 = int ?S"
      using year_days(1)[OF d(1)] c(4) m by (simp_all only: Y_def y_def if_True)
    then show ?thesis
      by linarith
  next
    case False
    then have "Y = int ?D + (if leap_year (nat (x_year v)) then 60 else 59)"
      "c + (if leap_year (nat (x_year v)) then 60 else 59) = int ?S"
      using year_days(2)[OF d(1)] c(4) m by (simp_all only: Y_def y_def if_False diff_zero)
    then show ?thesis
      by linarith
  qed
  then have count: "Y + c + x_day v - 1 = int (?D + ?S + nat (x_day v) - 1)"
    using s by linarith
  have "(y div 400 * 146097 + uint doe - 719468) * 86400 + x_hour v * 3600 + x_min v * 60 + x_sec v = calendar_seconds v"
    unfolding days count calendar_seconds_def Let_def by (rule refl)
  then show ?thesis
    by (simp only: tlsTransport_X509TimeToUnix_def option.case Let_def out_of_range assms not_True_eq_False if_False
        m_def[symmetric] y_def[symmetric] r_def[symmetric] doe_def[symmetric])
qed

text \<open>C33: the conversion of a certificate's expiry agrees with the calendar counted
  day by day, leap years included, for every date from 1970 on: in unsigned 32-bit arithmetic no intermediate
  value wraps, and a time that does not fit the 32-bit result is reported as 0, as is
  every out-of-range field.\<close>

theorem x509_time_is_calendar:
  "tlsTransport_X509TimeToUnix (Some v) =
    (if time_in_range v \<and> calendar_seconds v > 0 \<and> calendar_seconds v \<le> 4294967295
     then of_int (calendar_seconds v) else 0)"
proof (cases "time_in_range v")
  case True
  then show ?thesis
    using X509_seconds by simp
next
  case False
  then show ?thesis
    by (simp only: tlsTransport_X509TimeToUnix_def option.case out_of_range not_False_eq_True simp_thms if_True if_False)
qed

subsection \<open>Connections\<close>

lemma TryAddresses_open:
  "tlsTransport_TryAddresses addresses fd d open_sockets = (fd', d', open') \<Longrightarrow> fd < 0 \<Longrightarrow>
     (if fd' < 0 then open' = open_sockets else open' = fd' # open_sockets)"
proof (induction addresses arbitrary: fd d)
  case Nil
  then show ?case
    by simp
next
  case (Cons address addresses)
  show ?case
  proof (cases "0 \<le> sa_socket address \<and> sa_connect address = 0")
    case True
    then show ?thesis
      using Cons.prems by (auto simp: Let_def)
  next
    case False
    then obtain d1 fd1 where "tlsTransport_TryAddresses addresses fd1 d1 open_sockets = (fd', d', open')" "fd1 < 0"
      using Cons.prems by (auto simp: Let_def split: if_splits)
    then show ?thesis
      by (rule Cons.IH)
  qed
qed

lemma Connect_open:
  assumes "tlsTransport_Connect lib host port 0 open_sockets = (fd, status, d, open')"
  shows "if fd < 0 then open' = open_sockets else open' = fd # open_sockets" "status \<noteq> TLS_TRANSPORT_OK"
  using assms by (auto simp: tlsTransport_Connect_def Let_def split: prod.splits if_splits dest: TryAddresses_open)

lemma Exchange_ok:
  assumes "tlsTransport_Exchange lib method host port resource body ct ctx r = (d, r', ctx')"
    "res_status r \<noteq> TLS_TRANSPORT_OK" "res_status r' = TLS_TRANSPORT_OK"
  shows "d = 0"
  using assms by (auto simp: tlsTransport_Exchange_def Let_def split: prod.splits if_splits)

text \<open>The descriptor is the one \<open>tlsTransport_Connect\<close> opened; a success is a verified one.\<close>

definition authenticated :: "tls_library \<Rightarrow> mbedtls_ssl_context \<Rightarrow> int \<Rightarrow> bool" where
  "authenticated lib ssl fd \<longleftrightarrow> fst (ssl_handshake lib (ssl\<lparr>ssl_bio := Some fd\<rparr>)) = 0 \<and>
     verify_result lib (ssl\<lparr>ssl_bio := Some fd\<rparr>) = 0"

lemma Session_cases:
  assumes "tlsTransport_Session lib ssl method host port resource body ct ctx r open_sockets = (d, r', ctx', fd, open')"
  shows "if fd < 0 then open' = open_sockets else open' = fd # open_sockets"
    "res_status r' = TLS_TRANSPORT_OK \<Longrightarrow> 0 \<le> fd \<and> fst (ssl_handshake lib (ssl\<lparr>ssl_bio := Some fd\<rparr>)) = 0 \<and>
      verify_result lib (ssl\<lparr>ssl_bio := Some fd\<rparr>) = 0 \<and> d = 0"
proof -
  obtain fd1 st1 d1 open1 where c: "tlsTransport_Connect lib host port 0 open_sockets = (fd1, st1, d1, open1)"
    using prod_cases4 by blast
  let ?ssl = "ssl\<lparr>ssl_bio := Some fd1\<rparr>"
  obtain d2 io where h: "ssl_handshake lib ?ssl = (d2, io)" by fastforce
  define r1 where "r1 = (case peer_valid_to lib ?ssl of None \<Rightarrow> r\<lparr>res_status := st1\<rparr>
    | Some t \<Rightarrow> r\<lparr>res_status := st1, res_certificateExpiresAt := tlsTransport_X509TimeToUnix (Some t)\<rparr>)"
  define ctx1 where "ctx1 = run_bio lib io (ctx\<lparr>sc_socketDescriptor := fd1\<rparr>)"
  obtain d3 r3 ctx3 where e: "tlsTransport_Exchange lib method host port resource body ct ctx1 r1 = (d3, r3, ctx3)"
    using prod_cases3 by blast
  have r1: "res_status r1 = st1"
    by (simp add: r1_def split: option.splits)
  have run: "(d, r', ctx', fd, open') =
    (if fd1 < 0 then (d1, r\<lparr>res_status := st1\<rparr>, ctx, fd1, open1)
     else if d2 \<noteq> 0 then (d2, r1\<lparr>res_status := if verify_result lib ?ssl \<noteq> 0 then TLS_TRANSPORT_CERTIFICATE_ERROR
            else TLS_TRANSPORT_HANDSHAKE_ERROR\<rparr>, ctx1, fd1, open1)
     else if verify_result lib ?ssl \<noteq> 0 then
       (err_x509_cert_verify_failed lib, r1\<lparr>res_status := TLS_TRANSPORT_CERTIFICATE_ERROR\<rparr>, ctx1, fd1, open1)
     else (d3, r3, ctx3, fd1, open1))"
    unfolding assms[symmetric]
    by (simp only: tlsTransport_Session_def c h Let_def prod.case r1_def[symmetric] ctx1_def[symmetric] e)
  then have "fd = fd1" "open' = open1"
    by (simp_all split: if_splits)
  then show "if fd < 0 then open' = open_sockets else open' = fd # open_sockets"
    using Connect_open(1)[OF c] by simp
  show "0 \<le> fd \<and> fst (ssl_handshake lib (ssl\<lparr>ssl_bio := Some fd\<rparr>)) = 0 \<and>
      verify_result lib (ssl\<lparr>ssl_bio := Some fd\<rparr>) = 0 \<and> d = 0"
    if "res_status r' = TLS_TRANSPORT_OK"
    using run that Connect_open(2)[OF c] Exchange_ok[OF e] r1 h by (simp split: if_splits)
qed

lemma zero_result_status [simp]: "res_status zero_result = TLS_TRANSPORT_CONFIG_ERROR" "res_detail zero_result = 0"
  by (simp_all add: zero_result_def)

lemma Attempt_cases:
  assumes "tlsTransport_Attempt lib mb method host port resource anchorId body ct ts open_sockets env = (d, r, ctx, fd, open', env')"
  shows "if fd < 0 then open' = open_sockets else open' = fd # open_sockets" "cells env' = cells env"
    "res_status r = TLS_TRANSPORT_OK \<Longrightarrow> (\<exists>der env1. TlsTrustStore_Parse mb anchorId ts env = (TLS_TRUST_STORE_STATUS_OK, Some der, env1) \<and>
       0 \<le> fd \<and> authenticated lib (client_context der host) fd) \<and> d = 0"
proof -
  obtain s a env1 where p: "TlsTrustStore_Parse mb anchorId ts env = (s, a, env1)"
    using prod_cases3 by blast
  have cells: "cells env1 = cells env"
    using p by (auto simp: TlsTrustStore_Parse_def Let_def split: prod.splits if_splits dest: xSemaphoreTake_frame(1))
  have some: "\<exists>der. a = Some der" if "s = TLS_TRUST_STORE_STATUS_OK"
    using p that by (auto simp: TlsTrustStore_Parse_def Let_def split: prod.splits if_splits)
  let ?ctx = "\<lparr>sc_socketDescriptor = - 1, sc_lastError = 0\<rparr>"
  obtain d2 r2 ctx2 fd2 open2 where ses: "tlsTransport_Session lib (client_context (the a) host) method host port resource body ct ?ctx zero_result open_sockets =
      (d2, r2, ctx2, fd2, open2)"
    using prod_cases5 by blast
  note sc = Session_cases[OF ses] and run = assms[unfolded tlsTransport_Attempt_def Let_def p prod.case ses]
  show "if fd < 0 then open' = open_sockets else open' = fd # open_sockets" "cells env' = cells env"
    using run sc(1) cells by (auto split: if_splits)
  show "(\<exists>der env1. TlsTrustStore_Parse mb anchorId ts env = (TLS_TRUST_STORE_STATUS_OK, Some der, env1) \<and>
      0 \<le> fd \<and> authenticated lib (client_context der host) fd) \<and> d = 0" if "res_status r = TLS_TRANSPORT_OK"
    using run sc(2) some that p by (auto simp: authenticated_def split: if_splits)
qed

lemma Request_cases:
  fixes lib mb verb host port resource anchorId body ct ts ps open_sockets env
  assumes "TlsTransport_Request lib mb verb host port resource anchorId body ct ts ps open_sockets env = (s, r, open', env')"
  obtains "s \<noteq> TLS_TRANSPORT_OK" "res_status r \<noteq> TLS_TRANSPORT_OK" "open' = open_sockets" "cells env' = cells env"
  | d ctx fd open1 r1 env1 env2 where "cells env1 = cells env"
      "tlsTransport_Attempt lib mb (the verb) (the host) port (the resource) anchorId (the body) ct ts open_sockets env1 =
         (d, r1, ctx, fd, open1, env2)"
      "s = res_status r1" "res_status r = s" "d = 0 \<longrightarrow> res_detail r = 0" "cells env' = cells env2"
      "open' = (if fd \<ge> 0 then remove1 fd open1 else open1)"
proof -
  obtain l env1 where l: "TlsPlatform_Lock ps env = (l, env1)" by fastforce
  obtain d r1 ctx fd open1 env2 where a: "tlsTransport_Attempt lib mb (the verb) (the host) port (the resource) anchorId
      (the body) ct ts open_sockets env1 = (d, r1, ctx, fd, open1, env2)"
    using prod_cases6 by blast
  have c: "cells env1 = cells env"
    using Lock_frame[OF l] by (simp add: only_time_def)
  let ?bad = "verb = None \<or> host = None \<or> resource = None \<or> body = None \<or> port = 0 \<or>
    deref (the resource) \<noteq> CHR ''/'' \<or> (the verb \<noteq> ''HEAD'' \<and> the verb \<noteq> ''GET'' \<and> the verb \<noteq> ''POST'')"
  let ?d = "if d \<noteq> 0 \<and> sc_lastError ctx \<noteq> 0 then - sc_lastError ctx else d"
  have run: "(s, r, open', env') =
    (if ?bad then (TLS_TRANSPORT_CONFIG_ERROR, zero_result, open_sockets, env)
     else if l \<noteq> HEALTH_CHECK_STATUS_OK then (TLS_TRANSPORT_CONFIG_ERROR, zero_result, open_sockets, env1)
     else (res_status r1, r1\<lparr>res_detail := ?d, res_elapsedMs := ticks env2 + request_ticks lib - ticks env\<rparr>,
       if fd \<ge> 0 then remove1 fd open1 else open1, env2\<lparr>ticks := ticks env2 + request_ticks lib\<rparr>))"
    unfolding assms[symmetric] TlsTransport_Request_def l a Let_def prod.case
    by (rule if_cong[OF refl refl]) simp
  show ?thesis
  proof (cases "?bad \<or> l \<noteq> HEALTH_CHECK_STATUS_OK")
    case True
    then have "(s, r, open') = (TLS_TRANSPORT_CONFIG_ERROR, zero_result, open_sockets) \<and> (env' = env \<or> env' = env1)"
      using run by (cases ?bad) auto
    then show ?thesis
      using that(1) c by auto
  next
    case False
    then have nb: "\<not> ?bad" and nl: "\<not> l \<noteq> HEALTH_CHECK_STATUS_OK"
      by blast+
    have "(s, r, open', env') =
      (res_status r1, r1\<lparr>res_detail := ?d, res_elapsedMs := ticks env2 + request_ticks lib - ticks env\<rparr>,
       if fd \<ge> 0 then remove1 fd open1 else open1, env2\<lparr>ticks := ticks env2 + request_ticks lib\<rparr>)"
      using run unfolding if_not_P[OF nb] if_not_P[OF nl] .
    then show ?thesis
      using that(2)[OF c a] by simp
  qed
qed

text \<open>C6: a request reports success only for an authenticated peer: the configured trust
  anchor exists in the trust store and its stored certificate parsed, and on the connected socket the handshake
  succeeded and the verification left no flag, with the library configured for TLS 1.3 only, with verification required, that
  anchor as the only trusted certificate and the requested host name.\<close>

theorem transport_ok_authenticated:
  assumes "TlsTransport_Request lib mb method host port resource anchorId body ct ts ps open_sockets env =
    (TLS_TRANSPORT_OK, r, open', env')"
  shows "anchor_id_ok anchorId ts \<and> a_occupied (anchor_at anchorId ts) \<noteq> 0 \<and>
    crt_parse_der mb (take (unat (a_derLength (anchor_at anchorId ts))) (a_der (anchor_at anchorId ts))) = 0 \<and>
    (\<exists>fd ssl. 0 \<le> fd \<and> ssl_bio ssl = Some fd \<and>
       ssl_min_version ssl = MBEDTLS_SSL_VERSION_TLS1_3 \<and> ssl_max_version ssl = MBEDTLS_SSL_VERSION_TLS1_3 \<and>
       ssl_authmode ssl = MBEDTLS_SSL_VERIFY_REQUIRED \<and> ssl_hostname ssl = the host \<and>
       ssl_ca_chain ssl = take (unat (a_derLength (anchor_at anchorId ts))) (a_der (anchor_at anchorId ts)) \<and>
       fst (ssl_handshake lib ssl) = 0 \<and> verify_result lib ssl = 0) \<and> res_detail r = 0"
proof (cases rule: Request_cases[OF assms, case_names refused attempted])
  case (attempted d ctx fd open1 r1 env1 env2)
  note ok = Attempt_cases(3)[OF attempted(2)]
  obtain der env3 where p: "TlsTrustStore_Parse mb anchorId ts env1 = (TLS_TRUST_STORE_STATUS_OK, Some der, env3)"
    and a: "0 \<le> fd" "authenticated lib (client_context der (the host)) fd"
    using ok attempted(3) by auto
  let ?ssl = "(client_context der (the host))\<lparr>ssl_bio := Some fd\<rparr>"
  have d: "der = take (unat (a_derLength (anchor_at anchorId ts))) (a_der (anchor_at anchorId ts))"
    using p by (auto simp: TlsTrustStore_Parse_def Let_def split: prod.splits if_splits)
  have "\<exists>fd ssl. 0 \<le> fd \<and> ssl_bio ssl = Some fd \<and>
       ssl_min_version ssl = MBEDTLS_SSL_VERSION_TLS1_3 \<and> ssl_max_version ssl = MBEDTLS_SSL_VERSION_TLS1_3 \<and>
       ssl_authmode ssl = MBEDTLS_SSL_VERIFY_REQUIRED \<and> ssl_hostname ssl = the host \<and> ssl_ca_chain ssl = der \<and>
       fst (ssl_handshake lib ssl) = 0 \<and> verify_result lib ssl = 0"
    using a by (intro exI[of _ fd] exI[of _ ?ssl]) (simp add: authenticated_def client_context_def)
  then show ?thesis
    using ok attempted(3,5) p unfolding d
    by (auto simp: TlsTrustStore_Parse_def Let_def split: prod.splits if_splits)
qed simp

text \<open>C34: a request leaks no socket and leaves the flash alone: whatever the resolver,
  the sockets, the TLS library and the peer do, the open descriptors afterwards are those
  before.\<close>

theorem transport_releases_sockets:
  "fst (snd (snd (TlsTransport_Request lib mb method host port resource anchorId body ct ts ps open_sockets env))) = open_sockets \<and>
   cells (snd (snd (snd (TlsTransport_Request lib mb method host port resource anchorId body ct ts ps open_sockets env)))) = cells env"
proof -
  obtain s r open' env' where run:
    "TlsTransport_Request lib mb method host port resource anchorId body ct ts ps open_sockets env = (s, r, open', env')"
    using prod_cases4 by blast
  show ?thesis
  proof (cases rule: Request_cases[OF run, case_names refused attempted])
    case refused
    then show ?thesis
      by (simp add: run)
  next
    case (attempted d ctx fd open1 r1 env1 env2)
    then show ?thesis
      using Attempt_cases(1,2)[OF attempted(2)] by (auto simp: run split: if_splits)
  qed
qed

lemma WriteAll_obliging:
  assumes "\<And>k n. ssl_write lib k n = (int n, [])"
  shows "\<exists>call'. tlsTransport_WriteAll lib call n ctx = (0, call', ctx)"
  using assms
  by (simp add: tlsTransport_WriteAll.simps[of lib call n] tlsTransport_WriteAll.simps[of lib "Suc call" 0])

text \<open>C35: a peer that closes the stream before its status line is reported as a success
  with HTTP status 0 when the library signals the end of the stream by 0: the zero that
  \<open>mbedtls_ssl_read\<close> returns is taken for the success value of
  \<open>tlsTransport_ReadStatus\<close>.\<close>

theorem transport_silent_peer:
  assumes "\<And>k n. ssl_write lib k n = (int n, [])" "ssl_read lib 0 = (0, c, [])"
    and "0 < length host" "length (host_header host port) < 70"
    and "length (request_text method resource (host_header host port) [] ct) < 512"
  shows "tlsTransport_Exchange lib method host port resource [] ct ctx r =
    (0, r\<lparr>res_tlsVersion := Some (ssl_version lib), res_cipherSuite := Some (ssl_ciphersuite lib),
          res_status := TLS_TRANSPORT_OK\<rparr>, ctx)"
proof -
  obtain call where w: "tlsTransport_WriteAll lib 0 (length (request_text method resource (host_header host port) [] ct)) ctx =
      (0, call, ctx)"
    using WriteAll_obliging[OF assms(1)] by blast
  have "tlsTransport_ReadLine lib 0 (Suc 126) [] ctx = (Some 0, [], ctx)"
    unfolding tlsTransport_ReadLine.simps using assms(2) by simp
  then have "tlsTransport_ReadStatus lib ctx (res_httpStatus r) = (0, res_httpStatus r, ctx)"
    by (simp add: tlsTransport_ReadStatus_def)
  moreover have "host_header host port \<noteq> []"
    using assms(3) by (auto simp: host_header_def)
  ultimately show ?thesis
    using assms(4,5) w by (simp add: tlsTransport_Exchange_def Let_def)
qed

theorem transport_silent_peer_witness:
  "fst (snd (tlsTransport_Exchange silent_library ''HEAD'' ''a.example'' 443 ''/'' [] None
      \<lparr>sc_socketDescriptor = 3, sc_lastError = 0\<rparr> zero_result)) =
   zero_result\<lparr>res_tlsVersion := Some ''TLSv1.3'', res_cipherSuite := Some ''AES'', res_status := TLS_TRANSPORT_OK\<rparr>"
  by (subst transport_silent_peer[where c = "CHR ''x''"])
    (simp_all add: silent_library_def host_header_def request_text_def)

subsection \<open>Reading a status line\<close>

lemma ReadLine_text:
  assumes "answers lib call s" "s \<noteq> []" "length s \<le> left" "suffix CRLF (line @ s)"
    and "\<And>p. strict_prefix p s \<Longrightarrow> p \<noteq> [] \<Longrightarrow> \<not> suffix CRLF (line @ p)"
  shows "tlsTransport_ReadLine lib call left line ctx = (None, line @ s, ctx)"
  using assms
proof (induction s arbitrary: call left line)
  case Nil
  then show ?case
    by simp
next
  case (Cons c s)
  obtain left' where left: "left = Suc left'"
    using Cons.prems(3) by (cases left) auto
  have read: "ssl_read lib call = (1, c, [])"
    using Cons.prems(1) by (auto simp: answers_def dest: spec[of _ 0])
  show ?case
  proof (cases "s = []")
    case True
    then show ?thesis
      using Cons.prems(4) read left by simp
  next
    case False
    have "answers lib (Suc call) s"
      using Cons.prems(1) by (auto simp: answers_def dest: spec[of _ "Suc _"])
    moreover have "\<not> suffix CRLF ((line @ [c]) @ p)" if "strict_prefix p s" "p \<noteq> []" for p
      using Cons.prems(5)[of "c # p"] that by simp
    ultimately have "tlsTransport_ReadLine lib (Suc call) left' (line @ [c]) ctx = (None, (line @ [c]) @ s, ctx)"
      using False Cons.prems(3,4) left by (intro Cons.IH) auto
    moreover have "\<not> suffix CRLF (line @ [c])"
      using Cons.prems(5)[of "[c]"] False by (cases s) auto
    ultimately show ?thesis
      unfolding left tlsTransport_ReadLine.simps read by (simp add: Let_def del: suffix_snoc)
  qed
qed

lemma decimal_hd: "decimal n = d # ds \<Longrightarrow> is_digit d"
  using decimal_digits[of d n] by simp

lemma scan_unsigned_decimal:
  assumes "rest = [] \<or> \<not> is_digit (hd rest)" "length (decimal n) \<le> w" "n \<le> 4294967295" "list_all is_space sp"
  shows "scan_unsigned w (sp @ decimal n @ rest) = Some (of_nat n, rest)"
proof -
  obtain d ds where d: "decimal n = d # ds"
    by (cases "decimal n") auto
  note dd = decimal_hd[OF d]
  have sp: "dropWhile is_space (sp @ decimal n @ rest) = decimal n @ rest"
    using assms(4) dd by (induction sp) (simp_all add: d digit_not_space)
  have "takeWhile is_digit (take w (decimal n @ rest)) = decimal n"
    using assms(1,2) decimal_digits[of _ n] by (cases rest) (simp_all add: takeWhile_append take_Cons split: nat.splits)
  moreover have "CHR ''-'' \<noteq> d"
    using digit_not_space(2)[OF dd] by blast
  ultimately show ?thesis
    using assms(3) dd unfolding scan_unsigned_def sp
    by (simp add: Let_def d digit_not_space decimal_value[of n, unfolded d])
qed

lemma length_decimal_3:
  assumes "100 \<le> n" "n \<le> 999"
  shows "length (decimal n) = 3"
proof -
  have "n div 10 div 10 < 10" "\<not> n div 10 < 10" "\<not> n < 10"
    using assms by auto
  then show ?thesis
    by (simp add: decimal.simps[of n] decimal.simps[of "n div 10"] decimal.simps[of "n div 10 div 10"])
qed

lemma scan_status_line:
  assumes "100 \<le> n" "n \<le> 999" "rest = [] \<or> \<not> is_digit (hd rest)" "v \<le> 4294967295"
  shows "scan_status (''HTTP/1.'' @ decimal v @ '' '' @ decimal n @ rest) = Some (of_nat n)"
proof -
  let ?line = "''HTTP/1.'' @ decimal v @ '' '' @ decimal n @ rest"
  have "scan_unsigned (length ?line) (decimal v @ '' '' @ decimal n @ rest) = Some (of_nat v, '' '' @ decimal n @ rest)"
    using scan_unsigned_decimal[of "'' '' @ decimal n @ rest" v "length ?line" "[]"] assms(4) by (simp add: is_digit_def)
  moreover have "scan_unsigned 3 ('' '' @ decimal n @ rest) = Some (of_nat n, rest)"
    using scan_unsigned_decimal[of rest n 3 "'' ''"] assms by (simp add: length_decimal_3 is_space_def)
  ultimately show ?thesis
    by (simp add: scan_status_def)
qed

lemma ReadStatus_line:
  assumes "100 \<le> n" "n \<le> 999" "v \<le> 4294967295" "reason = [] \<or> \<not> is_digit (hd reason)"
    and "CHR 0x0D \<notin> set reason" "CHR 0x0A \<notin> set reason" "CHR 0x00 \<notin> set reason"
    and "line = ''HTTP/1.'' @ decimal v @ '' '' @ decimal n @ reason @ CRLF" "length line \<le> 127"
    and "answers lib 0 line"
  shows "tlsTransport_ReadStatus lib ctx h = (0, of_nat n, ctx)"
proof -
  let ?body = "''HTTP/1.'' @ decimal v @ '' '' @ decimal n @ reason"
  have line: "line = ?body @ [CHR 0x0D, CHR 0x0A]"
    using assms(8) by (simp add: CRLF_def)
  have clean: "CHR 0x0A \<notin> set ?body" "CHR 0x00 \<notin> set ?body"
    using decimal_digits[of "CHR 0x0A"] decimal_digits[of "CHR 0x00"] assms(6,7) by (auto simp: is_digit_def)
  have early: "\<not> suffix CRLF ([] @ p)" if early: "strict_prefix p line" "p \<noteq> []" for p
  proof
    assume "suffix CRLF ([] @ p)"
    then obtain q where "p = q @ [CHR 0x0D, CHR 0x0A]"
      by (auto simp: suffix_def CRLF_def)
    moreover obtain x r where "line = p @ x # r"
      using early(1) strict_prefixE' by blast
    ultimately have "?body @ [CHR 0x0D, CHR 0x0A] = (q @ [CHR 0x0D, CHR 0x0A]) @ x # r"
      using line by simp
    then have "butlast (?body @ [CHR 0x0D, CHR 0x0A]) = butlast ((q @ [CHR 0x0D, CHR 0x0A]) @ x # r)"
      by (rule arg_cong)
    then have "?body @ [CHR 0x0D] = (q @ [CHR 0x0D, CHR 0x0A]) @ butlast (x # r)"
      by (simp add: butlast_append del: butlast.simps) (simp add: butlast_append)
    then have "CHR 0x0A \<in> set (?body @ [CHR 0x0D])"
      by simp
    then show False
      using clean(1) by auto
  qed
  have "suffix CRLF ([] @ line)"
    by (simp add: line CRLF_def suffix_def)
  then have rl: "tlsTransport_ReadLine lib 0 127 [] ctx = (None, line, ctx)"
    using ReadLine_text[OF assms(10) _ assms(9) _ early] by (simp add: line)
  have "c_str line = line"
    using clean(2) by (intro c_str_NUL_free) (simp add: line)
  moreover have "scan_status line = Some (of_nat n)"
    using scan_status_line[OF assms(1,2) _ assms(3), of "reason @ CRLF"] assms(4,8)
    by (cases reason) (simp_all add: CRLF_def is_digit_def)
  moreover have "12 \<le> length line"
    using length_decimal_3[OF assms(1,2)] by (cases "decimal v") (simp_all add: line)
  moreover have "\<not> (999 :: u32) < of_nat n" "ucast (of_nat n :: u32) = (of_nat n :: u16)"
    using assms(2) by (simp_all add: word_less_nat_alt unat_of_nat unsigned_of_nat take_bit_nat_eq_self)
  ultimately show ?thesis
    by (simp add: tlsTransport_ReadStatus_def rl)
qed

text \<open>C17: every well-formed status line that fits the line buffer is understood: when the peer
  sends \<open>HTTP/1.v nnn reason CRLF\<close> (in any number of further bytes), the code \<open>nnn\<close> is the
  reported HTTP status.\<close>

theorem transport_reads_status:
  assumes "100 \<le> n" "n \<le> 999" "v \<le> 4294967295" "reason = [] \<or> \<not> is_digit (hd reason)"
    and "CHR 0x0D \<notin> set reason" "CHR 0x0A \<notin> set reason" "CHR 0x00 \<notin> set reason"
    and "line = ''HTTP/1.'' @ decimal v @ '' '' @ decimal n @ reason @ CRLF" "length line \<le> 127"
    and "answers lib 0 line"
  shows "tlsTransport_ReadStatus lib ctx h = (0, of_nat n, ctx)"
  by (rule ReadStatus_line[OF assms])

lemma answering_lines:
  "answers answering_library 0 status_line"
  "status_line = ''HTTP/1.'' @ decimal 1 @ '' '' @ decimal 200 @ '' OK'' @ CRLF"
  "ssl_write answering_library = (\<lambda>_ n. (int n, []))"
proof -
  have "decimal 1 = ''1''" "decimal 200 = ''200''"
    by code_simp+
  then show "status_line = ''HTTP/1.'' @ decimal 1 @ '' '' @ decimal 200 @ '' OK'' @ CRLF"
    by (simp add: status_line_def)
qed (simp_all add: answers_def answering_library_def silent_library_def)

theorem transport_reads_status_witness:
  "tlsTransport_ReadStatus answering_library \<lparr>sc_socketDescriptor = 3, sc_lastError = 0\<rparr> 0 =
    (0, 200, \<lparr>sc_socketDescriptor = 3, sc_lastError = 0\<rparr>)"
  using transport_reads_status[OF _ _ _ _ _ _ _ answering_lines(2) _ answering_lines(1),
    of "\<lparr>sc_socketDescriptor = 3, sc_lastError = 0\<rparr>" 0]
  by (simp add: status_line_def is_digit_def)

lemma answering_request:
  "fst (TlsTransport_Request answering_library sample_ca (Some ''HEAD'') (Some ''a.example'') 443 (Some ''/'') 1 (Some []) None
     sample_trust \<lparr>cryptoMutex = True\<rparr> [] blank_env) = TLS_TRANSPORT_OK"
proof -
  let ?lib = answering_library and ?ctx = "\<lparr>sc_socketDescriptor = 3, sc_lastError = 0\<rparr>"
  have w: "\<exists>call. tlsTransport_WriteAll ?lib 0 n ?ctx = (0, call, ?ctx)" for n
    by (rule WriteAll_obliging) (simp add: answering_lines)
  obtain call where w: "tlsTransport_WriteAll ?lib 0
      (length (request_text ''HEAD'' ''/'' (host_header ''a.example'' 443) [] None)) ?ctx = (0, call, ?ctx)"
    using w by blast
  have s: "tlsTransport_ReadStatus ?lib ?ctx 0 = (0, 200, ?ctx)"
    using ReadStatus_line[OF _ _ _ _ _ _ _ answering_lines(2) _ answering_lines(1), of ?ctx 0]
    by (simp add: status_line_def is_digit_def)
  have x: "res_status (fst (snd (tlsTransport_Exchange ?lib ''HEAD'' ''a.example'' 443 ''/'' [] None ?ctx r))) = TLS_TRANSPORT_OK"
    if "res_httpStatus r = 0" for r
    using w s that by (simp add: tlsTransport_Exchange_def Let_def host_header_def request_text_def)
  have c: "tlsTransport_Connect ?lib ''a.example'' 443 0 [] = (3, TLS_TRANSPORT_CONNECT_ERROR, - 23, [3])"
    by (simp add: tlsTransport_Connect_def answering_library_def silent_library_def)
  have "res_status (fst (snd (tlsTransport_Session ?lib (client_context der ''a.example'') ''HEAD'' ''a.example'' 443 ''/'' [] None
      \<lparr>sc_socketDescriptor = - 1, sc_lastError = 0\<rparr> zero_result []))) = TLS_TRANSPORT_OK" for der
    unfolding tlsTransport_Session_def c
    using x[of "zero_result\<lparr>res_status := TLS_TRANSPORT_CONNECT_ERROR\<rparr>"]
    by (simp add: answering_library_def silent_library_def zero_result_def client_context_def case_prod_unfold Let_def)
  moreover have "fst (TlsTrustStore_Parse sample_ca 1 sample_trust e) = TLS_TRUST_STORE_STATUS_OK" if "healthy e" for e
    using xSemaphoreTake_healthy[OF that]
    by (auto simp: TlsTrustStore_Parse_def anchor_id_ok_def anchor_at_def sample_trust_def sample_anchor_def sample_ca_def)
  ultimately have "res_status (fst (snd (tlsTransport_Attempt ?lib sample_ca ''HEAD'' ''a.example'' 443 ''/'' 1 [] None
      sample_trust [] e))) = TLS_TRANSPORT_OK" if "healthy e" for e
    using that by (simp add: tlsTransport_Attempt_def case_prod_unfold Let_def answering_library_def silent_library_def)
  moreover obtain e where "TlsPlatform_Lock \<lparr>cryptoMutex = True\<rparr> blank_env = (HEALTH_CHECK_STATUS_OK, e)" "healthy e"
    using xSemaphoreTake_healthy[of blank_env] by (auto simp: TlsPlatform_Lock_def)
  ultimately show ?thesis
    by (simp add: TlsTransport_Request_def deref_def case_prod_unfold Let_def)
qed

theorem transport_ok_authenticated_witness:
  "(\<exists>ssl. ssl_authmode ssl = MBEDTLS_SSL_VERIFY_REQUIRED \<and> verify_result answering_library ssl = 0) \<and> a_occupied (anchor_at 1 sample_trust) \<noteq> 0"
proof -
  obtain s r open' env' where run: "TlsTransport_Request answering_library sample_ca (Some ''HEAD'') (Some ''a.example'') 443
      (Some ''/'') 1 (Some []) None sample_trust \<lparr>cryptoMutex = True\<rparr> [] blank_env = (s, r, open', env')"
    using prod_cases4 by blast
  then have "s = TLS_TRANSPORT_OK"
    using answering_request by simp
  from transport_ok_authenticated[OF run[unfolded this]] show ?thesis
    by blast
qed

end
