(* ===== verification/Health_Check_Log.thy ===== *)
theory Health_Check_Log
  imports Crc32 Object_Rep Ab_Store Flash_Layout Tls_Transport
begin

text \<open>
  \<open>Srv/Src/health_check_log.c\<close>: the persistent log of check results.  Two sectors of 102
  slots form a ring: records are appended to the active sector, and when it is full the
  other one is erased and becomes active.  A slot is used when its sequence number is not
  erased, and its record is intact when magic number and checksum match.  Slot numbers
  never exceed 102 and are natural numbers here; sequence numbers and the record's fields
  have their width, signed ones as two's complement words.
\<close>

subsection \<open>Types\<close>

record healthCheckLog_RecordTypeDef =
  lr_magic :: u32
  lr_sequence :: u32
  lr_timestampUnix :: u32
  lr_elapsedMs :: u32
  lr_detail :: u32
  lr_certificateExpiresAt :: u32
  lr_certificateDaysLeft :: u32
  lr_httpStatus :: u16
  lr_resourceIndex :: u8
  lr_status :: u8
  lr_certificateAnchorId :: u8
  lr_certificateExpiring :: u8
  lr_reserved :: "u8 list"
  lr_crc :: u32

record HealthCheckLog_EntryTypeDef =
  le_sequence :: u32
  le_timestampUnix :: u32
  le_elapsedMs :: u32
  le_detail :: u32
  le_certificateExpiresAt :: u32
  le_certificateDaysLeft :: u32
  le_httpStatus :: u16
  le_resourceIndex :: u8
  le_status :: u8
  le_certificateAnchorId :: u8
  le_certificateExpiring :: u8

record HealthCheckLog_State =
  activeSector :: u8
  nextSlot :: nat
  nextSequence :: u32
  logMutex :: bool

definition put_log :: "healthCheckLog_RecordTypeDef \<Rightarrow> u8 list" where
  "put_log r = put_u32 (lr_magic r) @ put_u32 (lr_sequence r) @ put_u32 (lr_timestampUnix r) @
     put_u32 (lr_elapsedMs r) @ put_u32 (lr_detail r) @ put_u32 (lr_certificateExpiresAt r) @
     put_u32 (lr_certificateDaysLeft r) @ put_u16 (lr_httpStatus r) @ put_u8 (lr_resourceIndex r) @ put_u8 (lr_status r) @
     put_u8 (lr_certificateAnchorId r) @ put_u8 (lr_certificateExpiring r) @ lr_reserved r @ put_u32 (lr_crc r)"

definition get_log :: "u8 list \<Rightarrow> healthCheckLog_RecordTypeDef" where
  "get_log bs =
     (let (magic, bs) = get_u32 bs; (sequence, bs) = get_u32 bs; (timestampUnix, bs) = get_u32 bs;
          (elapsedMs, bs) = get_u32 bs; (detail, bs) = get_u32 bs; (expiresAt, bs) = get_u32 bs;
          (daysLeft, bs) = get_u32 bs; (httpStatus, bs) = get_u16 bs; (resourceIndex, bs) = get_u8 bs;
          (status, bs) = get_u8 bs; (anchor, bs) = get_u8 bs; (expiring, bs) = get_u8 bs;
          (reserved, bs) = get_bytes 2 bs; (crc, bs) = get_u32 bs
      in \<lparr>lr_magic = magic, lr_sequence = sequence, lr_timestampUnix = timestampUnix, lr_elapsedMs = elapsedMs,
          lr_detail = detail, lr_certificateExpiresAt = expiresAt, lr_certificateDaysLeft = daysLeft,
          lr_httpStatus = httpStatus, lr_resourceIndex = resourceIndex, lr_status = status,
          lr_certificateAnchorId = anchor, lr_certificateExpiring = expiring, lr_reserved = reserved, lr_crc = crc\<rparr>)"

subsection \<open>Scanning a sector\<close>

definition healthCheckLog_SectorBase :: "u8 \<Rightarrow> u32" where
  "healthCheckLog_SectorBase sector =
     (if sector = 0 then FLASH_LAYOUT_HEALTH_CHECK_LOG_SECTOR_0 else FLASH_LAYOUT_HEALTH_CHECK_LOG_SECTOR_1)"

definition healthCheckLog_Crc :: "u8 list \<Rightarrow> u32" where
  "healthCheckLog_Crc bytes = crc32 bytes"

definition record_used :: "healthCheckLog_RecordTypeDef \<Rightarrow> bool" where
  "record_used r \<longleftrightarrow> lr_sequence r \<noteq> 0xFFFFFFFF"

definition record_intact :: "healthCheckLog_RecordTypeDef \<Rightarrow> bool" where
  "record_intact r \<longleftrightarrow> \<not> (lr_magic r \<noteq> 0x48434C32 \<or> lr_crc r \<noteq> healthCheckLog_Crc (take 36 (put_log r)))"

definition slot_address :: "u8 \<Rightarrow> nat \<Rightarrow> u32" where
  "slot_address sector slot = healthCheckLog_SectorBase sector + of_nat slot * 40"

text \<open>The loop: slots left, current slot, and the three counters.\<close>

fun healthCheckLog_ScanLoop ::
  "u8 \<Rightarrow> nat \<Rightarrow> nat \<Rightarrow> nat \<Rightarrow> nat \<Rightarrow> u32 \<Rightarrow> env \<Rightarrow> (nat \<times> nat \<times> u32) \<times> env" where
  "healthCheckLog_ScanLoop sector 0 slot valid next sequence env = ((valid, next, sequence), env)"
| "healthCheckLog_ScanLoop sector (Suc left) slot valid next sequence env =
     (let (s, d, env1) = W25Q64_Read (slot_address sector slot) 40 env; record = get_log d in
      if s \<noteq> W25Q64_STATUS_OK then healthCheckLog_ScanLoop sector left (Suc slot) valid (slot + 1) sequence env1
      else if \<not> record_used record then ((valid, slot, sequence), env1)
      else if \<not> record_intact record then healthCheckLog_ScanLoop sector left (Suc slot) valid (slot + 1) sequence env1
      else healthCheckLog_ScanLoop sector left (Suc slot) (valid + 1) (slot + 1) (lr_sequence record) env1)"

definition healthCheckLog_ScanSector :: "u8 \<Rightarrow> env \<Rightarrow> (nat \<times> nat \<times> u32) \<times> env" where
  "healthCheckLog_ScanSector sector env = healthCheckLog_ScanLoop sector 102 0 0 102 0 env"

definition healthCheckLog_RollToSector :: "u8 \<Rightarrow> HealthCheckLog_State \<Rightarrow> env \<Rightarrow> bool \<times> HealthCheckLog_State \<times> env" where
  "healthCheckLog_RollToSector sector st env =
     (let (s, env1) = W25Q64_EraseSector (healthCheckLog_SectorBase sector) env in
      if s \<noteq> W25Q64_STATUS_OK then (False, st, env1)
      else (True, st\<lparr>activeSector := sector, nextSlot := 0\<rparr>, env1))"

subsection \<open>Operations\<close>

definition HealthCheckLog_Init ::
  "HealthCheckLog_State \<Rightarrow> env \<Rightarrow> HealthCheck_StatusTypeDef \<times> HealthCheckLog_State \<times> env" where
  "HealthCheckLog_Init st env =
     (let (created, env0) = xSemaphoreCreateMutexStatic env; st0 = st\<lparr>logMutex := created\<rparr> in
      if \<not> created then (HEALTH_CHECK_STATUS_ERROR, st0, env0)
      else
        let ((count0, available0, last0), env1) = healthCheckLog_ScanSector 0 env0;
            ((count1, available1, last1), env2) = healthCheckLog_ScanSector 1 env1 in
        if count0 = 0 \<and> count1 = 0 then
          let (rolled, st1, env3) = healthCheckLog_RollToSector 0 (st0\<lparr>nextSequence := 1\<rparr>) env2
          in (if rolled then HEALTH_CHECK_STATUS_OK else HEALTH_CHECK_STATUS_ERROR, st1, env3)
        else
          let active = (if last0 \<ge> last1 then 0 else 1);
              available = (if last0 \<ge> last1 then available0 else available1);
              lastSequence = (if last0 \<ge> last1 then last0 else last1) in
          if available < 102 then
            (HEALTH_CHECK_STATUS_OK,
             st0\<lparr>activeSector := active, nextSlot := available, nextSequence := lastSequence + 1\<rparr>, env2)
          else
            let (rolled, st1, env3) =
                  healthCheckLog_RollToSector (active XOR 1) (st0\<lparr>nextSequence := lastSequence + 1\<rparr>) env2
            in (if rolled then HEALTH_CHECK_STATUS_OK else HEALTH_CHECK_STATUS_ERROR, st1, env3))"

text \<open>Days left and the warning flag for an expiry time, as \<open>HealthCheckLog_Append\<close>
  computes them.\<close>

definition certificate_fields :: "u32 \<Rightarrow> u32 \<Rightarrow> u32 \<times> u8" where
  "certificate_fields expiresAt now =
     (if expiresAt = 0 then (0, 0)
      else if expiresAt \<le> now then
        let overdue = now - expiresAt in (- ucast ((ucast overdue + 86399 :: u64) div 86400), 0)
      else
        let remaining = expiresAt - now in (remaining div 86400, if remaining < 864000 then 1 else 0))"

definition log_record :: "u32 \<Rightarrow> u8 \<Rightarrow> u8 \<Rightarrow> u32 \<Rightarrow> TlsTransport_ResultTypeDef \<Rightarrow> healthCheckLog_RecordTypeDef" where
  "log_record sequence resourceIndex trustAnchorId timestampUnix result =
     (let (daysLeft, expiring) = certificate_fields (res_certificateExpiresAt result) timestampUnix;
          record = \<lparr>lr_magic = 0x48434C32, lr_sequence = sequence, lr_timestampUnix = timestampUnix,
            lr_elapsedMs = res_elapsedMs result, lr_detail = of_int (res_detail result),
            lr_certificateExpiresAt = res_certificateExpiresAt result, lr_certificateDaysLeft = daysLeft,
            lr_httpStatus = res_httpStatus result, lr_resourceIndex = resourceIndex,
            lr_status = transport_code (res_status result), lr_certificateAnchorId = trustAnchorId,
            lr_certificateExpiring = expiring, lr_reserved = [0, 0], lr_crc = 0\<rparr>
      in record\<lparr>lr_crc := healthCheckLog_Crc (take 36 (put_log record))\<rparr>)"

definition log_entry :: "healthCheckLog_RecordTypeDef \<Rightarrow> HealthCheckLog_EntryTypeDef" where
  "log_entry r =
     \<lparr>le_sequence = lr_sequence r, le_timestampUnix = lr_timestampUnix r, le_elapsedMs = lr_elapsedMs r,
      le_detail = lr_detail r, le_certificateExpiresAt = lr_certificateExpiresAt r,
      le_certificateDaysLeft = lr_certificateDaysLeft r, le_httpStatus = lr_httpStatus r,
      le_resourceIndex = lr_resourceIndex r, le_status = lr_status r,
      le_certificateAnchorId = lr_certificateAnchorId r, le_certificateExpiring = lr_certificateExpiring r\<rparr>"

text \<open>The second half of \<open>HealthCheckLog_Append\<close>: program, read back, compare.\<close>

definition healthCheckLog_WriteRecord ::
  "healthCheckLog_RecordTypeDef \<Rightarrow> HealthCheckLog_State \<Rightarrow> env \<Rightarrow>
   HealthCheck_StatusTypeDef \<times> HealthCheckLog_EntryTypeDef option \<times> HealthCheckLog_State \<times> env" where
  "healthCheckLog_WriteRecord record st env =
     (let address = slot_address (activeSector st) (nextSlot st);
          (s1, env1) = W25Q64_Program address (Some (put_log record)) env;
          (flashStatus, entry, env2) =
            (if s1 = W25Q64_STATUS_OK then
               let (s2, d, env2) = W25Q64_Read address 40 env1 in
               if s2 \<noteq> W25Q64_STATUS_OK \<or> d \<noteq> put_log record then (W25Q64_STATUS_IO_ERROR, None, env2)
               else (s1, Some (log_entry (get_log d)), env2)
             else (s1, None, env1));
          st1 = st\<lparr>nextSlot := nextSlot st + 1, nextSequence := nextSequence st + 1\<rparr>
      in (if flashStatus = W25Q64_STATUS_OK then HEALTH_CHECK_STATUS_OK else HEALTH_CHECK_STATUS_ERROR, entry, st1, env2))"

definition HealthCheckLog_Append ::
  "u8 \<Rightarrow> u8 \<Rightarrow> u32 \<Rightarrow> TlsTransport_ResultTypeDef option \<Rightarrow> HealthCheckLog_State \<Rightarrow> env \<Rightarrow>
   HealthCheck_StatusTypeDef \<times> HealthCheckLog_EntryTypeDef option \<times> HealthCheckLog_State \<times> env" where
  "HealthCheckLog_Append resourceIndex trustAnchorId timestampUnix result st env =
     (if result = None then (HEALTH_CHECK_STATUS_ERROR, None, st, env)
      else
        let (taken, env1) = xSemaphoreTake env in
        if \<not> taken then (HEALTH_CHECK_STATUS_ERROR, None, st, env1)
        else
          let (ready, st1, env2) =
                (if nextSlot st \<ge> 102 then healthCheckLog_RollToSector (activeSector st XOR 1) st env1 else (True, st, env1)) in
          if \<not> ready then (HEALTH_CHECK_STATUS_ERROR, None, st1, env2)
          else healthCheckLog_WriteRecord
                 (log_record (nextSequence st1) resourceIndex trustAnchorId timestampUnix (the result)) st1 env2)"

text \<open>The inner loop of \<open>HealthCheckLog_GetRecent\<close>: slots left, room left.\<close>

fun healthCheckLog_ReadBack :: "u8 \<Rightarrow> nat \<Rightarrow> nat \<Rightarrow> env \<Rightarrow> HealthCheckLog_EntryTypeDef list \<times> env" where
  "healthCheckLog_ReadBack sector 0 room env = ([], env)"
| "healthCheckLog_ReadBack sector (Suc remaining) room env =
     (if room = 0 then ([], env)
      else
        let (s, d, env1) = W25Q64_Read (slot_address sector remaining) 40 env; record = get_log d in
        if s \<noteq> W25Q64_STATUS_OK then ([], env1)
        else if \<not> record_used record \<or> \<not> record_intact record then healthCheckLog_ReadBack sector remaining room env1
        else let (entries, env2) = healthCheckLog_ReadBack sector remaining (room - 1) env1
             in (log_entry record # entries, env2))"

definition HealthCheckLog_GetRecent :: "nat \<Rightarrow> HealthCheckLog_State \<Rightarrow> env \<Rightarrow> HealthCheckLog_EntryTypeDef list \<times> env" where
  "HealthCheckLog_GetRecent capacity st env =
     (if capacity = 0 then ([], env)
      else
        let (taken, env1) = xSemaphoreTake env in
        if \<not> taken then ([], env1)
        else
          let older = activeSector st XOR 1;
              ((_, available, _), env2) = healthCheckLog_ScanSector older env1;
              (first, env3) = healthCheckLog_ReadBack (activeSector st) (nextSlot st) capacity env2;
              (second, env4) = healthCheckLog_ReadBack older available (capacity - length first) env3
          in (first @ second, env4))"

subsection \<open>What the sectors hold\<close>

definition slot_record :: "(nat \<Rightarrow> u8) \<Rightarrow> u8 \<Rightarrow> nat \<Rightarrow> healthCheckLog_RecordTypeDef" where
  "slot_record c sector slot = get_log (cells_at c (unat (healthCheckLog_SectorBase sector) + slot * 40) 40)"

definition used_slots :: "(nat \<Rightarrow> u8) \<Rightarrow> u8 \<Rightarrow> healthCheckLog_RecordTypeDef list" where
  "used_slots c sector = takeWhile record_used (map (slot_record c sector) [0..<102])"

definition sector_log :: "(nat \<Rightarrow> u8) \<Rightarrow> u8 \<Rightarrow> healthCheckLog_RecordTypeDef list" where
  "sector_log c sector = filter record_intact (used_slots c sector)"

text \<open>The log, oldest record first.\<close>

definition log_view :: "HealthCheckLog_State \<Rightarrow> (nat \<Rightarrow> u8) \<Rightarrow> healthCheckLog_RecordTypeDef list" where
  "log_view st c = sector_log c (activeSector st XOR 1) @ sector_log c (activeSector st)"

definition last_sequence :: "healthCheckLog_RecordTypeDef list \<Rightarrow> u32" where
  "last_sequence rs = (if rs = [] then 0 else lr_sequence (last rs))"

text \<open>The ring: the slots below \<open>nextSlot\<close> are used and those above erased, the older
  sector shows nothing or is full, and sequence numbers increase along the log up to the
  next one.\<close>

definition log_inv :: "HealthCheckLog_State \<Rightarrow> (nat \<Rightarrow> u8) \<Rightarrow> bool" where
  "log_inv st c \<longleftrightarrow> activeSector st \<in> {0, 1} \<and> nextSlot st \<le> 102 \<and> logMutex st \<and>
     (\<forall>i<nextSlot st. record_used (slot_record c (activeSector st) i)) \<and>
     (\<forall>i<4096. nextSlot st * 40 \<le> i \<longrightarrow> c (unat (healthCheckLog_SectorBase (activeSector st)) + i) = 0xFF) \<and>
     (sector_log c (activeSector st XOR 1) = [] \<or> length (used_slots c (activeSector st XOR 1)) = 102) \<and>
     sorted_wrt (<) (0 # map lr_sequence (log_view st c) @ [nextSequence st])"

text \<open>An append that reaches the flash: the state it writes from is the old one, or the
  one after a roll.\<close>

definition append_base :: "HealthCheckLog_State \<Rightarrow> HealthCheckLog_State" where
  "append_base st = (if nextSlot st \<ge> 102 then st\<lparr>activeSector := activeSector st XOR 1, nextSlot := 0\<rparr> else st)"

text \<open>A failed append that disturbed its slot enough for the next scan to see it as used.\<close>

definition torn_append :: "HealthCheckLog_State \<Rightarrow> healthCheckLog_RecordTypeDef \<Rightarrow> (nat \<Rightarrow> u8) \<Rightarrow> bool" where
  "torn_append st record c \<longleftrightarrow> (let r = slot_record c (activeSector st) (nextSlot st)
     in record_used r \<and> (record_intact r \<longrightarrow> r = record))"

inductive log_reach :: "HealthCheckLog_State \<Rightarrow> (nat \<Rightarrow> u8) \<Rightarrow> bool" where
  boot: "healthy env \<Longrightarrow> sector_blank (cells env) FLASH_LAYOUT_HEALTH_CHECK_LOG_SECTOR_0 \<Longrightarrow>
     sector_blank (cells env) FLASH_LAYOUT_HEALTH_CHECK_LOG_SECTOR_1 \<Longrightarrow>
     HealthCheckLog_Init st0 env = (HEALTH_CHECK_STATUS_OK, st, env') \<Longrightarrow> log_reach st (cells env')"
| append: "log_reach st (cells env) \<Longrightarrow> nextSequence st \<noteq> 0xFFFFFFFF \<Longrightarrow>
     HealthCheckLog_Append resourceIndex anchor now (Some result) st env = (HEALTH_CHECK_STATUS_OK, entry, st', env') \<Longrightarrow>
     log_reach st' (cells env')"
| torn: "log_reach st (cells env) \<Longrightarrow> nextSequence st \<noteq> 0xFFFFFFFF \<Longrightarrow>
     HealthCheckLog_Append resourceIndex anchor now (Some result) st env = (HEALTH_CHECK_STATUS_ERROR, entry, st', env') \<Longrightarrow>
     st' \<noteq> st \<Longrightarrow> torn_append (append_base st) (log_record (nextSequence st) resourceIndex anchor now result) (cells env') \<Longrightarrow>
     log_reach st' (cells env')"
| restart: "log_reach st (cells env) \<Longrightarrow> healthy env \<Longrightarrow>
     HealthCheckLog_Init st0 env = (status, st', env') \<Longrightarrow> log_reach st' (cells env')"


text \<open>Every state of the running log, whatever the flash chip does: the static one, the states
  that \<open>HealthCheckLog_Init\<close> leaves and those any append leaves, successful or not.\<close>

definition zero_log :: HealthCheckLog_State where
  "zero_log = \<lparr>activeSector = 0, nextSlot = 0, nextSequence = 0, logMutex = False\<rparr>"

inductive log_life :: "HealthCheckLog_State \<Rightarrow> bool" where
  static: "log_life zero_log"
| boot: "log_life st \<Longrightarrow> HealthCheckLog_Init st env = (status, st', env') \<Longrightarrow> log_life st'"
| append: "log_life st \<Longrightarrow> logMutex st \<Longrightarrow>
     HealthCheckLog_Append resourceIndex anchor now result st env = (status, entry, st', env') \<Longrightarrow> log_life st'"

text \<open>The records the running log can show, oldest first: of the active sector the readable
  slots below \<open>nextSlot\<close>, of the other one those a scan finds.\<close>

definition log_shown :: "HealthCheckLog_State \<Rightarrow> (nat \<Rightarrow> u8) \<Rightarrow> healthCheckLog_RecordTypeDef list" where
  "log_shown st c = sector_log c (activeSector st XOR 1) @
     filter (\<lambda>r. record_used r \<and> record_intact r) (map (slot_record c (activeSector st)) [0..<nextSlot st])"

definition slot_erased :: "HealthCheckLog_State \<Rightarrow> (nat \<Rightarrow> u8) \<Rightarrow> bool" where
  "slot_erased st c \<longleftrightarrow> nextSlot st < 102 \<longrightarrow>
     (\<forall>i<40. c (unat (healthCheckLog_SectorBase (activeSector st)) + nextSlot st * 40 + i) = 0xFF)"

subsection \<open>Records in slots\<close>

lemma length_put_log [simp]: "length (put_log r) = 38 + length (lr_reserved r)"
  by (simp add: put_log_def)

lemma get_put_log: "length (lr_reserved r) = 2 \<Longrightarrow> get_log (put_log r) = r"
  using get_put_u32[of "lr_crc r" "[]"] by (simp add: put_log_def get_log_def codec Let_def)

lemma put_get_log: "length bs = 40 \<Longrightarrow> put_log (get_log bs) = bs"
  by (simp add: put_log_def get_log_def case_prod_unfold Let_def recode)

lemma reserved_get_log [simp]: "length bs = 40 \<Longrightarrow> length (lr_reserved (get_log bs)) = 2"
  by (simp add: get_log_def case_prod_unfold Let_def recode)

lemma take_put_log: "length (lr_reserved r) = 2 \<Longrightarrow> take 36 (put_log (r\<lparr>lr_crc := x\<rparr>)) = take 36 (put_log r)"
  by (simp add: put_log_def)

lemma log_record_fields [simp]:
  "lr_sequence (log_record n ri ta now result) = n" "lr_magic (log_record n ri ta now result) = 0x48434C32"
  "lr_reserved (log_record n ri ta now result) = [0, 0]"
  by (simp_all add: log_record_def Let_def case_prod_unfold)

lemma log_record_intact [simp]: "record_intact (log_record n ri ta now result)"
proof -
  have "\<exists>r. log_record n ri ta now result = r\<lparr>lr_crc := healthCheckLog_Crc (take 36 (put_log r))\<rparr> \<and>
      lr_magic r = 0x48434C32 \<and> lr_reserved r = [0, 0]"
    unfolding log_record_def Let_def case_prod_unfold by (intro exI conjI, rule refl) simp_all
  then obtain r where r: "log_record n ri ta now result = r\<lparr>lr_crc := healthCheckLog_Crc (take 36 (put_log r))\<rparr>"
    "lr_magic r = 0x48434C32" "lr_reserved r = [0, 0]"
    by blast
  then show ?thesis
    unfolding r(1) by (simp add: record_intact_def take_put_log)
qed

lemma log_sector:
  "unat (healthCheckLog_SectorBase s) mod 4096 = 0" "unat (healthCheckLog_SectorBase s) + 4096 \<le> 8388608"
  by (simp_all add: healthCheckLog_SectorBase_def FLASH_LAYOUT_HEALTH_CHECK_LOG_SECTOR_0_def
      FLASH_LAYOUT_HEALTH_CHECK_LOG_SECTOR_1_def layout)

lemma log_sectors_apart:
  "s \<in> {0, 1} \<Longrightarrow> unat (healthCheckLog_SectorBase s) + 4096 \<le> unat (healthCheckLog_SectorBase (s XOR 1)) \<or>
     unat (healthCheckLog_SectorBase (s XOR 1)) + 4096 \<le> unat (healthCheckLog_SectorBase s)"
  by (auto simp: healthCheckLog_SectorBase_def FLASH_LAYOUT_HEALTH_CHECK_LOG_SECTOR_0_def
      FLASH_LAYOUT_HEALTH_CHECK_LOG_SECTOR_1_def layout)

lemma unat_slot_address:
  "slot < 102 \<Longrightarrow> unat (slot_address s slot) = unat (healthCheckLog_SectorBase s) + slot * 40"
  using log_sector(2)[of s] by (simp add: slot_address_def unat_word_ariths unat_of_nat take_bit_nat_eq_self)

lemma slot_read:
  assumes "W25Q64_Read (slot_address s slot) 40 env = (status, d, env')" "slot < 102"
  shows "cells env' = cells env" "touches 0 0 env env'"
    "status = W25Q64_STATUS_OK \<Longrightarrow> get_log d = slot_record (cells env) s slot \<and> length d = 40"
    "healthy env \<Longrightarrow> status = W25Q64_STATUS_OK \<and> healthy env'"
proof -
  show "cells env' = cells env" "touches 0 0 env env'"
    using Read_spec(1,2)[OF assms(1)] by simp_all
  show "status = W25Q64_STATUS_OK \<Longrightarrow> get_log d = slot_record (cells env) s slot \<and> length d = 40"
    using Read_spec(3)[OF assms(1)] unat_slot_address[OF assms(2), of s] by (simp add: slot_record_def)
  show "healthy env \<Longrightarrow> status = W25Q64_STATUS_OK \<and> healthy env'"
    using flash.rd_good[OF _ assms(1)] unat_slot_address[OF assms(2), of s] log_sector(2)[of s] assms(2) by simp
qed

subsection \<open>Scanning\<close>

lemma ScanLoop_frame:
  "slot + left = 102 \<Longrightarrow> healthCheckLog_ScanLoop s left slot valid next sequence env = (r, env') \<Longrightarrow>
     cells env' = cells env \<and> touches 0 0 env env'"
proof (induction left arbitrary: slot valid "next" sequence env)
  case (Suc left)
  obtain status d env1 where r: "W25Q64_Read (slot_address s slot) 40 env = (status, d, env1)"
    using prod_cases3 by blast
  have "cells env1 = cells env" "touches 0 0 env env1"
    using slot_read(1,2)[OF r] Suc.prems(1) by simp_all
  with Suc.IH[of "Suc slot"] Suc.prems r show ?case
    by (auto simp: Let_def touches_trans split: if_splits)
qed auto

lemma ScanLoop_healthy:
  "healthy env \<Longrightarrow> slot + left = 102 \<Longrightarrow> (left = 0 \<longrightarrow> next = slot) \<Longrightarrow>
     used = takeWhile record_used (map (slot_record (cells env) s) [slot..<102]) \<Longrightarrow>
     \<exists>env'. healthCheckLog_ScanLoop s left slot valid next sequence env =
       ((valid + length (filter record_intact used), slot + length used,
         if filter record_intact used = [] then sequence else lr_sequence (last (filter record_intact used))), env') \<and>
       healthy env'"
proof (induction left arbitrary: slot valid "next" sequence env used)
  case (Suc left)
  obtain status d env1 where r: "W25Q64_Read (slot_address s slot) 40 env = (status, d, env1)"
    using prod_cases3 by blast
  have slot: "slot < 102"
    using Suc.prems(2) by simp
  have read: "cells env1 = cells env" "status = W25Q64_STATUS_OK" "healthy env1"
    "get_log d = slot_record (cells env) s slot"
    using slot_read[OF r slot] Suc.prems(1) by blast+
  define rest where "rest = takeWhile record_used (map (slot_record (cells env1) s) [Suc slot..<102])"
  have split: "[slot..<102] = slot # [Suc slot..<102]"
    using slot by (rule upt_conv_Cons)
  have used: "used = (if record_used (get_log d) then get_log d # rest else [])"
    unfolding Suc.prems(4) split rest_def using read(1,4) by simp
  have IH: "\<exists>env'. healthCheckLog_ScanLoop s left (Suc slot) v (slot + 1) q env1 =
      ((v + length (filter record_intact rest), Suc slot + length rest,
        if filter record_intact rest = [] then q else lr_sequence (last (filter record_intact rest))), env') \<and> healthy env'" for v q
    using Suc.IH[OF read(3) _ _ rest_def, of "slot + 1" v q] Suc.prems(2) by simp
  show ?case
    using r read(2,3) IH[of valid sequence] IH[of "valid + 1" "lr_sequence (get_log d)"] used by (auto simp: Let_def)
qed (auto simp: )

lemma ScanSector_frame:
  "healthCheckLog_ScanSector s env = (r, env') \<Longrightarrow> cells env' = cells env \<and> touches 0 0 env env'"
  unfolding healthCheckLog_ScanSector_def by (rule ScanLoop_frame[rotated]) auto

lemma ScanSector_healthy:
  assumes "healthy env"
  obtains env' where "healthCheckLog_ScanSector s env =
      ((length (sector_log (cells env) s), length (used_slots (cells env) s), last_sequence (sector_log (cells env) s)), env')"
    "healthy env'" "cells env' = cells env"
proof -
  obtain env' where e: "healthCheckLog_ScanSector s env =
      ((length (sector_log (cells env) s), length (used_slots (cells env) s), last_sequence (sector_log (cells env) s)), env')"
    "healthy env'"
    using ScanLoop_healthy[OF assms, of 0 102 102 "used_slots (cells env) s" s 0 0]
    by (auto simp: healthCheckLog_ScanSector_def sector_log_def used_slots_def last_sequence_def)
  with ScanSector_frame[OF e(1)] that show ?thesis
    by blast
qed

subsection \<open>The ring\<close>

lemma opposite_sector [simp]: "s \<in> {0, 1} \<Longrightarrow> s XOR 1 \<in> {0, 1 :: u8}" "(s XOR 1) XOR 1 = (s :: u8)"
  by (auto simp: ac_simps)

lemma takeWhile_upt:
  "n \<le> m \<Longrightarrow> (\<forall>i<n. P (f i)) \<Longrightarrow> (n < m \<longrightarrow> \<not> P (f n)) \<Longrightarrow> takeWhile P (map f [0..<m]) = map f [0..<n]"
  by (rule takeWhile_eq_take_P_nth[THEN trans, of n]) (auto simp: take_map)

lemma slot_record_cong:
  assumes "\<And>i. i < 40 \<Longrightarrow> c' (unat (healthCheckLog_SectorBase s) + slot * 40 + i) = c (unat (healthCheckLog_SectorBase s) + slot * 40 + i)"
  shows "slot_record c' s slot = slot_record c s slot"
proof -
  have "cells_at c' (unat (healthCheckLog_SectorBase s) + slot * 40) 40 = cells_at c (unat (healthCheckLog_SectorBase s) + slot * 40) 40"
    using assms by (intro nth_equalityI) simp_all
  then show ?thesis
    by (simp add: slot_record_def)
qed

lemma slot_record_blank:
  assumes "\<forall>i<40. c (unat (healthCheckLog_SectorBase s) + slot * 40 + i) = 0xFF"
  shows "\<not> record_used (slot_record c s slot)"
proof -
  have "slot_record c s slot = get_log (replicate 40 0xFF)"
    unfolding slot_record_def by (rule arg_cong[where f = get_log]) (use assms in \<open>simp add: cells_at_eq_iff\<close>)
  moreover have "lr_sequence (get_log (replicate 40 0xFF)) = 0xFFFFFFFF"
    using get_u32_blank[of 36] by (simp add: get_log_def case_prod_unfold Let_def)
  ultimately show ?thesis
    by (simp add: record_used_def)
qed

lemma used_slots_prefix:
  assumes "n \<le> 102" "\<forall>i<n. record_used (slot_record c s i)"
    "\<forall>i<4096. n * 40 \<le> i \<longrightarrow> c (unat (healthCheckLog_SectorBase s) + i) = 0xFF"
  shows "used_slots c s = map (slot_record c s) [0..<n]"
  unfolding used_slots_def
proof (rule takeWhile_upt, fact assms(1), fact assms(2), rule impI)
  assume "n < 102"
  then show "\<not> record_used (slot_record c s n)"
    using assms(3) by (intro slot_record_blank) (simp add: add.assoc)
qed

lemma used_slots_cong:
  assumes "\<forall>i<4096. c' (unat (healthCheckLog_SectorBase s) + i) = c (unat (healthCheckLog_SectorBase s) + i)"
  shows "used_slots c' s = used_slots c s" "sector_log c' s = sector_log c s"
proof -
  have "slot_record c' s i = slot_record c s i" if "i < 102" for i
    using assms that by (intro slot_record_cong) (simp add: add.assoc)
  then show "used_slots c' s = used_slots c s"
    unfolding used_slots_def by (intro arg_cong[where f = "takeWhile record_used"] map_cong) auto
  then show "sector_log c' s = sector_log c s"
    by (simp add: sector_log_def)
qed

lemma log_inv_used:
  "log_inv st c \<Longrightarrow> used_slots c (activeSector st) = map (slot_record c (activeSector st)) [0..<nextSlot st]"
  by (rule used_slots_prefix) (simp_all add: log_inv_def)

lemma used_slots_record: "r \<in> set (used_slots c s) \<Longrightarrow> record_used r"
  by (auto simp: used_slots_def dest: set_takeWhileD)

lemma used_slots_blank: "sector_blank c (healthCheckLog_SectorBase s) \<Longrightarrow> used_slots c s = []"
  using used_slots_prefix[of 0 c s] by (simp add: sector_blank_def)

lemma max_sequence: "(- 1 :: u32) = 0xFFFFFFFF"
  by simp

text \<open>Using up the next slot, with a record or with something unreadable.\<close>

lemma log_inv_advance:
  assumes inv: "log_inv st c" and slot: "nextSlot st < 102" and sequence: "nextSequence st \<noteq> 0xFFFFFFFF"
    and same: "\<And>i. i < unat (healthCheckLog_SectorBase (activeSector st)) + nextSlot st * 40 \<or>
      unat (healthCheckLog_SectorBase (activeSector st)) + nextSlot st * 40 + 40 \<le> i \<Longrightarrow> c' i = c i"
    and r: "r = slot_record c' (activeSector st) (nextSlot st)" "record_used r"
      "record_intact r \<Longrightarrow> lr_sequence r = nextSequence st"
  shows "log_inv (st\<lparr>nextSlot := nextSlot st + 1, nextSequence := nextSequence st + 1\<rparr>) c'"
    and "log_view (st\<lparr>nextSlot := nextSlot st + 1, nextSequence := nextSequence st + 1\<rparr>) c' =
      log_view st c @ filter record_intact [r]"
proof -
  let ?s = "activeSector st" and ?n = "nextSlot st"
  let ?st = "st\<lparr>nextSlot := ?n + 1, nextSequence := nextSequence st + 1\<rparr>"
  have s: "?s \<in> {0, 1}"
    using inv by (simp add: log_inv_def)
  have old: "slot_record c' ?s i = slot_record c ?s i" if "i < ?n" for i
    using that by (intro slot_record_cong same) simp
  have used: "\<forall>i<?n + 1. record_used (slot_record c' ?s i)"
    using inv old r(1,2) by (auto simp: log_inv_def less_Suc_eq)
  have blank: "\<forall>i<4096. (?n + 1) * 40 \<le> i \<longrightarrow> c' (unat (healthCheckLog_SectorBase ?s) + i) = 0xFF"
    using inv same by (simp add: log_inv_def)
  have "used_slots c' ?s = map (slot_record c' ?s) [0..<?n + 1]"
    using slot used blank by (intro used_slots_prefix) simp_all
  also have "\<dots> = used_slots c ?s @ [r]"
    using old r(1) by (simp add: log_inv_used[OF inv])
  finally have active: "sector_log c' ?s = sector_log c ?s @ filter record_intact [r]"
    by (simp add: sector_log_def)
  have apart: "\<forall>i<4096. c' (unat (healthCheckLog_SectorBase (?s XOR 1)) + i) = c (unat (healthCheckLog_SectorBase (?s XOR 1)) + i)"
    using log_sectors_apart[OF s] slot by (intro allI impI same) auto
  note older = used_slots_cong[OF apart]
  show view: "log_view ?st c' = log_view st c @ filter record_intact [r]"
    using active older by (simp add: log_view_def)
  have "nextSequence st < nextSequence st + 1"
    using u32_less_succ[of "nextSequence st"] sequence max_sequence by metis
  then have "sorted_wrt (<) (0 # map lr_sequence (log_view st c @ filter record_intact [r]) @ [nextSequence st + 1])"
    using inv r(3) by (auto simp: log_inv_def sorted_wrt_append intro: less_trans)
  then show "log_inv ?st c'"
    unfolding log_inv_def view using inv slot used blank older by (simp add: log_inv_def del: mult_Suc)
qed

text \<open>Starting a freshly erased sector.\<close>

lemma log_inv_roll:
  assumes s: "s \<in> {0, 1}" and blank: "sector_blank c' (healthCheckLog_SectorBase s)"
    and same: "\<And>i. i < unat (healthCheckLog_SectorBase s) \<or> unat (healthCheckLog_SectorBase s) + 4096 \<le> i \<Longrightarrow> c' i = c i"
    and full: "sector_log c (s XOR 1) = [] \<or> length (used_slots c (s XOR 1)) = 102"
    and order: "sorted_wrt (<) (0 # map lr_sequence (sector_log c (s XOR 1)) @ [nextSequence st])"
    and st: "activeSector st = s" "nextSlot st = 0" "logMutex st"
  shows "log_inv st c'" "log_view st c' = sector_log c (s XOR 1)"
proof -
  have apart: "\<forall>i<4096. c' (unat (healthCheckLog_SectorBase (s XOR 1)) + i) = c (unat (healthCheckLog_SectorBase (s XOR 1)) + i)"
    using log_sectors_apart[OF s] by (intro allI impI same) auto
  show view: "log_view st c' = sector_log c (s XOR 1)"
    using used_slots_cong[OF apart] used_slots_blank[OF blank] st(1) by (simp add: log_view_def sector_log_def)
  show "log_inv st c'"
    using used_slots_cong[OF apart] blank full order st s view by (simp add: log_inv_def sector_blank_def)
qed

lemma RollToSector_cases:
  assumes "healthCheckLog_RollToSector s st env = (rolled, st', env')"
  shows "touches (unat (healthCheckLog_SectorBase s)) 4096 env env'" "healthy env \<Longrightarrow> rolled \<and> healthy env'"
    "\<not> rolled \<Longrightarrow> st' = st"
    "rolled \<Longrightarrow> st' = st\<lparr>activeSector := s, nextSlot := 0\<rparr> \<and> sector_blank (cells env') (healthCheckLog_SectorBase s)"
proof -
  obtain status env1 where e: "W25Q64_EraseSector (healthCheckLog_SectorBase s) env = (status, env1)"
    by fastforce
  have sector: "unat (healthCheckLog_SectorBase s) < W25Q64_CAPACITY_BYTES" "unat (healthCheckLog_SectorBase s) mod W25Q64_SECTOR_SIZE = 0"
    using log_sector[of s] by simp_all
  have t: "touches (unat (healthCheckLog_SectorBase s)) 4096 env env1"
    using sector_erase(1)[OF sector order_refl, of env] e by simp
  then show "touches (unat (healthCheckLog_SectorBase s)) 4096 env env'" "\<not> rolled \<Longrightarrow> st' = st"
    using assms e by (auto simp: healthCheckLog_RollToSector_def split: if_splits)
  show "healthy env \<Longrightarrow> rolled \<and> healthy env'"
    using sector_erase(3)[OF sector order_refl, of env] touches_healthy[OF t] assms e
    by (auto simp: healthCheckLog_RollToSector_def split: if_splits)
  show "rolled \<Longrightarrow> st' = st\<lparr>activeSector := s, nextSlot := 0\<rparr> \<and> sector_blank (cells env') (healthCheckLog_SectorBase s)"
    using assms e flash.er_data[of "healthCheckLog_SectorBase s" env env1]
    by (auto simp: healthCheckLog_RollToSector_def sector_blank_def split: if_splits)
qed

subsection \<open>Appending\<close>

lemma WriteRecord_cases:
  assumes run: "healthCheckLog_WriteRecord record st env = (status, entry, st', env')"
    and slot: "nextSlot st < 102" and reserved: "length (lr_reserved record) = 2"
  shows "st' = st\<lparr>nextSlot := nextSlot st + 1, nextSequence := nextSequence st + 1\<rparr>"
    "touches (unat (slot_address (activeSector st) (nextSlot st))) 40 env env'"
    "status = HEALTH_CHECK_STATUS_OK \<Longrightarrow>
       slot_record (cells env') (activeSector st) (nextSlot st) = record \<and> entry = Some (log_entry record)"
    "status \<noteq> HEALTH_CHECK_STATUS_OK \<Longrightarrow> entry = None"
    "healthy env \<Longrightarrow> \<forall>i<40. cells env (unat (slot_address (activeSector st) (nextSlot st)) + i) = 0xFF \<Longrightarrow>
       status = HEALTH_CHECK_STATUS_OK"
proof -
  let ?a = "slot_address (activeSector st) (nextSlot st)"
  obtain s1 env1 where w: "W25Q64_Program ?a (Some (put_log record)) env = (s1, env1)"
    by fastforce
  obtain s2 d env2 where r: "W25Q64_Read ?a 40 env1 = (s2, d, env2)"
    using prod_cases3 by blast
  have len: "length (put_log record) = 40"
    using reserved by simp
  have tw: "touches (unat ?a) 40 env env1"
    using Program_commits[of "put_log record" ?a env] w reserved by (simp add: commits_def)
  note read = slot_read[OF r slot]
  have tr: "touches (unat ?a) 40 env env2"
    using tw touches_nothing(1)[OF read(2)] by (rule touches_trans)
  show "st' = st\<lparr>nextSlot := nextSlot st + 1, nextSequence := nextSequence st + 1\<rparr>"
    "touches (unat ?a) 40 env env'" "status \<noteq> HEALTH_CHECK_STATUS_OK \<Longrightarrow> entry = None"
    using run tw tr by (auto simp: healthCheckLog_WriteRecord_def w r Let_def split: if_splits)
  show "slot_record (cells env') (activeSector st) (nextSlot st) = record \<and> entry = Some (log_entry record)"
    if ok: "status = HEALTH_CHECK_STATUS_OK"
  proof -
    have "s2 = W25Q64_STATUS_OK" "d = put_log record" "entry = Some (log_entry (get_log d))" "env' = env2"
      using run ok by (auto simp: healthCheckLog_WriteRecord_def w r Let_def split: if_splits)
    then show ?thesis
      using read(1,3) get_put_log[OF reserved] by simp
  qed
  show "status = HEALTH_CHECK_STATUS_OK"
    if h: "healthy env" and blank: "\<forall>i<40. cells env (unat ?a + i) = 0xFF"
  proof -
    have "unat ?a + 40 \<le> W25Q64_CAPACITY_BYTES"
      using unat_slot_address[OF slot, of "activeSector st"] log_sector(2)[of "activeSector st"] slot by simp
    then have s1: "s1 = W25Q64_STATUS_OK"
      using Program_healthy[OF h, of "put_log record" ?a] w len by (auto simp flip: length_0_conv)
    moreover have "cells_at (cells env1) (unat ?a) 40 = put_log record"
      using flash.program_blank[of ?a "put_log record" env env1] w s1 blank len by (simp add: cells_at_eq_iff)
    moreover have "s2 = W25Q64_STATUS_OK"
      using read(4) touches_healthy[OF tw h] by simp
    ultimately show ?thesis
      using run Read_spec(3)[OF r] by (auto simp: healthCheckLog_WriteRecord_def w r Let_def split: if_splits)
  qed
qed

lemma Append_cases:
  assumes run: "HealthCheckLog_Append ri anchor now (Some result) st env = (status, entry, st', env')" and inv: "log_inv st (cells env)"
  obtains (refused) "status = HEALTH_CHECK_STATUS_ERROR" "entry = None" "st' = st"
      "nextSlot st < 102 \<Longrightarrow> cells env' = cells env" "\<not> healthy env"
  | (written) env1 where "log_inv (append_base st) (cells env1)"
      "log_view (append_base st) (cells env1) =
         (if nextSlot st < 102 then log_view st (cells env) else sector_log (cells env) (activeSector st))"
      "nextSlot st < 102 \<Longrightarrow> cells env1 = cells env" "healthy env \<Longrightarrow> healthy env1"
      "healthCheckLog_WriteRecord (log_record (nextSequence st) ri anchor now result) (append_base st) env1 = (status, entry, st', env')"
proof -
  obtain taken env1 where l: "xSemaphoreTake env = (taken, env1)" by fastforce
  note lock = xSemaphoreTake_frame[OF l]
  show thesis
  proof (cases "nextSlot st < 102")
    case True
    then show thesis
      using run refused written[of env1] inv lock(1,3)
      by (auto simp: HealthCheckLog_Append_def l append_base_def split: if_splits)
  next
    case False
    obtain rolled st1 env2 where r: "healthCheckLog_RollToSector (activeSector st XOR 1) st env1 = (rolled, st1, env2)"
      using prod_cases3 by blast
    note roll = RollToSector_cases[OF r]
    have s: "activeSector st \<in> {0, 1}" and full: "length (used_slots (cells env) (activeSector st)) = 102"
      using inv False log_inv_used[OF inv] by (auto simp: log_inv_def)
    show thesis
    proof (cases "taken \<and> rolled")
      case True
      have base: "st1 = append_base st" "sector_blank (cells env2) (healthCheckLog_SectorBase (activeSector st XOR 1))"
        using roll(4) True False by (simp_all add: append_base_def)
      have "\<And>i. i < unat (healthCheckLog_SectorBase (activeSector st XOR 1)) \<or>
          unat (healthCheckLog_SectorBase (activeSector st XOR 1)) + 4096 \<le> i \<Longrightarrow> cells env2 i = cells env i"
        using roll(1) lock(1) by (auto simp: touches_def)
      moreover have "sorted_wrt (<) (0 # map lr_sequence (sector_log (cells env) (activeSector st)) @ [nextSequence st])"
        using inv by (auto simp: log_inv_def log_view_def sorted_wrt_append)
      moreover have "logMutex st"
        using inv by (simp add: log_inv_def)
      ultimately have "log_inv (append_base st) (cells env2)"
        "log_view (append_base st) (cells env2) = sector_log (cells env) (activeSector st)"
        using log_inv_roll[OF opposite_sector(1)[OF s] base(2), of "cells env" "append_base st"] full False
        by (simp_all add: append_base_def)
      then show thesis
        using run True False base(1) r roll(2) lock(3)
        by (intro written[of env2]) (auto simp: HealthCheckLog_Append_def l append_base_def split: if_splits)
    next
      case fails: False
      then show thesis
        using run False roll(2,3) lock(1,3) r
        by (intro refused) (auto simp: HealthCheckLog_Append_def l split: if_splits)
    qed
  qed
qed

lemma append_base_fields:
  "nextSequence (append_base st) = nextSequence st" "nextSlot (append_base st) < 102"
  by (simp_all add: append_base_def)

lemma Write_advances:
  assumes run: "healthCheckLog_WriteRecord record st env = (status, entry, st', env')"
    and inv: "log_inv st (cells env)" "nextSlot st < 102" "nextSequence st \<noteq> 0xFFFFFFFF"
    and new: "length (lr_reserved record) = 2" "lr_sequence record = nextSequence st"
    and left: "r = slot_record (cells env') (activeSector st) (nextSlot st)" "record_used r" "record_intact r \<Longrightarrow> r = record"
  shows "log_inv st' (cells env')" "log_view st' (cells env') = log_view st (cells env) @ filter record_intact [r]"
proof -
  note cases = WriteRecord_cases[OF run inv(2) new(1)]
  have same: "cells env' i = cells env i" if "i < unat (healthCheckLog_SectorBase (activeSector st)) + nextSlot st * 40 \<or>
      unat (healthCheckLog_SectorBase (activeSector st)) + nextSlot st * 40 + 40 \<le> i" for i
    using cases(2) that unat_slot_address[OF inv(2)] by (auto simp: touches_def)
  show "log_inv st' (cells env')" "log_view st' (cells env') = log_view st (cells env) @ filter record_intact [r]"
    unfolding cases(1) using log_inv_advance[OF inv same left(1,2)] left(3) new(2) by blast+
qed

lemma Append_ok:
  assumes run: "HealthCheckLog_Append ri anchor now (Some result) st env = (HEALTH_CHECK_STATUS_OK, entry, st', env')"
    and inv: "log_inv st (cells env)" and sequence: "nextSequence st \<noteq> 0xFFFFFFFF"
  shows "log_inv st' (cells env')"
    "log_view st' (cells env') =
       (if nextSlot st < 102 then log_view st (cells env) else sector_log (cells env) (activeSector st)) @
       [log_record (nextSequence st) ri anchor now result]"
    "entry = Some (log_entry (log_record (nextSequence st) ri anchor now result))"
    "nextSequence st' = nextSequence st + 1"
proof -
  let ?r = "log_record (nextSequence st) ri anchor now result"
  obtain env1 where base: "log_inv (append_base st) (cells env1)"
    "log_view (append_base st) (cells env1) =
       (if nextSlot st < 102 then log_view st (cells env) else sector_log (cells env) (activeSector st))"
      "healthCheckLog_WriteRecord ?r (append_base st) env1 = (HEALTH_CHECK_STATUS_OK, entry, st', env')"
    using run inv by (rule Append_cases) auto
  note cases = WriteRecord_cases[OF base(3) append_base_fields(2)]
  show "entry = Some (log_entry ?r)" "nextSequence st' = nextSequence st + 1"
    using cases(1,3) by (simp_all add: append_base_fields)
  have r: "?r = slot_record (cells env') (activeSector (append_base st)) (nextSlot (append_base st))"
    using cases(3) by simp
  note adv = Write_advances[OF base(3,1) append_base_fields(2) _ _ _ r]
  show "log_inv st' (cells env')" "log_view st' (cells env') =
       (if nextSlot st < 102 then log_view st (cells env) else sector_log (cells env) (activeSector st)) @ [?r]"
    using adv sequence base(2) by (simp_all add: append_base_fields record_used_def)
qed

lemma Append_torn:
  assumes run: "HealthCheckLog_Append ri anchor now (Some result) st env = (HEALTH_CHECK_STATUS_ERROR, entry, st', env')"
    and inv: "log_inv st (cells env)" and sequence: "nextSequence st \<noteq> 0xFFFFFFFF" and used: "st' \<noteq> st"
    and torn: "torn_append (append_base st) (log_record (nextSequence st) ri anchor now result) (cells env')"
  shows "log_inv st' (cells env')"
  using run inv
proof (cases rule: Append_cases)
  case refused
  with used show ?thesis by simp
next
  case (written env1)
  show ?thesis
    using Write_advances(1)[OF written(5,1) append_base_fields(2) _ _ _ refl] torn sequence
    by (simp add: append_base_fields torn_append_def Let_def)
qed

lemma Append_healthy:
  assumes run: "HealthCheckLog_Append ri anchor now (Some result) st env = (status, entry, st', env')"
    and inv: "log_inv st (cells env)" and h: "healthy env"
  shows "status = HEALTH_CHECK_STATUS_OK"
  using run inv
proof (cases rule: Append_cases)
  case (written env1)
  let ?s = "activeSector (append_base st)" and ?n = "nextSlot (append_base st)"
  have "\<forall>i<40. cells env1 (unat (slot_address ?s ?n) + i) = 0xFF"
    using written(1) append_base_fields(2)[of st] unat_slot_address[of ?n ?s]
    by (auto simp: log_inv_def add.assoc)
  then show ?thesis
    using WriteRecord_cases(5)[OF written(5) append_base_fields(2)] written(4)[OF h] by simp
qed (use h in simp)

subsection \<open>Starting up\<close>

lemma last_sequence_sorted:
  assumes "sorted_wrt (<) (0 # map lr_sequence rs @ [n :: u32])" "rs \<noteq> []"
  shows "0 < last_sequence rs" "last_sequence rs < n" "sorted_wrt (<) (0 # map lr_sequence rs @ [last_sequence rs + 1])"
proof -
  have last: "last rs \<in> set rs"
    using assms(2) by simp
  show "0 < last_sequence rs" "last_sequence rs < n"
    using assms last by (auto simp: last_sequence_def sorted_wrt_append)
  have "lr_sequence r \<le> last_sequence rs" if "r \<in> set rs" for r
  proof -
    have "sorted (map lr_sequence rs)"
      using assms(1) by (auto simp: sorted_wrt_append intro: sorted_wrt_mono_rel[of _ "(<)"] order.strict_implies_order)
    then show ?thesis
      using that assms(2) by (cases rs rule: rev_cases) (auto simp: last_sequence_def sorted_append)
  qed
  moreover have "last_sequence rs < last_sequence rs + 1"
    using \<open>last_sequence rs < n\<close> by (intro u32_less_succ) auto
  ultimately show "sorted_wrt (<) (0 # map lr_sequence rs @ [last_sequence rs + 1])"
    using assms(1) by (auto simp: sorted_wrt_append intro: le_less_trans)
qed

definition newer_sector :: "(nat \<Rightarrow> u8) \<Rightarrow> u8" where
  "newer_sector c = (if last_sequence (sector_log c 0) \<ge> last_sequence (sector_log c 1) then 0 else 1)"

lemma log_Init_cases:
  assumes run: "HealthCheckLog_Init st0 env = (status, st', env')" and h: "healthy env" and s: "s = newer_sector (cells env)"
  shows "status = HEALTH_CHECK_STATUS_OK" "healthy env'"
    "sector_log (cells env) 0 = [] \<and> sector_log (cells env) 1 = [] \<Longrightarrow>
       \<exists>env2. cells env2 = cells env \<and>
         healthCheckLog_RollToSector 0 (st0\<lparr>logMutex := True, nextSequence := 1\<rparr>) env2 = (True, st', env')"
    "\<not> (sector_log (cells env) 0 = [] \<and> sector_log (cells env) 1 = []) \<Longrightarrow> length (used_slots (cells env) s) < 102 \<Longrightarrow>
       cells env' = cells env \<and> st' = st0\<lparr>logMutex := True, activeSector := s, nextSlot := length (used_slots (cells env) s),
         nextSequence := last_sequence (sector_log (cells env) s) + 1\<rparr>"
    "\<not> (sector_log (cells env) 0 = [] \<and> sector_log (cells env) 1 = []) \<Longrightarrow> \<not> length (used_slots (cells env) s) < 102 \<Longrightarrow>
       \<exists>env2. cells env2 = cells env \<and>
         healthCheckLog_RollToSector (s XOR 1)
           (st0\<lparr>logMutex := True, nextSequence := last_sequence (sector_log (cells env) s) + 1\<rparr>) env2 = (True, st', env')"
proof -
  obtain created env0 where m: "xSemaphoreCreateMutexStatic env = (created, env0)" by fastforce
  note mutex = xSemaphoreCreateMutexStatic_frame[OF m]
  have m': created "healthy env0"
    using mutex(3)[OF h] by simp_all
  obtain env1 where s0: "healthCheckLog_ScanSector 0 env0 = ((length (sector_log (cells env0) 0),
      length (used_slots (cells env0) 0), last_sequence (sector_log (cells env0) 0)), env1)" "healthy env1" "cells env1 = cells env0"
    using ScanSector_healthy[OF m'(2)] by blast
  obtain env2 where s1: "healthCheckLog_ScanSector 1 env1 = ((length (sector_log (cells env1) 1),
      length (used_slots (cells env1) 1), last_sequence (sector_log (cells env1) 1)), env2)" "healthy env2" "cells env2 = cells env1"
    using ScanSector_healthy[OF s0(2)] by blast
  have c: "cells env0 = cells env" "cells env1 = cells env" "cells env2 = cells env"
    using mutex(1) s0(3) s1(3) by simp_all
  let ?st = "if sector_log (cells env) 0 = [] \<and> sector_log (cells env) 1 = [] then st0\<lparr>logMutex := True, nextSequence := 1\<rparr>
    else st0\<lparr>logMutex := True, nextSequence := last_sequence (sector_log (cells env) s) + 1\<rparr>"
  let ?to = "if sector_log (cells env) 0 = [] \<and> sector_log (cells env) 1 = [] then 0 else s XOR 1"
  obtain rolled st1 env3 where r: "healthCheckLog_RollToSector ?to ?st env2 = (rolled, st1, env3)"
    using prod_cases3 by blast
  have roll: rolled "healthy env3"
    using RollToSector_cases(2)[OF r s1(2)] by simp_all
  show "status = HEALTH_CHECK_STATUS_OK" "healthy env'"
    "sector_log (cells env) 0 = [] \<and> sector_log (cells env) 1 = [] \<Longrightarrow>
       \<exists>env2. cells env2 = cells env \<and>
         healthCheckLog_RollToSector 0 (st0\<lparr>logMutex := True, nextSequence := 1\<rparr>) env2 = (True, st', env')"
    "\<not> (sector_log (cells env) 0 = [] \<and> sector_log (cells env) 1 = []) \<Longrightarrow> length (used_slots (cells env) s) < 102 \<Longrightarrow>
       cells env' = cells env \<and> st' = st0\<lparr>logMutex := True, activeSector := s, nextSlot := length (used_slots (cells env) s),
         nextSequence := last_sequence (sector_log (cells env) s) + 1\<rparr>"
    "\<not> (sector_log (cells env) 0 = [] \<and> sector_log (cells env) 1 = []) \<Longrightarrow> \<not> length (used_slots (cells env) s) < 102 \<Longrightarrow>
       \<exists>env2. cells env2 = cells env \<and>
         healthCheckLog_RollToSector (s XOR 1)
           (st0\<lparr>logMutex := True, nextSequence := last_sequence (sector_log (cells env) s) + 1\<rparr>) env2 = (True, st', env')"
    using run m m' s0(1) s1(1,2) c r roll s
    by (auto simp: HealthCheckLog_Init_def newer_sector_def Let_def split: if_splits)
qed

lemma newer_is_active:
  assumes "log_inv st c" "sector_log c (activeSector st) \<noteq> []"
  shows "newer_sector c = activeSector st"
proof -
  let ?s = "activeSector st"
  have sorted: "sorted_wrt (<) (0 # map lr_sequence (sector_log c (?s XOR 1)) @ map lr_sequence (sector_log c ?s) @ [nextSequence st])"
    using assms(1) by (simp add: log_inv_def log_view_def)
  have "last_sequence (sector_log c (?s XOR 1)) < last_sequence (sector_log c ?s)"
    using sorted assms(2) last_in_set[OF assms(2)] last_in_set[of "sector_log c (?s XOR 1)"]
    by (auto simp: last_sequence_def sorted_wrt_append)
  moreover have "?s \<in> {0, 1}"
    using assms(1) by (simp add: log_inv_def)
  ultimately show ?thesis
    by (auto simp: newer_sector_def)
qed

lemma newer_is_older:
  assumes "log_inv st c" "sector_log c (activeSector st) = []" "sector_log c (activeSector st XOR 1) \<noteq> []"
  shows "newer_sector c = activeSector st XOR 1"
proof -
  have "0 < last_sequence (sector_log c (activeSector st XOR 1))"
    using last_sequence_sorted(1)[of "sector_log c (activeSector st XOR 1)" "nextSequence st"] assms
    by (simp add: log_inv_def log_view_def)
  then show ?thesis
    using assms by (auto simp: newer_sector_def log_inv_def last_sequence_def)
qed

text \<open>What a restart finds: everything, except that a full active sector is taken for the
  older one and the other erased to make room.\<close>

definition recovered :: "HealthCheckLog_State \<Rightarrow> (nat \<Rightarrow> u8) \<Rightarrow> healthCheckLog_RecordTypeDef list" where
  "recovered st c = (if nextSlot st = 102 \<and> sector_log c (activeSector st) \<noteq> [] then sector_log c (activeSector st) else log_view st c)"

lemma Init_roll:
  assumes "healthCheckLog_RollToSector s st0 env2 = (True, st', env')" "cells env2 = c" "s \<in> {0, 1}"
    and "sector_log c (s XOR 1) = [] \<or> length (used_slots c (s XOR 1)) = 102"
    and "sorted_wrt (<) (0 # map lr_sequence (sector_log c (s XOR 1)) @ [nextSequence st0])" "logMutex st0"
  shows "log_inv st' (cells env')" "log_view st' (cells env') = sector_log c (s XOR 1)"
proof -
  note roll = RollToSector_cases[OF assms(1)]
  have st: "st' = st0\<lparr>activeSector := s, nextSlot := 0\<rparr>" and blank: "sector_blank (cells env') (healthCheckLog_SectorBase s)"
    using roll(4) by simp_all
  have same: "cells env' i = c i"
    if "i < unat (healthCheckLog_SectorBase s) \<or> unat (healthCheckLog_SectorBase s) + 4096 \<le> i" for i
    using roll(1) assms(2) that by (auto simp: touches_def)
  show "log_inv st' (cells env')" "log_view st' (cells env') = sector_log c (s XOR 1)"
    using log_inv_roll[OF assms(3) blank same assms(4), of st'] assms(5,6) st by auto
qed

lemma log_Init_recovers:
  assumes run: "HealthCheckLog_Init st0 env = (status, st', env')" and h: "healthy env" and inv: "log_inv st (cells env)"
  shows "log_inv st' (cells env')" "log_view st' (cells env') = recovered st (cells env)"
proof -
  let ?c = "cells env" and ?s = "activeSector st"
  note cases = log_Init_cases[OF run h refl]
  have s: "?s \<in> {0, 1}" and n: "nextSlot st \<le> 102" and older: "sector_log ?c (?s XOR 1) = [] \<or> length (used_slots ?c (?s XOR 1)) = 102"
    and blank: "\<forall>i<4096. nextSlot st * 40 \<le> i \<longrightarrow> ?c (unat (healthCheckLog_SectorBase ?s) + i) = 0xFF"
    and used: "\<forall>i<nextSlot st. record_used (slot_record ?c ?s i)"
    and sorted: "sorted_wrt (<) (0 # map lr_sequence (log_view st ?c) @ [nextSequence st])"
    using inv by (auto simp: log_inv_def)
  have len: "length (used_slots ?c ?s) = nextSlot st"
    using log_inv_used[OF inv] by simp
  have sorted_active: "sorted_wrt (<) (0 # map lr_sequence (sector_log ?c ?s) @ [nextSequence st])"
    and sorted_older: "sorted_wrt (<) (0 # map lr_sequence (sector_log ?c (?s XOR 1)) @ [nextSequence st])"
    using sorted by (auto simp: log_view_def sorted_wrt_append)
  consider (none) "sector_log ?c ?s = []" "sector_log ?c (?s XOR 1) = []"
    | (older) "sector_log ?c ?s = []" "sector_log ?c (?s XOR 1) \<noteq> []"
    | (room) "sector_log ?c ?s \<noteq> []" "nextSlot st < 102" | (full) "sector_log ?c ?s \<noteq> []" "nextSlot st = 102"
    using n by linarith
  then have "log_inv st' (cells env') \<and> log_view st' (cells env') = recovered st ?c"
  proof cases
    case none
    then have "sector_log ?c 0 = []" "sector_log ?c 1 = []"
      using s by auto
    then show ?thesis
      using cases(3) Init_roll[of 0 "st0\<lparr>logMutex := True, nextSequence := 1\<rparr>" _ st' env' ?c] none
      by (auto simp: recovered_def log_view_def)
  next
    case older
    then have newer: "newer_sector ?c = ?s XOR 1" and some: "\<not> (sector_log ?c 0 = [] \<and> sector_log ?c 1 = [])"
      using newer_is_older[OF inv] s by auto
    have full: "length (used_slots ?c (?s XOR 1)) = 102"
      using older \<open>sector_log ?c (?s XOR 1) = [] \<or> length (used_slots ?c (?s XOR 1)) = 102\<close> by simp
    then show ?thesis
      using cases(5)[unfolded newer] some older s last_sequence_sorted(3)[OF sorted_older older(2)]
        Init_roll[of ?s "st0\<lparr>logMutex := True, nextSequence := last_sequence (sector_log ?c (?s XOR 1)) + 1\<rparr>" _ st' env' ?c]
      by (auto simp: recovered_def log_view_def)
  next
    case room
    then have newer: "newer_sector ?c = ?s" and some: "\<not> (sector_log ?c 0 = [] \<and> sector_log ?c 1 = [])"
      using newer_is_active[OF inv] s by auto
    have st: "cells env' = ?c" "st' = st0\<lparr>logMutex := True, activeSector := ?s, nextSlot := nextSlot st,
        nextSequence := last_sequence (sector_log ?c ?s) + 1\<rparr>"
      using cases(4)[unfolded newer len, OF some room(2)] by simp_all
    have view: "log_view st' ?c = log_view st ?c"
      by (simp add: st(2) log_view_def)
    have last: "last_sequence (log_view st ?c) = last_sequence (sector_log ?c ?s)"
      using room(1) by (simp add: log_view_def last_sequence_def)
    have "log_view st ?c \<noteq> []"
      using room(1) by (simp add: log_view_def)
    from last_sequence_sorted(3)[OF sorted this]
    have "sorted_wrt (<) (0 # map lr_sequence (log_view st ?c) @ [nextSequence st'])"
      by (simp add: last st(2))
    then have "log_inv st' ?c"
      unfolding log_inv_def view using s n used blank \<open>sector_log ?c (?s XOR 1) = [] \<or> _\<close> by (simp add: st(2))
    then show ?thesis
      using view st(1) room(2) by (simp add: recovered_def)
  next
    case full
    then have newer: "newer_sector ?c = ?s" and some: "\<not> (sector_log ?c 0 = [] \<and> sector_log ?c 1 = [])"
      using newer_is_active[OF inv] s by auto
    obtain env2 where "cells env2 = ?c" "healthCheckLog_RollToSector (?s XOR 1)
        (st0\<lparr>logMutex := True, nextSequence := last_sequence (sector_log ?c ?s) + 1\<rparr>) env2 = (True, st', env')"
      using cases(5)[unfolded newer len, OF some] full(2) by auto
    then show ?thesis
      using Init_roll[of "?s XOR 1" "st0\<lparr>logMutex := True, nextSequence := last_sequence (sector_log ?c ?s) + 1\<rparr>" env2 st' env' ?c]
        s len full last_sequence_sorted(3)[OF sorted_active full(1)] by (auto simp: recovered_def)
  qed
  then show "log_inv st' (cells env')" "log_view st' (cells env') = recovered st ?c"
    by simp_all
qed

lemma log_boot:
  assumes "HealthCheckLog_Init st0 env = (status, st, env')" "healthy env"
    and "sector_blank (cells env) FLASH_LAYOUT_HEALTH_CHECK_LOG_SECTOR_0" "sector_blank (cells env) FLASH_LAYOUT_HEALTH_CHECK_LOG_SECTOR_1"
  shows "log_inv st (cells env')" "log_view st (cells env') = []" "nextSequence st = 1"
    "i < unat FLASH_LAYOUT_HEALTH_CHECK_LOG_SECTOR_0 \<or> unat FLASH_LAYOUT_HEALTH_CHECK_LOG_SECTOR_0 + 4096 \<le> i \<Longrightarrow>
       cells env' i = cells env i"
proof -
  have empty: "sector_log (cells env) 0 = []" "sector_log (cells env) 1 = []"
    using used_slots_blank[of "cells env" 0] used_slots_blank[of "cells env" 1] assms(3,4)
    by (simp_all add: sector_log_def healthCheckLog_SectorBase_def)
  obtain env2 where roll: "cells env2 = cells env"
    "healthCheckLog_RollToSector 0 (st0\<lparr>logMutex := True, nextSequence := 1\<rparr>) env2 = (True, st, env')"
    using log_Init_cases(3)[OF assms(1,2) refl] empty by blast
  show "log_inv st (cells env')" "log_view st (cells env') = []"
    using Init_roll[OF roll(2,1)] empty by simp_all
  show "nextSequence st = 1"
    using RollToSector_cases(4)[OF roll(2)] by simp
  show "cells env' i = cells env i"
    if "i < unat FLASH_LAYOUT_HEALTH_CHECK_LOG_SECTOR_0 \<or> unat FLASH_LAYOUT_HEALTH_CHECK_LOG_SECTOR_0 + 4096 \<le> i"
    using RollToSector_cases(1)[OF roll(2)] roll(1) that by (auto simp: touches_def healthCheckLog_SectorBase_def)
qed

lemma log_reach_inv: "log_reach st c \<Longrightarrow> log_inv st c"
proof (induction rule: log_reach.induct)
  case (boot env st0 st env')
  show ?case by (rule log_boot(1)[OF boot(4,1,2,3)])
next
  case (append st env resourceIndex anchor now result entry st' env')
  show ?case by (rule Append_ok(1)[OF append(3) append.IH append(2)])
next
  case (torn st env resourceIndex anchor now result entry st' env')
  show ?case by (rule Append_torn[OF torn(3) torn.IH torn(2,4,5)])
next
  case (restart st env st0 status st' env')
  show ?case by (rule log_Init_recovers(1)[OF restart(3,2) restart.IH])
qed

subsection \<open>Reading back\<close>

lemma ReadBack_healthy:
  "healthy env \<Longrightarrow> n \<le> 102 \<Longrightarrow> \<exists>env'. healthCheckLog_ReadBack s n room env =
     (map log_entry (take room (rev (filter (\<lambda>r. record_used r \<and> record_intact r) (map (slot_record (cells env) s) [0..<n])))), env') \<and>
     healthy env' \<and> cells env' = cells env"
proof (induction n arbitrary: room env)
  case (Suc n)
  obtain status d env1 where r: "W25Q64_Read (slot_address s n) 40 env = (status, d, env1)"
    using prod_cases3 by blast
  have read: "cells env1 = cells env" "status = W25Q64_STATUS_OK" "healthy env1" "get_log d = slot_record (cells env) s n"
    using slot_read[OF r] Suc.prems by auto
  show ?case
  proof (cases "room = 0 \<or> \<not> (record_used (get_log d) \<and> record_intact (get_log d))")
    case True
    then show ?thesis
      using Suc.IH[OF read(3), of room] Suc.prems r read by (auto simp: Let_def)
  next
    case False
    obtain env2 where rest: "healthCheckLog_ReadBack s n (room - 1) env1 =
        (map log_entry (take (room - 1) (rev (filter (\<lambda>r. record_used r \<and> record_intact r) (map (slot_record (cells env) s) [0..<n])))), env2)"
      "healthy env2" "cells env2 = cells env"
      using Suc.IH[OF read(3), of "room - 1"] Suc.prems(2) read(1) by auto
    have "take room (x # xs) = x # take (room - 1) xs" for x and xs :: "healthCheckLog_RecordTypeDef list"
      using False by (cases room) auto
    then show ?thesis
      using False r read(2,4) rest by (simp add: Let_def)
  qed
qed auto

lemma used_slots_upt: "used_slots c s = map (slot_record c s) [0..<length (used_slots c s)]"
proof -
  have "used_slots c s = take (length (used_slots c s)) (map (slot_record c s) [0..<102])"
    unfolding used_slots_def by (rule takeWhile_eq_take)
  moreover have "length (used_slots c s) \<le> 102"
    using length_takeWhile_le[of record_used "map (slot_record c s) [0..<102]"] by (simp add: used_slots_def)
  ultimately show ?thesis
    by (simp add: take_map)
qed

lemma readable_sector_log:
  "filter (\<lambda>r. record_used r \<and> record_intact r) (map (slot_record c s) [0..<length (used_slots c s)]) = sector_log c s"
  unfolding used_slots_upt[symmetric] sector_log_def by (rule filter_cong[OF refl]) (simp add: used_slots_record)

lemma used_slots_bound: "length (used_slots c s) \<le> 102"
  using length_takeWhile_le[of record_used "map (slot_record c s) [0..<102]"] by (simp add: used_slots_def)

lemma log_shown_view: "log_inv st c \<Longrightarrow> log_shown st c = log_view st c"
  using readable_sector_log[of c "activeSector st"] log_inv_used[of st c]
  by (simp add: log_shown_def log_view_def)

lemma log_inv_slot_erased: "log_inv st c \<Longrightarrow> slot_erased st c"
  by (auto simp: log_inv_def slot_erased_def add.assoc)

lemma GetRecent_shown:
  assumes n: "nextSlot st \<le> 102" and h: "healthy env"
  shows "fst (HealthCheckLog_GetRecent capacity st env) = map log_entry (take capacity (rev (log_shown st (cells env))))"
proof -
  let ?c = "cells env" and ?s = "activeSector st"
  let ?a = "filter (\<lambda>r. record_used r \<and> record_intact r) (map (slot_record ?c ?s) [0..<nextSlot st])"
  obtain env1 where l: "xSemaphoreTake env = (True, env1)" "healthy env1" "touches 0 0 env env1"
    using xSemaphoreTake_healthy[OF h] by blast
  have c1: "cells env1 = ?c"
    using touches_nothing(2)[OF l(3)] .
  obtain env2 where s: "healthCheckLog_ScanSector (?s XOR 1) env1 = ((length (sector_log ?c (?s XOR 1)),
      length (used_slots ?c (?s XOR 1)), last_sequence (sector_log ?c (?s XOR 1))), env2)" "healthy env2" "cells env2 = ?c"
    using ScanSector_healthy[OF l(2), unfolded c1] by blast
  obtain env3 where first: "healthCheckLog_ReadBack ?s (nextSlot st) capacity env2 = (map log_entry (take capacity (rev ?a)), env3)"
    "healthy env3" "cells env3 = ?c"
    using ReadBack_healthy[OF s(2) n, of ?s capacity] unfolding s(3) by blast
  obtain env4 where second: "healthCheckLog_ReadBack (?s XOR 1) (length (used_slots ?c (?s XOR 1))) (capacity - length ?a) env3 =
      (map log_entry (take (capacity - length ?a) (rev (sector_log ?c (?s XOR 1)))), env4)"
    using ReadBack_healthy[OF first(2) used_slots_bound, of "?s XOR 1" ?c "?s XOR 1"] unfolding first(3) readable_sector_log by blast
  have room: "capacity - length (map log_entry (take capacity (rev ?a))) = capacity - length ?a"
    by simp
  have "fst (HealthCheckLog_GetRecent capacity st env) =
      (if capacity = 0 then []
       else map log_entry (take capacity (rev ?a)) @ map log_entry (take (capacity - length ?a) (rev (sector_log ?c (?s XOR 1)))))"
    unfolding HealthCheckLog_GetRecent_def l(1) Let_def prod.case s(1) first(1) room second by simp
  then show ?thesis
    by (simp add: log_shown_def)
qed

text \<open>Whatever the chip does, only entries of readable records are reported, and no more than asked for.\<close>

definition readable_entries :: "(nat \<Rightarrow> u8) \<Rightarrow> HealthCheckLog_EntryTypeDef set" where
  "readable_entries c = {log_entry (slot_record c s i) | s i. i < 102 \<and>
     record_used (slot_record c s i) \<and> record_intact (slot_record c s i)}"

lemma ReadBack_any:
  "n \<le> 102 \<Longrightarrow> healthCheckLog_ReadBack s n room env = (es, env') \<Longrightarrow>
     set es \<subseteq> readable_entries (cells env) \<and> length es \<le> room \<and> cells env' = cells env"
proof (induction n arbitrary: room env es env')
  case (Suc n)
  obtain status d env1 where r: "W25Q64_Read (slot_address s n) 40 env = (status, d, env1)"
    using prod_cases3 by blast
  note read = slot_read(1,3)[OF r]
  obtain es1 env2 where rest: "healthCheckLog_ReadBack s n (room - 1) env1 = (es1, env2)" by fastforce
  have "log_entry (get_log d) \<in> readable_entries (cells env)"
    if "status = W25Q64_STATUS_OK" "record_used (get_log d)" "record_intact (get_log d)"
    using read(2) that Suc.prems(1) unfolding readable_entries_def by (intro CollectI exI[of _ s] exI[of _ n]) auto
  then show ?case
    using Suc.IH[of room env1 es env'] Suc.IH[OF _ rest] Suc.prems r read(1) rest
    by (auto simp: Let_def split: if_splits)
qed auto

lemma ScanLoop_bound:
  "healthCheckLog_ScanLoop s left slot valid next sequence env = ((v, n, q), env') \<Longrightarrow> slot + left = 102 \<Longrightarrow> next \<le> 102 \<Longrightarrow> n \<le> 102"
proof (induction left arbitrary: slot valid "next" sequence env)
  case (Suc left)
  then show ?case
    using Suc.IH[of "Suc slot"] by (auto simp: Let_def split: prod.splits if_splits)
qed auto

lemma GetRecent_any:
  assumes "nextSlot st \<le> 102"
  shows "set (fst (HealthCheckLog_GetRecent capacity st env)) \<subseteq> readable_entries (cells env)"
    "length (fst (HealthCheckLog_GetRecent capacity st env)) \<le> capacity"
proof -
  obtain taken env1 where l: "xSemaphoreTake env = (taken, env1)" by fastforce
  obtain v n q env2 where s: "healthCheckLog_ScanSector (activeSector st XOR 1) env1 = ((v, n, q), env2)"
    by (metis prod.exhaust)
  obtain es1 env3 where f: "healthCheckLog_ReadBack (activeSector st) (nextSlot st) capacity env2 = (es1, env3)" by fastforce
  obtain es2 env4 where g: "healthCheckLog_ReadBack (activeSector st XOR 1) n (capacity - length es1) env3 = (es2, env4)" by fastforce
  have "n \<le> 102"
    using ScanLoop_bound[of "activeSector st XOR 1" 102 0 0 102 0 env1] s by (simp add: healthCheckLog_ScanSector_def)
  note r = ReadBack_any[OF assms f] ReadBack_any[OF this g]
  have c: "cells env2 = cells env"
    using ScanSector_frame[OF s] xSemaphoreTake_frame(1)[OF l] by simp
  show "set (fst (HealthCheckLog_GetRecent capacity st env)) \<subseteq> readable_entries (cells env)"
    "length (fst (HealthCheckLog_GetRecent capacity st env)) \<le> capacity"
    using r c by (auto simp: HealthCheckLog_GetRecent_def l s f g)
qed

subsection \<open>Every state of the running log\<close>

lemma RollToSector_ring:
  "healthCheckLog_RollToSector s st env = (rolled, st', env') \<Longrightarrow> s \<in> {0, 1} \<Longrightarrow> activeSector st \<in> {0, 1} \<Longrightarrow> nextSlot st \<le> 102 \<Longrightarrow>
     activeSector st' \<in> {0, 1} \<and> nextSlot st' \<le> 102 \<and> (rolled \<longrightarrow> nextSlot st' = 0)"
  by (auto simp: healthCheckLog_RollToSector_def split: prod.splits if_splits)

lemma Init_ring:
  assumes run: "HealthCheckLog_Init st env = (status, st', env')" and ring: "activeSector st \<in> {0, 1}" "nextSlot st \<le> 102"
  shows "activeSector st' \<in> {0, 1} \<and> nextSlot st' \<le> 102"
proof -
  obtain created env0 where m: "xSemaphoreCreateMutexStatic env = (created, env0)" by fastforce
  obtain v0 n0 q0 env1 where s0: "healthCheckLog_ScanSector 0 env0 = ((v0, n0, q0), env1)" by (metis prod.exhaust)
  obtain v1 n1 q1 env2 where s1: "healthCheckLog_ScanSector 1 env1 = ((v1, n1, q1), env2)" by (metis prod.exhaust)
  have to: "(if q1 \<le> q0 then 0 else 1) XOR 1 \<in> {0, 1 :: u8}" by simp
  show ?thesis
    using run ring RollToSector_ring[OF _ to] RollToSector_ring[of 0]
    by (auto simp: HealthCheckLog_Init_def m s0 s1 Let_def split: prod.splits if_splits)
qed

lemma Append_ring:
  assumes run: "HealthCheckLog_Append ri anchor now result st env = (status, entry, st', env')"
    and ring: "activeSector st \<in> {0, 1}" "nextSlot st \<le> 102"
  shows "activeSector st' \<in> {0, 1} \<and> nextSlot st' \<le> 102"
proof -
  have advance: "st2 = st1\<lparr>nextSlot := nextSlot st1 + 1, nextSequence := nextSequence st1 + 1\<rparr>"
    if "healthCheckLog_WriteRecord r st1 e1 = (s, e, st2, e2)" for r st1 e1 s e st2 e2
    using that by (auto simp: healthCheckLog_WriteRecord_def Let_def split: prod.splits if_splits)
  obtain rolled st1 env2 where r: "healthCheckLog_RollToSector (activeSector st XOR 1) st (snd (xSemaphoreTake env)) = (rolled, st1, env2)"
    using prod_cases3 by blast
  note roll = RollToSector_ring[OF r opposite_sector(1)[OF ring(1)] ring]
  show ?thesis
    using run ring roll r
    by (auto simp: HealthCheckLog_Append_def Let_def dest!: advance split: prod.splits if_splits)
qed

lemma log_life_ring: "log_life st \<Longrightarrow> activeSector st \<in> {0, 1} \<and> nextSlot st \<le> 102"
proof (induction rule: log_life.induct)
  case static
  show ?case by (simp add: zero_log_def)
next
  case (boot st env status st' env')
  show ?case using Init_ring[OF boot(2)] boot.IH by simp
next
  case (append st resourceIndex anchor now result env status entry st' env')
  show ?case using Append_ring[OF append(3)] append.IH by simp
qed

text \<open>Writing a record adds it to what the log shows.\<close>

lemma Write_shown:
  assumes run: "healthCheckLog_WriteRecord record st env = (HEALTH_CHECK_STATUS_OK, entry, st', env')"
    and s: "activeSector st \<in> {0, 1}" and slot: "nextSlot st < 102"
    and new: "length (lr_reserved record) = 2" "record_used record" "record_intact record"
  shows "log_shown st' (cells env') = log_shown st (cells env) @ [record]" "entry = Some (log_entry record)"
proof -
  let ?s = "activeSector st" and ?n = "nextSlot st"
  note cases = WriteRecord_cases[OF run slot new(1)]
  have same: "cells env' i = cells env i" if "i < unat (healthCheckLog_SectorBase ?s) + ?n * 40 \<or>
      unat (healthCheckLog_SectorBase ?s) + ?n * 40 + 40 \<le> i" for i
    using cases(2) that unat_slot_address[OF slot] by (auto simp: touches_def)
  have "map (slot_record (cells env') ?s) [0..<?n] = map (slot_record (cells env) ?s) [0..<?n]"
    by (intro map_cong refl slot_record_cong same) auto
  note old = arg_cong[OF this, of "filter (\<lambda>r. record_used r \<and> record_intact r)"]
  have "\<forall>i<4096. cells env' (unat (healthCheckLog_SectorBase (?s XOR 1)) + i) = cells env (unat (healthCheckLog_SectorBase (?s XOR 1)) + i)"
    using log_sectors_apart[OF s] slot by (intro allI impI same) auto
  from used_slots_cong(2)[OF this] show "log_shown st' (cells env') = log_shown st (cells env) @ [record]"
    using cases(3) new(2,3) by (simp add: log_shown_def cases(1) old del: map_eq_conv)
  show "entry = Some (log_entry record)"
    using cases(3) by simp
qed

text \<open>Starting a freshly erased sector leaves what the other one shows.\<close>

lemma Roll_shown:
  assumes "healthCheckLog_RollToSector s st env = (True, st', env')" "s \<in> {0, 1}"
  shows "log_shown st' (cells env') = sector_log (cells env) (s XOR 1)"
proof -
  note roll = RollToSector_cases[OF assms(1)]
  have "\<forall>i<4096. cells env' (unat (healthCheckLog_SectorBase (s XOR 1)) + i) = cells env (unat (healthCheckLog_SectorBase (s XOR 1)) + i)"
    using log_sectors_apart[OF assms(2)] roll(1) by (auto simp: touches_def)
  from used_slots_cong(2)[OF this] show ?thesis
    using roll(4) by (simp add: log_shown_def)
qed

lemma Append_steps:
  assumes run: "HealthCheckLog_Append ri anchor now (Some result) st env = (status, entry, st', env')"
    and ring: "activeSector st \<in> {0, 1}" "nextSlot st \<le> 102"
  obtains (refused) "status = HEALTH_CHECK_STATUS_ERROR" "entry = None" "\<not> healthy env"
  | (written) st1 env1 where
      "healthCheckLog_WriteRecord (log_record (nextSequence st) ri anchor now result) st1 env1 = (status, entry, st', env')"
      "activeSector st1 \<in> {0, 1}" "nextSlot st1 < 102" "healthy env \<Longrightarrow> healthy env1"
      "log_shown st1 (cells env1) = (if nextSlot st < 102 then log_shown st (cells env) else sector_log (cells env) (activeSector st))"
      "slot_erased st (cells env) \<Longrightarrow> slot_erased st1 (cells env1)"
proof -
  obtain taken env1 where l: "xSemaphoreTake env = (taken, env1)" by fastforce
  note lock = xSemaphoreTake_frame[OF l]
  show thesis
  proof (cases "nextSlot st < 102")
    case True
    then show thesis
      using run refused written[of st env1] ring lock(1,3)
      by (auto simp: HealthCheckLog_Append_def l split: if_splits)
  next
    case False
    obtain rolled st1 env2 where r: "healthCheckLog_RollToSector (activeSector st XOR 1) st env1 = (rolled, st1, env2)"
      using prod_cases3 by blast
    note roll = RollToSector_cases[OF r]
    show thesis
    proof (cases "taken \<and> rolled")
      case True
      have st1: "st1 = st\<lparr>activeSector := activeSector st XOR 1, nextSlot := 0\<rparr>"
        "sector_blank (cells env2) (healthCheckLog_SectorBase (activeSector st XOR 1))"
        using roll(4) True by simp_all
      have "slot_erased st1 (cells env2)"
        using st1 by (simp add: slot_erased_def sector_blank_def)
      moreover have "log_shown st1 (cells env2) = sector_log (cells env) (activeSector st)"
        using Roll_shown[OF _ opposite_sector(1)[OF ring(1)], of st env1 st1 env2] r True lock(1) by simp
      moreover have "activeSector st1 \<in> {0, 1}" "nextSlot st1 < 102" "nextSequence st1 = nextSequence st"
        using st1(1) opposite_sector(1)[OF ring(1)] by simp_all
      ultimately show thesis
        using run True False r roll(2) lock(3)
        by (intro written[of st1 env2]) (auto simp: HealthCheckLog_Append_def l split: if_splits)
    next
      case fails: False
      then show thesis
        using run False roll(2) lock(3) r
        by (intro refused) (auto simp: HealthCheckLog_Append_def l split: if_splits)
    qed
  qed
qed

lemma Append_shown:
  assumes run: "HealthCheckLog_Append ri anchor now (Some result) st env = (status, entry, st', env')"
    and ring: "activeSector st \<in> {0, 1}" "nextSlot st \<le> 102" and sequence: "nextSequence st \<noteq> 0xFFFFFFFF"
    and r: "r = log_record (nextSequence st) ri anchor now result"
  shows "status = HEALTH_CHECK_STATUS_OK \<Longrightarrow> entry = Some (log_entry r)"
    "status = HEALTH_CHECK_STATUS_OK \<Longrightarrow> log_shown st' (cells env') =
       (if nextSlot st < 102 then log_shown st (cells env) else sector_log (cells env) (activeSector st)) @ [r]"
    "status \<noteq> HEALTH_CHECK_STATUS_OK \<Longrightarrow> entry = None"
    "healthy env \<Longrightarrow> slot_erased st (cells env) \<Longrightarrow> status = HEALTH_CHECK_STATUS_OK"
proof -
  have new: "length (lr_reserved r) = 2" "record_used r" "record_intact r"
    using sequence by (simp_all add: r record_used_def)
  have "(status = HEALTH_CHECK_STATUS_OK \<longrightarrow> entry = Some (log_entry r) \<and> log_shown st' (cells env') =
      (if nextSlot st < 102 then log_shown st (cells env) else sector_log (cells env) (activeSector st)) @ [r]) \<and>
    (status \<noteq> HEALTH_CHECK_STATUS_OK \<longrightarrow> entry = None) \<and>
    (healthy env \<longrightarrow> slot_erased st (cells env) \<longrightarrow> status = HEALTH_CHECK_STATUS_OK)"
    using run ring
  proof (cases rule: Append_steps)
    case refused
    then show ?thesis by simp
  next
    case (written st1 env1)
    note w = WriteRecord_cases[OF written(1)[folded r] written(3) new(1)]
    have erased: "\<forall>i<40. cells env1 (unat (slot_address (activeSector st1) (nextSlot st1)) + i) = 0xFF" if "slot_erased st (cells env)"
      using written(6)[OF that] written(3) by (simp add: slot_erased_def unat_slot_address)
    show ?thesis
      using Write_shown[OF _ written(2,3) new, of env1 entry st' env'] written(1,4,5) w(4,5) erased r by auto
  qed
  then show "status = HEALTH_CHECK_STATUS_OK \<Longrightarrow> entry = Some (log_entry r)"
    "status = HEALTH_CHECK_STATUS_OK \<Longrightarrow> log_shown st' (cells env') =
       (if nextSlot st < 102 then log_shown st (cells env) else sector_log (cells env) (activeSector st)) @ [r]"
    "status \<noteq> HEALTH_CHECK_STATUS_OK \<Longrightarrow> entry = None"
    "healthy env \<Longrightarrow> slot_erased st (cells env) \<Longrightarrow> status = HEALTH_CHECK_STATUS_OK"
    by blast+
qed

text \<open>What a restart shows, whatever the two sectors hold.\<close>

definition restart_log :: "(nat \<Rightarrow> u8) \<Rightarrow> healthCheckLog_RecordTypeDef list" where
  "restart_log c = (let s = newer_sector c in
     if length (used_slots c s) < 102 then sector_log c (s XOR 1) @ sector_log c s else sector_log c s)"

lemma Init_shown:
  assumes run: "HealthCheckLog_Init st0 env = (status, st', env')" and h: "healthy env"
  shows "log_shown st' (cells env') = restart_log (cells env)"
proof -
  let ?c = "cells env"
  define s where "s = newer_sector ?c"
  have s01: "s \<in> {0, 1}"
    by (simp add: s_def newer_sector_def)
  note cases = log_Init_cases[OF run h s_def]
  consider (none) "sector_log ?c 0 = [] \<and> sector_log ?c 1 = []"
    | (room) "\<not> (sector_log ?c 0 = [] \<and> sector_log ?c 1 = [])" "length (used_slots ?c s) < 102"
    | (full) "\<not> (sector_log ?c 0 = [] \<and> sector_log ?c 1 = [])" "\<not> length (used_slots ?c s) < 102"
    by blast
  then show ?thesis
  proof cases
    case none
    have "sector_log ?c s = []" "sector_log ?c (s XOR 1) = []"
      using none s01 by auto
    then show ?thesis
      using cases(3)[OF none] Roll_shown[of 0] none by (auto simp: restart_log_def Let_def simp flip: s_def)
  next
    case room
    then show ?thesis
      using cases(4)[OF room] readable_sector_log[of ?c s] by (simp add: restart_log_def Let_def log_shown_def flip: s_def)
  next
    case full
    then show ?thesis
      using cases(5)[OF full] Roll_shown[OF _ opposite_sector(1)[OF s01]] by (auto simp: restart_log_def Let_def simp flip: s_def)
  qed
qed

subsection \<open>Expiry arithmetic\<close>

lemma sint_small: "uint (w :: u32) < 2147483648 \<Longrightarrow> sint w = uint w"
  using order_trans[OF _ uint_ge_0[of w], of "- 2147483648"] signed_take_bit_int_eq_self[of 31 "uint w"] by (simp add: sint_uint)

lemma sint_minus_small:
  assumes "uint (w :: u32) < 2147483648"
  shows "sint (- w) = - uint w"
proof -
  have "- w = word_of_int (- uint w)"
    by simp
  then have "sint (- w) = signed_take_bit 31 (- uint w)"
    using signed_of_int[of "- uint w", where 'b = 32 and 'a = int] by simp
  then show ?thesis
    using assms uint_ge_0[of w] signed_take_bit_int_eq_self[of 31 "- uint w"] by (simp del: uint_ge_0)
qed

lemma overdue_days:
  fixes overdue :: u32
  shows "uint (ucast ((ucast overdue + 86399 :: u64) div 86400) :: u32) = (uint overdue + 86399) div 86400"
proof -
  have less: "uint overdue < 4294967296"
    using uint_bounded[of overdue] by simp
  have "uint (ucast overdue :: u64) = uint overdue"
    using less by (simp add: unsigned_ucast_eq take_bit_int_eq_self)
  then have "uint (ucast overdue + 86399 :: u64) = uint overdue + 86399"
    using less by (simp add: uint_word_ariths)
  then have "uint ((ucast overdue + 86399 :: u64) div 86400) = (uint overdue + 86399) div 86400"
    by (simp add: uint_div)
  moreover have "(uint overdue + 86399) div 86400 < 4294967296"
    using less by (simp add: div_less_iff_less_mult)
  ultimately show ?thesis
    using uint_ge_0[of overdue] by (simp add: unsigned_ucast_eq take_bit_int_eq_self pos_imp_zdiv_nonneg_iff)
qed

lemma ceiling_floor: "- ((a + 86399) div 86400) = - a div (86400 :: int)"
proof -
  define q where "q = (a + 86399) div 86400"
  have "86400 * q \<le> a + 86399" "a + 86399 < 86400 * q + 86400"
    unfolding q_def using div_mult_mod_eq[of "a + 86399" 86400] pos_mod_bound[of 86400 "a + 86399"]
      pos_mod_sign[of 86400 "a + 86399"] by linarith+
  then have "- a div 86400 = - q"
    by (intro int_div_pos_eq[of _ _ _ "86400 * q - a"]) simp_all
  then show ?thesis
    by (simp add: q_def)
qed

lemma days_bound: "x < 4295053696 \<Longrightarrow> x div 86400 < (2147483648 :: int)"
  by (simp add: div_less_iff_less_mult)

lemma certificate_fields_days:
  "sint (fst (certificate_fields expiresAt now)) =
     (if expiresAt = 0 then 0 else (uint expiresAt - uint now) div 86400)"
  "snd (certificate_fields expiresAt now) \<noteq> 0 \<longleftrightarrow>
     expiresAt \<noteq> 0 \<and> uint now < uint expiresAt \<and> uint expiresAt - uint now < 864000"
proof -
  have diff: "uint (a - b) = uint a - uint b" if "b \<le> a" for a b :: u32
    using that uint_minus_simple_alt by blast
  have bound: "uint w < 4294967296" "0 \<le> uint w" for w :: u32
    using uint_bounded[of w] by simp_all
  show "sint (fst (certificate_fields expiresAt now)) =
     (if expiresAt = 0 then 0 else (uint expiresAt - uint now) div 86400)"
  proof (cases "expiresAt \<le> now")
    case True
    let ?d = "ucast ((ucast (now - expiresAt) + 86399 :: u64) div 86400) :: u32"
    have d: "uint ?d = (uint now - uint expiresAt + 86399) div 86400"
      using overdue_days[of "now - expiresAt"] diff[OF True] by simp
    moreover have "uint ?d < 2147483648"
      unfolding d by (rule days_bound) (use bound[of now] bound[of expiresAt] in linarith)
    ultimately have "sint (- ?d) = - (uint now - uint expiresAt) div 86400"
      using sint_minus_small[of ?d] ceiling_floor[of "uint now - uint expiresAt"] by simp
    then show ?thesis
      using True by (simp add: certificate_fields_def Let_def)
  next
    case False
    then have le: "now \<le> expiresAt"
      by simp
    have d: "uint ((expiresAt - now) div 86400) = (uint expiresAt - uint now) div 86400"
      using diff[OF le] by (simp add: uint_div)
    moreover have "uint ((expiresAt - now) div 86400) < 2147483648"
      unfolding d by (rule days_bound) (use bound[of now] bound[of expiresAt] in linarith)
    ultimately show ?thesis
      using False sint_small[of "(expiresAt - now) div 86400"] by (auto simp: certificate_fields_def Let_def)
  qed
  show "snd (certificate_fields expiresAt now) \<noteq> 0 \<longleftrightarrow>
     expiresAt \<noteq> 0 \<and> uint now < uint expiresAt \<and> uint expiresAt - uint now < 864000"
    using diff[of now expiresAt] by (auto simp: certificate_fields_def Let_def word_less_def word_le_def not_le)
qed

subsection \<open>Sample logs\<close>

definition log_first :: "HealthCheckLog_State \<times> env" where
  "log_first = snd (HealthCheckLog_Init zero_log blank_env)"

lemma log_first_reach:
  "log_reach (fst log_first) (cells (snd log_first))" "healthy (snd log_first)"
  "nextSequence (fst log_first) = 1" "log_view (fst log_first) (cells (snd log_first)) = []" "nextSlot (fst log_first) = 0"
  "log_life (fst log_first)"
proof -
  obtain s st env where run: "HealthCheckLog_Init zero_log blank_env = (s, st, env)"
    using prod_cases3 by blast
  note cases = log_Init_cases[OF run healthy_blank refl]
  have first: "fst log_first = st" "snd log_first = env"
    by (simp_all add: log_first_def run)
  show "log_reach (fst log_first) (cells (snd log_first))"
    using log_reach.boot[of blank_env zero_log st env] run cases(1) first by simp
  show "healthy (snd log_first)" "log_view (fst log_first) (cells (snd log_first)) = []"
    using cases(2) log_boot(2)[OF run] first by simp_all
  show "log_life (fst log_first)"
    using log_life.boot[OF log_life.static run] first by simp
  have "used_slots (cells blank_env) s = []" for s
    by (rule used_slots_blank) simp
  then obtain env2 where "healthCheckLog_RollToSector 0 (zero_log\<lparr>logMutex := True, nextSequence := 1\<rparr>) env2 = (True, st, env)"
    using cases(3) by (auto simp: sector_log_def)
  from RollToSector_cases(4)[OF this] show "nextSequence (fst log_first) = 1" "nextSlot (fst log_first) = 0"
    using first by simp_all
qed

definition log_second :: "HealthCheckLog_State \<times> env" where
  "log_second = (let (s, e, st, env) = HealthCheckLog_Append 2 1 1000 (Some zero_result) (fst log_first) (snd log_first)
     in (st, env\<lparr>events := [quiet_event, quiet_event\<lparr>ev_ok := False\<rparr>]\<rparr>))"

lemma log_second_facts:
  "log_reach (fst log_second) (cells (snd log_second))" "nextSlot (fst log_second) = 1"
  "sector_log (cells (snd log_second)) (activeSector (fst log_second)) \<noteq> []"
  "healthy (snd log_second\<lparr>events := []\<rparr>)"
  "log_life (fst log_second)"
  "log_view (fst log_second) (cells (snd log_second)) = [log_record 1 2 1 1000 zero_result]"
  "nextSequence (fst log_second) = 2"
proof -
  obtain s e st env where run: "HealthCheckLog_Append 2 1 1000 (Some zero_result) (fst log_first) (snd log_first) = (s, e, st, env)"
    using prod_cases4 by blast
  have inv: "log_inv (fst log_first) (cells (snd log_first))"
    using log_reach_inv[OF log_first_reach(1)] .
  have ok: "s = HEALTH_CHECK_STATUS_OK"
    using Append_healthy[OF run inv log_first_reach(2)] .
  have base: "append_base (fst log_first) = fst log_first"
    by (simp add: append_base_def log_first_reach)
  have second: "fst log_second = st" "cells (snd log_second) = cells env" "snd log_second\<lparr>events := []\<rparr> = env\<lparr>events := []\<rparr>"
    by (simp_all add: log_second_def run)
  show reach: "log_reach (fst log_second) (cells (snd log_second))"
    using log_reach.append[OF log_first_reach(1)] run ok second log_first_reach(3) by simp
  have "nextSlot st = 1 \<and> slot_record (cells env) (activeSector st) 0 = log_record 1 2 1 1000 zero_result \<and> healthy env"
    using run inv
  proof (cases rule: Append_cases)
    case refused
    with log_first_reach(2) show ?thesis by simp
  next
    case (written env1)
    note cases = WriteRecord_cases[OF written(5)[unfolded base]]
    show ?thesis
      using cases(1,3) touches_healthy[OF cases(2)] written(4) ok by (simp add: log_first_reach)
  qed
  then have st: "nextSlot st = 1" "slot_record (cells env) (activeSector st) 0 = log_record 1 2 1 1000 zero_result" "healthy env"
    by simp_all
  show "nextSlot (fst log_second) = 1" "healthy (snd log_second\<lparr>events := []\<rparr>)"
    using st second by (simp_all add: healthy_def)
  show "nextSequence (fst log_second) = 2"
    using Append_ok(4)[OF _ inv] run ok log_first_reach second by simp
  show "log_life (fst log_second)"
    using log_life.append[OF log_first_reach(6) _ run] log_reach_inv[OF log_first_reach(1)] second(1) by (simp add: log_inv_def)
  show "log_view (fst log_second) (cells (snd log_second)) = [log_record 1 2 1 1000 zero_result]"
    using Append_ok(2)[OF _ inv] run ok log_first_reach second by simp
  show "sector_log (cells (snd log_second)) (activeSector (fst log_second)) \<noteq> []"
    using log_inv_used[OF log_reach_inv[OF reach]] st(1,2) second by (simp add: sector_log_def)
qed

subsection \<open>Properties\<close>







text \<open>C36: The certificate fields of a record: without an expiry time they are zero, otherwise
  the days left are the difference to the check time in days, rounded down (and so negative
  once the certificate has expired), and the expiring flag is set exactly when the
  certificate is still valid for less than ten days.\<close>

theorem log_days_left:
  "sint (lr_certificateDaysLeft (log_record sequence resourceIndex anchor now result)) =
     (if res_certificateExpiresAt result = 0 then 0
      else (uint (res_certificateExpiresAt result) - uint now) div 86400) \<and>
   (lr_certificateExpiring (log_record sequence resourceIndex anchor now result) \<noteq> 0) =
     (res_certificateExpiresAt result \<noteq> 0 \<and> uint now < uint (res_certificateExpiresAt result) \<and>
      uint (res_certificateExpiresAt result) - uint now < 864000)"
  using certificate_fields_days[of "res_certificateExpiresAt result" now]
  by (simp add: log_record_def Let_def case_prod_unfold)

subsection \<open>A slot left erased\<close>

lemma used_slots_stop:
  assumes "n < 102" "\<forall>i<n. record_used (slot_record c s i)" "\<not> record_used (slot_record c s n)"
  shows "used_slots c s = map (slot_record c s) [0..<n]"
  unfolding used_slots_def using assms by (intro takeWhile_upt[of n 102 record_used]) auto

text \<open>What a sector shows when the record after an erased slot was written.\<close>

lemma hole_hides:
  assumes inv: "log_inv st c" and slot: "nextSlot st + 1 < 102"
    and same: "\<And>i. i < unat (healthCheckLog_SectorBase (activeSector st)) + (nextSlot st + 1) * 40 \<or>
      unat (healthCheckLog_SectorBase (activeSector st)) + (nextSlot st + 1) * 40 + 40 \<le> i \<Longrightarrow> c' i = c i"
  shows "used_slots c' (activeSector st) = used_slots c (activeSector st)" "sector_log c' s = sector_log c s \<or> s \<notin> {0, 1}"
proof -
  let ?s = "activeSector st" and ?n = "nextSlot st"
  have s: "?s \<in> {0, 1}"
    using inv by (simp add: log_inv_def)
  have old: "slot_record c' ?s i = slot_record c ?s i" if "i \<le> ?n" for i
    using that by (intro slot_record_cong same) simp
  have "\<not> record_used (slot_record c ?s ?n)"
    using inv slot by (intro slot_record_blank) (simp add: log_inv_def add.assoc)
  then have "used_slots c' ?s = map (slot_record c' ?s) [0..<?n]"
    using inv slot old by (intro used_slots_stop) (simp_all add: log_inv_def)
  then show active: "used_slots c' ?s = used_slots c ?s"
    using old by (simp add: log_inv_used[OF inv])
  have "\<forall>i<4096. c' (unat (healthCheckLog_SectorBase (?s XOR 1)) + i) = c (unat (healthCheckLog_SectorBase (?s XOR 1)) + i)"
    using log_sectors_apart[OF s] slot by (intro allI impI same) auto
  from used_slots_cong(2)[OF this] show "sector_log c' s = sector_log c s \<or> s \<notin> {0, 1}"
    using active s by (auto simp: sector_log_def)
qed

text \<open>C37: An append that fails without touching its slot leaves an erased slot behind, and a
  later append that succeeds is lost at the next restart: the scan stops at the erased slot,
  and the log is the one before both appends.\<close>

theorem log_hole_loses_record:
  assumes "log_reach st (cells env)" "nextSlot st + 1 < 102" "sector_log (cells env) (activeSector st) \<noteq> []"
    and "HealthCheckLog_Append i1 a1 t1 (Some r1) st env = (HEALTH_CHECK_STATUS_ERROR, e1, st1, env1)"
    and "st1 \<noteq> st" "cells env1 = cells env"
    and "HealthCheckLog_Append i2 a2 t2 (Some r2) st1 env1 = (HEALTH_CHECK_STATUS_OK, e2, st2, env2)"
    and "cells env3 = cells env2" "healthy env3" "HealthCheckLog_Init st0 env3 = (status, st', env')"
  shows "log_view st' (cells env') = log_view st (cells env) \<and> nextSlot st' = nextSlot st"
proof -
  let ?c = "cells env" and ?s = "activeSector st"
  have inv: "log_inv st ?c"
    using log_reach_inv[OF assms(1)] .
  have st1: "st1 = st\<lparr>nextSlot := nextSlot st + 1, nextSequence := nextSequence st + 1\<rparr>"
    using assms(4) inv
  proof (cases rule: Append_cases)
    case refused
    with assms(5) show ?thesis by simp
  next
    case (written envw)
    then show ?thesis
      using WriteRecord_cases(1)[OF written(5) append_base_fields(2)] assms(2) by (simp add: append_base_def)
  qed
  obtain taken envt where l: "xSemaphoreTake env1 = (taken, envt)" by fastforce
  have w: "healthCheckLog_WriteRecord (log_record (nextSequence st1) i2 a2 t2 r2) st1 envt = (HEALTH_CHECK_STATUS_OK, e2, st2, env2)"
    using assms(2,7) l by (auto simp: HealthCheckLog_Append_def st1 split: if_splits)
  have same: "cells env3 i = ?c i" if "i < unat (healthCheckLog_SectorBase ?s) + (nextSlot st + 1) * 40 \<or>
      unat (healthCheckLog_SectorBase ?s) + (nextSlot st + 1) * 40 + 40 \<le> i" for i
  proof -
    have "touches (unat (slot_address ?s (nextSlot st + 1))) 40 envt env2"
      using WriteRecord_cases(2)[OF w] assms(2) by (simp add: st1)
    then show ?thesis
      using that xSemaphoreTake_frame(1)[OF l] assms(6,8) unat_slot_address[OF assms(2), of ?s] by (auto simp: touches_def)
  qed
  note hides = hole_hides[OF inv assms(2) same]
  have s: "?s \<in> {0, 1}"
    using inv by (simp add: log_inv_def)
  have logs: "sector_log (cells env3) s = sector_log ?c s" if "s \<in> {0, 1}" for s
    using hides(2)[of s] that by blast
  have newer: "newer_sector (cells env3) = ?s"
    using newer_is_active[OF inv assms(3)] logs by (simp add: newer_sector_def)
  have used: "length (used_slots (cells env3) ?s) = nextSlot st"
    using hides(1) log_inv_used[OF inv] by simp
  have "sector_log (cells env3) ?s \<noteq> []"
    using logs[OF s] assms(3) by simp
  then have "cells env' = cells env3 \<and> st' = st0\<lparr>logMutex := True, activeSector := ?s, nextSlot := nextSlot st,
      nextSequence := last_sequence (sector_log (cells env3) ?s) + 1\<rparr>"
    using log_Init_cases(4)[OF assms(10,9) refl, unfolded newer used] assms(2) s by auto
  then show ?thesis
    using logs[OF s] logs[OF opposite_sector(1)[OF s]] by (simp add: log_view_def)
qed

theorem log_hole_loses_record_witness:
  "let (s1, e1, st1, env1) = HealthCheckLog_Append 0 1 2000 (Some zero_result) (fst log_second) (snd log_second);
       (s2, e2, st2, env2) = HealthCheckLog_Append 0 1 3000 (Some zero_result) st1 env1;
       (s3, st', env') = HealthCheckLog_Init zero_log env2
   in s1 = HEALTH_CHECK_STATUS_ERROR \<and> s2 = HEALTH_CHECK_STATUS_OK \<and>
     log_view st' (cells env') = log_view (fst log_second) (cells (snd log_second))"
proof -
  let ?st = "fst log_second" and ?env = "snd log_second"
  obtain s1 e1 st1 env1 where a1: "HealthCheckLog_Append 0 1 2000 (Some zero_result) ?st ?env = (s1, e1, st1, env1)"
    using prod_cases4 by blast
  obtain s2 e2 st2 env2 where a2: "HealthCheckLog_Append 0 1 3000 (Some zero_result) st1 env1 = (s2, e2, st2, env2)"
    using prod_cases4 by blast
  obtain s3 st' env' where i: "HealthCheckLog_Init zero_log env2 = (s3, st', env')"
    using prod_cases3 by blast
  have ev: "events ?env = [quiet_event, quiet_event\<lparr>ev_ok := False\<rparr>]"
    by (simp add: log_second_def case_prod_unfold Let_def)
  have lock: "xSemaphoreTake ?env = (True, ?env\<lparr>events := [quiet_event\<lparr>ev_ok := False\<rparr>]\<rparr>)"
    by (simp add: xSemaphoreTake_def pop_event_def ev quiet_event_def)
  let ?r = "log_record (nextSequence ?st) 0 1 2000 zero_result" and ?e = "?env\<lparr>events := [quiet_event\<lparr>ev_ok := False\<rparr>]\<rparr>"
  have "w25q64_IsRangeValid (slot_address (activeSector ?st) 1) 40"
    using unat_slot_address[of 1 "activeSector ?st"] log_sector(2)[of "activeSector ?st"] by (simp add: IsRangeValid_iff)
  then have program: "fst (W25Q64_Program (slot_address (activeSector ?st) 1) (Some (put_log ?r)) ?e) \<noteq> W25Q64_STATUS_OK"
    "snd (W25Q64_Program (slot_address (activeSector ?st) 1) (Some (put_log ?r)) ?e) = ?env\<lparr>events := []\<rparr>"
    using log_second_facts(4)
    by (simp_all add: W25Q64_Program_def take_flash_def xSemaphoreTake_def pop_event_def quiet_event_def healthy_def)
  have failed: "s1 = HEALTH_CHECK_STATUS_ERROR" "st1 = ?st\<lparr>nextSlot := 2, nextSequence := nextSequence ?st + 1\<rparr>" "env1 = ?env\<lparr>events := []\<rparr>"
    using a1 program log_second_facts(2)
    by (auto simp: HealthCheckLog_Append_def healthCheckLog_WriteRecord_def lock Let_def case_prod_unfold split: if_splits)
  have h1: "healthy env1"
    using failed(3) log_second_facts(4) by simp
  obtain envt where l: "xSemaphoreTake env1 = (True, envt)" "healthy envt" "touches 0 0 env1 envt"
    using xSemaphoreTake_healthy[OF h1] by blast
  have cells: "cells envt = cells ?env"
    using touches_nothing(2)[OF l(3)] failed(3) by simp
  have w: "healthCheckLog_WriteRecord (log_record (nextSequence st1) 0 1 3000 zero_result) st1 envt = (s2, e2, st2, env2)"
    using a2 l(1) failed(2) by (simp add: HealthCheckLog_Append_def)
  have "\<forall>i<40. cells envt (unat (slot_address (activeSector st1) (nextSlot st1)) + i) = 0xFF"
    using log_reach_inv[OF log_second_facts(1)] log_second_facts(2) unat_slot_address[of 2 "activeSector ?st"]
    by (simp add: failed(2) cells log_inv_def add.assoc)
  then have s2: "s2 = HEALTH_CHECK_STATUS_OK"
    using WriteRecord_cases(5)[OF w] l(2) failed(2) by simp
  have "healthy env2"
    using touches_healthy[OF WriteRecord_cases(2)[OF w]] l(2) failed(2) by simp
  moreover have "st1 \<noteq> ?st"
    using failed(2) log_second_facts(2) by (metis HealthCheckLog_State.select_convs(2) HealthCheckLog_State.surjective HealthCheckLog_State.update_convs(2,3) num.distinct(1) one_eq_numeral_iff)
  ultimately have "log_view st' (cells env') = log_view ?st (cells ?env)"
    using log_hole_loses_record[OF log_second_facts(1) _ log_second_facts(3) a1[unfolded failed(1)] _ _ a2[unfolded s2] refl _ i]
      failed(3) log_second_facts(2) by simp
  then show ?thesis
    unfolding a1 a2 i Let_def prod.case using failed(1) s2 by simp
qed

end
