(* ===== verification/Auth_Service.thy ===== *)
theory Auth_Service
  imports User_Store Tls_Platform Time_Service
begin

text \<open>
  \<open>Srv/Src/auth_service.c\<close>: password verification, bearer sessions and user management.
  The state is the session table and, below it, the user store.  The key derivation and the
  hash belong to the cryptographic library and are the record \<open>auth_crypto\<close>; random
  bytes and the crypto lock come from \<open>Tls_Platform\<close>, the clock from
  \<open>Time_Service\<close>.  Roles are kept as the byte the code stores.
\<close>

subsection \<open>Types\<close>

datatype AuthService_StatusTypeDef =
    AUTH_SERVICE_STATUS_OK
  | AUTH_SERVICE_STATUS_INVALID_PASSWORD
  | AUTH_SERVICE_STATUS_INVALID_ARGUMENT
  | AUTH_SERVICE_STATUS_CRYPTO_ERROR
  | AUTH_SERVICE_STATUS_NOT_FOUND
  | AUTH_SERVICE_STATUS_FORBIDDEN
  | AUTH_SERVICE_STATUS_STORAGE_ERROR

record AuthService_TokenPairTypeDef =
  t_accessToken :: string
  t_refreshToken :: string
  t_accessExpiresIn :: u32
  t_refreshExpiresIn :: u32

record AuthService_PrincipalTypeDef =
  p_username :: string
  p_role :: u8

record AuthService_SessionTypeDef =
  s_active :: u8
  s_role :: u8
  s_username :: string
  s_accessDigest :: "u8 list"
  s_refreshDigest :: "u8 list"
  s_accessIssuedAt :: u32
  s_refreshIssuedAt :: u32

record AuthService_State =
  sessions :: "AuthService_SessionTypeDef list"
  au_users :: UserStore_State

record auth_crypto =
  mbedtls_pkcs5_pbkdf2_hmac_ext :: "u8 list \<Rightarrow> u8 list \<Rightarrow> u32 \<Rightarrow> int \<times> u8 list"
  mbedtls_sha256 :: "u8 list \<Rightarrow> int \<times> u8 list"

definition zero_session :: AuthService_SessionTypeDef where
  "zero_session = \<lparr>s_active = 0, s_role = 0, s_username = memset_chars 25, s_accessDigest = replicate 32 0,
     s_refreshDigest = replicate 32 0, s_accessIssuedAt = 0, s_refreshIssuedAt = 0\<rparr>"

definition zero_tokens :: AuthService_TokenPairTypeDef where
  "zero_tokens = \<lparr>t_accessToken = memset_chars 65, t_refreshToken = memset_chars 65, t_accessExpiresIn = 0, t_refreshExpiresIn = 0\<rparr>"

subsection \<open>The master password\<close>

definition MASTER_PASSWORD_PBKDF2_ITERATIONS :: u32 where
  "MASTER_PASSWORD_PBKDF2_ITERATIONS = 100000"

definition masterPasswordSalt :: "u8 list" where
  "masterPasswordSalt = [0x1A, 0x5F, 0x0F, 0x46, 0x20, 0xA7, 0x35, 0x14, 0x88, 0x21, 0xB6, 0x29, 0x93, 0x36, 0x94, 0xD5]"

definition masterPasswordVerifier :: "u8 list" where
  "masterPasswordVerifier =
     [0x1A, 0xE4, 0x1B, 0x9F, 0x34, 0x97, 0x71, 0x88, 0xDA, 0xFD, 0x59, 0xC3, 0xC0, 0xAC, 0x56, 0xC5,
      0x44, 0xA1, 0x1A, 0x73, 0x93, 0x40, 0x6D, 0xCB, 0xC1, 0xC0, 0xD4, 0xF2, 0x5A, 0x98, 0x79, 0x8A]"

definition authService_DummySalt :: "u8 list" where
  "authService_DummySalt = [0x8E, 0xC5, 0x31, 0xA9, 0x44, 0x76, 0xD2, 0x0B, 0xF3, 0x18, 0x65, 0x9C, 0x27, 0xBA, 0x50, 0xDE]"

subsection \<open>Helpers\<close>

definition authService_IsAdministrator :: "AuthService_PrincipalTypeDef option \<Rightarrow> bool" where
  "authService_IsAdministrator actor \<longleftrightarrow>
     actor \<noteq> None \<and> p_role (the actor) = role_code USER_ROLE_ADMINISTRATOR"

definition authService_Derive ::
  "auth_crypto \<Rightarrow> TlsPlatform_State \<Rightarrow> u8 list \<Rightarrow> u8 list \<Rightarrow> u32 \<Rightarrow> env \<Rightarrow> AuthService_StatusTypeDef \<times> u8 list \<times> env" where
  "authService_Derive crypto ps password salt iterations env =
     (let (lock, env1) = TlsPlatform_Lock ps env in
      if lock \<noteq> HEALTH_CHECK_STATUS_OK then (AUTH_SERVICE_STATUS_CRYPTO_ERROR, [], env1)
      else
        let (result, verifier) = mbedtls_pkcs5_pbkdf2_hmac_ext crypto password salt iterations
        in (if result = 0 then AUTH_SERVICE_STATUS_OK else AUTH_SERVICE_STATUS_CRYPTO_ERROR, verifier, env1))"

definition authService_Hex :: "u8 list \<Rightarrow> string" where
  "authService_Hex input =
     concat (map (\<lambda>b. [''0123456789abcdef'' ! unat (drop_bit 4 b), ''0123456789abcdef'' ! unat (b AND 0x0F)]) input) @ [CHR 0x00]"

definition authService_HashToken :: "auth_crypto \<Rightarrow> string \<Rightarrow> HealthCheck_StatusTypeDef \<times> u8 list" where
  "authService_HashToken crypto token =
     (let (result, digest) = mbedtls_sha256 crypto (put_chars (c_str token))
      in (if result = 0 then HEALTH_CHECK_STATUS_OK else HEALTH_CHECK_STATUS_ERROR, digest))"

text \<open>A search loop over the session table.\<close>

fun first_session :: "(AuthService_SessionTypeDef \<Rightarrow> bool) \<Rightarrow> AuthService_SessionTypeDef list \<Rightarrow> nat option" where
  "first_session p [] = None"
| "first_session p (s # ss) = (if p s then Some 0 else map_option Suc (first_session p ss))"

definition session_of :: "string \<Rightarrow> AuthService_SessionTypeDef \<Rightarrow> bool" where
  "session_of username s \<longleftrightarrow> s_active s \<noteq> 0 \<and> c_str (s_username s) = c_str username"

definition authService_FindSession :: "string \<Rightarrow> AuthService_SessionTypeDef list \<Rightarrow> nat option" where
  "authService_FindSession username ss =
     (case first_session (session_of username) ss of
        Some index \<Rightarrow> Some index
      | None \<Rightarrow> first_session (\<lambda>s. s_active s = 0) ss)"

definition authService_Issue ::
  "auth_crypto \<Rightarrow> TlsPlatform_State \<Rightarrow> string \<Rightarrow> u8 \<Rightarrow> AuthService_TokenPairTypeDef \<Rightarrow> AuthService_State \<Rightarrow> env \<Rightarrow>
   AuthService_StatusTypeDef \<times> AuthService_TokenPairTypeDef \<times> AuthService_State \<times> env" where
  "authService_Issue crypto ps username role tokens st env =
     (let (r1, access, env1) = TlsPlatform_Random 32 ps env in
      if r1 \<noteq> HEALTH_CHECK_STATUS_OK then (AUTH_SERVICE_STATUS_CRYPTO_ERROR, tokens, st, env1)
      else
        let (r2, refresh, env2) = TlsPlatform_Random 32 ps env1 in
        if r2 \<noteq> HEALTH_CHECK_STATUS_OK then (AUTH_SERVICE_STATUS_CRYPTO_ERROR, tokens, st, env2)
        else
          let tokens = tokens\<lparr>t_accessToken := authService_Hex access, t_refreshToken := authService_Hex refresh\<rparr>;
              (h1, accessDigest) = authService_HashToken crypto (t_accessToken tokens);
              (h2, refreshDigest) = authService_HashToken crypto (t_refreshToken tokens) in
          if h1 \<noteq> HEALTH_CHECK_STATUS_OK \<or> h2 \<noteq> HEALTH_CHECK_STATUS_OK
          then (AUTH_SERVICE_STATUS_CRYPTO_ERROR, zero_tokens, st, env2)
          else
            case authService_FindSession username (sessions st) of
              None \<Rightarrow> (AUTH_SERVICE_STATUS_CRYPTO_ERROR, zero_tokens, st, env2)
            | Some index \<Rightarrow>
                let now = TimeService_GetUptimeMs env2;
                    session = zero_session\<lparr>s_active := 1, s_role := role,
                      s_username := strncpy (s_username zero_session) username 24, s_accessDigest := accessDigest,
                      s_refreshDigest := refreshDigest, s_accessIssuedAt := now, s_refreshIssuedAt := now\<rparr>
                in (AUTH_SERVICE_STATUS_OK, tokens\<lparr>t_accessExpiresIn := 900, t_refreshExpiresIn := 604800\<rparr>,
                    st\<lparr>sessions := (sessions st)[index := session]\<rparr>, env2))"

subsection \<open>Sessions\<close>

definition AuthService_Init :: "AuthService_State \<Rightarrow> env \<Rightarrow> AuthService_StatusTypeDef \<times> AuthService_State \<times> env" where
  "AuthService_Init st env =
     (let (created, env1) = xSemaphoreCreateMutexStatic env in
      if \<not> created then (AUTH_SERVICE_STATUS_STORAGE_ERROR, st, env1)
      else
        let (s, users, env2) = UserStore_Init (au_users st) env1 in
        if s \<noteq> HEALTH_CHECK_STATUS_OK then (AUTH_SERVICE_STATUS_STORAGE_ERROR, st\<lparr>au_users := users\<rparr>, env2)
        else (AUTH_SERVICE_STATUS_OK, st\<lparr>au_users := users, sessions := replicate 9 zero_session\<rparr>, env2))"

definition AuthService_VerifyMasterPassword ::
  "auth_crypto \<Rightarrow> TlsPlatform_State \<Rightarrow> u8 list option \<Rightarrow> env \<Rightarrow> AuthService_StatusTypeDef \<times> env" where
  "AuthService_VerifyMasterPassword crypto ps password env =
     (if password = None \<or> length (the password) = 0 \<or> length (the password) > 128
      then (AUTH_SERVICE_STATUS_INVALID_ARGUMENT, env)
      else
        let (status, derivedVerifier, env1) =
              authService_Derive crypto ps (the password) masterPasswordSalt MASTER_PASSWORD_PBKDF2_ITERATIONS env
        in (if status = AUTH_SERVICE_STATUS_OK
            then if derivedVerifier = masterPasswordVerifier then AUTH_SERVICE_STATUS_OK else AUTH_SERVICE_STATUS_INVALID_PASSWORD
            else status, env1))"

text \<open>The password check of a stored user, first half of \<open>AuthService_Login\<close>.\<close>

definition login_user ::
  "auth_crypto \<Rightarrow> TlsPlatform_State \<Rightarrow> string \<Rightarrow> u8 list \<Rightarrow> AuthService_State \<Rightarrow> env \<Rightarrow> AuthService_StatusTypeDef \<times> u8 \<times> env" where
  "login_user crypto ps username password st env =
     (let (findStatus, result, env1) = UserStore_Find (Some username) (au_users st) env;
          found = (findStatus = HEALTH_CHECK_STATUS_OK);
          record = fst (the result);
          enabled = (found \<and> u_enabled record \<noteq> 0);
          salt = (if found then u_salt record else authService_DummySalt);
          iterations = (if found then u_iterations record else 100000);
          (status, verifier, env2) = authService_Derive crypto ps password salt iterations env1;
          status = (if status = AUTH_SERVICE_STATUS_OK \<and> enabled
                    then if verifier = u_verifier record then AUTH_SERVICE_STATUS_OK else AUTH_SERVICE_STATUS_INVALID_PASSWORD
                    else if status = AUTH_SERVICE_STATUS_OK then AUTH_SERVICE_STATUS_INVALID_PASSWORD
                    else status)
      in (status, if enabled then u_role record else role_code USER_ROLE_ADMINISTRATOR, env2))"

definition AuthService_Login ::
  "auth_crypto \<Rightarrow> TlsPlatform_State \<Rightarrow> string option \<Rightarrow> u8 list option \<Rightarrow> AuthService_TokenPairTypeDef \<Rightarrow>
   AuthService_State \<Rightarrow> env \<Rightarrow> AuthService_StatusTypeDef \<times> AuthService_TokenPairTypeDef \<times> AuthService_State \<times> env" where
  "AuthService_Login crypto ps username password tokens st env =
     (if username = None \<or> password = None then (AUTH_SERVICE_STATUS_INVALID_ARGUMENT, tokens, st, env)
      else
        let (status, role, env1) =
              (if c_str (the username) = ''master''
               then let (status, env1) = AuthService_VerifyMasterPassword crypto ps password env
                    in (status, role_code USER_ROLE_ADMINISTRATOR, env1)
               else login_user crypto ps (the username) (the password) st env) in
        if status \<noteq> AUTH_SERVICE_STATUS_OK then (status, tokens, st, env1)
        else
          let (taken, env2) = xSemaphoreTake env1 in
          if \<not> taken then (AUTH_SERVICE_STATUS_CRYPTO_ERROR, tokens, st, env2)
          else authService_Issue crypto ps (the username) role tokens st env2)"

definition refresh_matches :: "u32 \<Rightarrow> u8 list \<Rightarrow> AuthService_SessionTypeDef \<Rightarrow> bool" where
  "refresh_matches now digest s \<longleftrightarrow>
     s_active s \<noteq> 0 \<and> now - s_refreshIssuedAt s \<le> 604800 * 1000 \<and> digest = s_refreshDigest s"

definition AuthService_Refresh ::
  "auth_crypto \<Rightarrow> TlsPlatform_State \<Rightarrow> string option \<Rightarrow> AuthService_TokenPairTypeDef \<Rightarrow> AuthService_State \<Rightarrow> env \<Rightarrow>
   AuthService_StatusTypeDef \<times> AuthService_TokenPairTypeDef \<times> AuthService_State \<times> env" where
  "AuthService_Refresh crypto ps refreshToken tokens st env =
     (if refreshToken = None \<or> length (c_str (the refreshToken)) \<noteq> 64
      then (AUTH_SERVICE_STATUS_INVALID_ARGUMENT, tokens, st, env)
      else
        let (h, digest) = authService_HashToken crypto (the refreshToken) in
        if h \<noteq> HEALTH_CHECK_STATUS_OK then (AUTH_SERVICE_STATUS_CRYPTO_ERROR, tokens, st, env)
        else
          let (taken, env1) = xSemaphoreTake env in
          if \<not> taken then (AUTH_SERVICE_STATUS_CRYPTO_ERROR, tokens, st, env1)
          else
            case first_session (refresh_matches (TimeService_GetUptimeMs env1) digest) (sessions st) of
              None \<Rightarrow> (AUTH_SERVICE_STATUS_INVALID_PASSWORD, tokens, st, env1)
            | Some index \<Rightarrow>
                let session = sessions st ! index;
                    username = (strncpy [] (s_username session) 25)[24 := CHR 0x00]
                in authService_Issue crypto ps username (s_role session) tokens st env1)"

definition access_matches :: "u32 \<Rightarrow> u8 list \<Rightarrow> AuthService_SessionTypeDef \<Rightarrow> bool" where
  "access_matches now digest s \<longleftrightarrow>
     s_active s \<noteq> 0 \<and> now - s_accessIssuedAt s \<le> 900 * 1000 \<and> digest = s_accessDigest s"

definition AuthService_Authorize ::
  "auth_crypto \<Rightarrow> string option \<Rightarrow> AuthService_State \<Rightarrow> env \<Rightarrow>
   AuthService_StatusTypeDef \<times> AuthService_PrincipalTypeDef option \<times> env" where
  "AuthService_Authorize crypto accessToken st env =
     (if accessToken = None \<or> length (c_str (the accessToken)) \<noteq> 64
      then (AUTH_SERVICE_STATUS_INVALID_ARGUMENT, None, env)
      else
        let (h, digest) = authService_HashToken crypto (the accessToken) in
        if h \<noteq> HEALTH_CHECK_STATUS_OK then (AUTH_SERVICE_STATUS_CRYPTO_ERROR, None, env)
        else
          let (taken, env1) = xSemaphoreTake env in
          if \<not> taken then (AUTH_SERVICE_STATUS_CRYPTO_ERROR, None, env1)
          else
            case first_session (access_matches (TimeService_GetUptimeMs env1) digest) (sessions st) of
              None \<Rightarrow> (AUTH_SERVICE_STATUS_INVALID_PASSWORD, None, env1)
            | Some index \<Rightarrow>
                let session = sessions st ! index
                in (AUTH_SERVICE_STATUS_OK,
                    Some \<lparr>p_username = (strncpy [] (s_username session) 25)[24 := CHR 0x00], p_role = s_role session\<rparr>, env1))"

definition AuthService_Revoke ::
  "auth_crypto \<Rightarrow> string option \<Rightarrow> AuthService_State \<Rightarrow> env \<Rightarrow> AuthService_StatusTypeDef \<times> AuthService_State \<times> env" where
  "AuthService_Revoke crypto accessToken st env =
     (let (status, granted, env1) = AuthService_Authorize crypto accessToken st env in
      if status \<noteq> AUTH_SERVICE_STATUS_OK then (status, st, env1)
      else
        let (taken, env2) = xSemaphoreTake env1 in
        if \<not> taken then (AUTH_SERVICE_STATUS_CRYPTO_ERROR, st, env2)
        else
          (AUTH_SERVICE_STATUS_OK,
           case authService_FindSession (p_username (the granted)) (sessions st) of
             None \<Rightarrow> st
           | Some index \<Rightarrow> st\<lparr>sessions := (sessions st)[index := zero_session]\<rparr>, env2))"

subsection \<open>User management\<close>

text \<open>The end of \<open>AuthService_PutUser\<close> and \<open>AuthService_DeleteUser\<close>: the session of
  the named user is cleared.\<close>

definition end_session :: "string \<Rightarrow> AuthService_State \<Rightarrow> env \<Rightarrow> AuthService_State \<times> env" where
  "end_session username st env =
     (let (taken, env1) = xSemaphoreTake env in
      if \<not> taken then (st, env1)
      else
        (case authService_FindSession username (sessions st) of
           None \<Rightarrow> st
         | Some index \<Rightarrow>
             if session_of username (sessions st ! index)
             then st\<lparr>sessions := (sessions st)[index := zero_session]\<rparr> else st, env1))"

definition AuthService_PutUser ::
  "auth_crypto \<Rightarrow> TlsPlatform_State \<Rightarrow> AuthService_PrincipalTypeDef option \<Rightarrow> string option \<Rightarrow> u8 list option \<Rightarrow>
   UserStore_RoleTypeDef \<Rightarrow> bool \<Rightarrow> bool \<Rightarrow> AuthService_State \<Rightarrow> env \<Rightarrow> AuthService_StatusTypeDef \<times> AuthService_State \<times> env" where
  "AuthService_PutUser crypto ps actor username password role enabled mustExist st env =
     (if \<not> authService_IsAdministrator actor \<or> username = None \<or> password = None \<or>
         length (the password) < 12 \<or> length (the password) > 128 \<or>
         length (c_str (the username)) \<ge> 25 \<or> c_str (the username) = ''master''
      then (AUTH_SERVICE_STATUS_FORBIDDEN, st, env)
      else
        let (findStatus, found, env1) = UserStore_Find username (au_users st) env;
            exists = (findStatus = HEALTH_CHECK_STATUS_OK) in
        if mustExist \<and> \<not> exists then (AUTH_SERVICE_STATUS_NOT_FOUND, st, env1)
        else if \<not> mustExist \<and> exists then (AUTH_SERVICE_STATUS_INVALID_ARGUMENT, st, env1)
        else
          let record = zero_user\<lparr>u_enabled := (if enabled then 1 else 0), u_role := role_code role, u_iterations := 100000,
                u_username := strncpy (u_username zero_user) (the username) 24\<rparr>;
              (r, salt, env2) = TlsPlatform_Random 16 ps env1 in
          if r \<noteq> HEALTH_CHECK_STATUS_OK then (AUTH_SERVICE_STATUS_CRYPTO_ERROR, st, env2)
          else
            let (status, verifier, env3) = authService_Derive crypto ps (the password) salt (u_iterations record) env2 in
            if status \<noteq> AUTH_SERVICE_STATUS_OK then (status, st, env3)
            else
              let (put, users, env4) = UserStore_Put (Some (record\<lparr>u_salt := salt, u_verifier := verifier\<rparr>)) (au_users st) env3;
                  st1 = st\<lparr>au_users := users\<rparr> in
              if put \<noteq> HEALTH_CHECK_STATUS_OK then (AUTH_SERVICE_STATUS_STORAGE_ERROR, st1, env4)
              else let (st2, env5) = end_session (the username) st1 env4 in (AUTH_SERVICE_STATUS_OK, st2, env5))"

definition AuthService_DeleteUser ::
  "AuthService_PrincipalTypeDef option \<Rightarrow> string option \<Rightarrow> AuthService_State \<Rightarrow> env \<Rightarrow>
   AuthService_StatusTypeDef \<times> AuthService_State \<times> env" where
  "AuthService_DeleteUser actor username st env =
     (if \<not> authService_IsAdministrator actor \<or> username = None \<or> c_str (the username) = ''master''
      then (AUTH_SERVICE_STATUS_FORBIDDEN, st, env)
      else
        let (findStatus, found, env1) = UserStore_Find username (au_users st) env in
        if findStatus \<noteq> HEALTH_CHECK_STATUS_OK then (AUTH_SERVICE_STATUS_NOT_FOUND, st, env1)
        else
          let (deleted, users, env2) = UserStore_Delete username (au_users st) env1; st1 = st\<lparr>au_users := users\<rparr> in
          if deleted \<noteq> HEALTH_CHECK_STATUS_OK then (AUTH_SERVICE_STATUS_STORAGE_ERROR, st1, env2)
          else let (st2, env3) = end_session (the username) st1 env2 in (AUTH_SERVICE_STATUS_OK, st2, env3))"

definition AuthService_ListUsers ::
  "AuthService_PrincipalTypeDef option \<Rightarrow> nat \<Rightarrow> AuthService_State \<Rightarrow> env \<Rightarrow> UserStore_RecordTypeDef list \<times> env" where
  "AuthService_ListUsers actor capacity st env =
     (if authService_IsAdministrator actor then UserStore_List capacity (au_users st) env else ([], env))"

subsection \<open>What the lemmas speak about\<close>

text \<open>The directory as user management leaves it: well formed, without an account named
  like the master, and with names that fit a session.\<close>

definition store_sane :: "UserStore_State \<Rightarrow> bool" where
  "store_sane us \<longleftrightarrow> users_ok (us_snapshot us) \<and> ''master'' \<notin> dom (user_view (us_snapshot us)) \<and>
     (\<forall>n \<in> dom (user_view (us_snapshot us)). length n \<le> 24)"

text \<open>The identity and role a name has now: the master is an administrator, a stored user
  has its role while it is enabled.\<close>

definition current_role :: "UserStore_State \<Rightarrow> string \<Rightarrow> u8 option" where
  "current_role us n =
     (if n = ''master'' then Some (role_code USER_ROLE_ADMINISTRATOR)
      else case user_view (us_snapshot us) n of None \<Rightarrow> None | Some u \<Rightarrow> if u_enabled u \<noteq> 0 then Some (u_role u) else None)"

text \<open>No two active sessions belong to the same user.\<close>

definition distinct_sessions :: "AuthService_SessionTypeDef list \<Rightarrow> bool" where
  "distinct_sessions ss \<longleftrightarrow> (\<forall>i<length ss. \<forall>j<length ss. i \<noteq> j \<and> s_active (ss ! i) \<noteq> 0 \<and> s_active (ss ! j) \<noteq> 0 \<longrightarrow>
     c_str (s_username (ss ! i)) \<noteq> c_str (s_username (ss ! j)))"

definition auth_inv :: "AuthService_State \<Rightarrow> bool" where
  "auth_inv st \<longleftrightarrow> store_sane (au_users st) \<and> length (sessions st) = 9 \<and> distinct_sessions (sessions st) \<and>
     (\<forall>s \<in> set (sessions st). s_active s \<noteq> 0 \<longrightarrow>
        length (c_str (s_username s)) \<le> 24 \<and> current_role (au_users st) (c_str (s_username s)) = Some (s_role s))"

text \<open>The derived key has the requested length.\<close>

definition documented_crypto :: "auth_crypto \<Rightarrow> bool" where
  "documented_crypto crypto \<longleftrightarrow> (\<forall>password salt n. length (snd (mbedtls_pkcs5_pbkdf2_hmac_ext crypto password salt n)) = 32)"

text \<open>The service's life.  The session mutex is assumed to be available when an account was
  changed; every other call may fail in any way.\<close>

inductive auth_reach :: "auth_crypto \<Rightarrow> TlsPlatform_State \<Rightarrow> AuthService_State \<Rightarrow> bool" for crypto ps where
  init: "AuthService_Init st0 env = (AUTH_SERVICE_STATUS_OK, st, env') \<Longrightarrow> store_sane (au_users st) \<Longrightarrow>
     auth_reach crypto ps st"
| login: "auth_reach crypto ps st \<Longrightarrow>
     AuthService_Login crypto ps username password tokens st env = (status, tokens', st', env') \<Longrightarrow> auth_reach crypto ps st'"
| refresh: "auth_reach crypto ps st \<Longrightarrow>
     AuthService_Refresh crypto ps token tokens st env = (status, tokens', st', env') \<Longrightarrow> auth_reach crypto ps st'"
| revoke: "auth_reach crypto ps st \<Longrightarrow>
     AuthService_Revoke crypto token st env = (status, st', env') \<Longrightarrow> auth_reach crypto ps st'"
| put: "auth_reach crypto ps st \<Longrightarrow>
     AuthService_PutUser crypto ps actor username password role enabled mustExist st env = (status, st', env') \<Longrightarrow>
     (status = AUTH_SERVICE_STATUS_OK \<Longrightarrow> healthy env) \<Longrightarrow> auth_reach crypto ps st'"
| delete: "auth_reach crypto ps st \<Longrightarrow>
     AuthService_DeleteUser actor username st env = (status, st', env') \<Longrightarrow>
     (status = AUTH_SERVICE_STATUS_OK \<Longrightarrow> healthy env) \<Longrightarrow> auth_reach crypto ps st'"

subsection \<open>Searching the session table\<close>

lemma first_session_Some:
  "first_session p ss = Some i \<Longrightarrow> i < length ss \<and> p (ss ! i) \<and> (\<forall>j<i. \<not> p (ss ! j))"
proof (induction ss arbitrary: i)
  case (Cons s ss)
  show ?case
  proof (cases "p s")
    case False
    with Cons.prems obtain k where "first_session p ss = Some k" "i = Suc k"
      by auto
    with Cons.IH False show ?thesis
      by (auto simp: less_Suc_eq_0_disj)
  qed (use Cons.prems in auto)
qed simp

lemma first_session_None: "first_session p ss = None \<longleftrightarrow> (\<forall>s \<in> set ss. \<not> p s)"
  by (induction ss) auto

lemma distinct_sessions_update:
  assumes "distinct_sessions ss"
    and "\<And>j. j < length ss \<Longrightarrow> j \<noteq> i \<Longrightarrow> s_active s \<noteq> 0 \<Longrightarrow> s_active (ss ! j) \<noteq> 0 \<Longrightarrow>
      c_str (s_username (ss ! j)) \<noteq> c_str (s_username s)"
  shows "distinct_sessions (ss[i := s])"
  unfolding distinct_sessions_def
proof (intro allI impI, elim conjE)
  fix a b
  assume ab: "a < length (ss[i := s])" "b < length (ss[i := s])" "a \<noteq> b" "s_active (ss[i := s] ! a) \<noteq> 0" "s_active (ss[i := s] ! b) \<noteq> 0"
  consider "i = a" | "i = b" | "i \<noteq> a" "i \<noteq> b"
    by blast
  then show "c_str (s_username (ss[i := s] ! a)) \<noteq> c_str (s_username (ss[i := s] ! b))"
  proof cases
    case 1
    then show ?thesis
      using ab assms(2)[of b] by fastforce
  next
    case 2
    then show ?thesis
      using ab assms(2)[of a] by fastforce
  next
    case 3
    then show ?thesis
      using ab assms(1) by (simp add: distinct_sessions_def)
  qed
qed

lemma FindSession_cases:
  assumes "authService_FindSession n ss = Some i"
  shows "i < length ss" "session_of n (ss ! i) \<or> s_active (ss ! i) = 0 \<and> (\<forall>s \<in> set ss. \<not> session_of n s)"
  using assms
  by (auto simp: authService_FindSession_def first_session_None dest!: first_session_Some split: option.splits)

lemma FindSession_fresh:
  assumes "authService_FindSession n ss = Some i" "distinct_sessions ss"
    and "j < length ss" "j \<noteq> i" "s_active (ss ! j) \<noteq> 0"
  shows "c_str (s_username (ss ! j)) \<noteq> c_str n"
proof (cases "session_of n (ss ! i)")
  case True
  then show ?thesis
    using assms(2)[unfolded distinct_sessions_def, rule_format, of j i] FindSession_cases(1)[OF assms(1)] assms(3-5)
    by (auto simp: session_of_def)
next
  case False
  then have "\<not> session_of n (ss ! j)"
    using FindSession_cases(2)[OF assms(1)] assms(3) by simp
  then show ?thesis
    using assms(5) by (simp add: session_of_def)
qed

subsection \<open>Issuing tokens\<close>

lemma hex_digit: "i < 16 \<Longrightarrow> ''0123456789abcdef'' ! i \<noteq> CHR 0x00"
  using nth_mem[of i "''0123456789abcdef''"] by (auto simp del: nth_mem)

lemma Hex_c_str: "length (c_str (authService_Hex input)) = 2 * length input"
proof -
  let ?text = "concat (map (\<lambda>b. [''0123456789abcdef'' ! unat (drop_bit 4 b), ''0123456789abcdef'' ! unat (b AND 0x0F)]) input)"
  have digits: "unat (drop_bit 4 b) < 16" "unat (b AND 0x0F) < 16" for b :: u8
  proof -
    show "unat (drop_bit 4 b) < 16"
      using unat_u8_less[of b] by (simp add: drop_bit_eq_div unat_div del: unat_u8_less)
    have "unat (b AND 0x0F) \<le> unat (0x0F :: u8)"
      by (rule word_le_nat_alt[THEN iffD1], rule word_and_le1)
    then show "unat (b AND 0x0F) < 16"
      by simp
  qed
  then have "CHR 0x00 \<notin> set ?text"
    using hex_digit by (auto dest: hex_digit) metis+
  then have "c_str (authService_Hex input) = ?text"
    unfolding authService_Hex_def by (rule c_str_append_NUL)
  moreover have "length ?text = 2 * length input"
    by (induction input) auto
  ultimately show ?thesis
    by simp
qed

lemma Issue_cases:
  assumes run: "authService_Issue crypto ps username role tokens st env = (status, tokens', st', env')"
  shows "only_time env env'"
    "status \<noteq> AUTH_SERVICE_STATUS_OK \<Longrightarrow> st' = st"
    "status = AUTH_SERVICE_STATUS_OK \<Longrightarrow> \<exists>index session. authService_FindSession username (sessions st) = Some index \<and>
       st' = st\<lparr>sessions := (sessions st)[index := session]\<rparr> \<and> s_active session = 1 \<and> s_role session = role \<and>
       s_username session = strncpy (memset_chars 25) username 24 \<and> s_accessIssuedAt session = ticks env' \<and>
       length (c_str (t_accessToken tokens')) = 64 \<and>
       authService_HashToken crypto (t_accessToken tokens') = (HEALTH_CHECK_STATUS_OK, s_accessDigest session)"
    "healthy env \<Longrightarrow> cryptoMutex ps \<Longrightarrow> \<forall>bs. fst (mbedtls_sha256 crypto bs) = 0 \<Longrightarrow>
       authService_FindSession username (sessions st) \<noteq> None \<Longrightarrow> status = AUTH_SERVICE_STATUS_OK"
proof -
  obtain r1 access env1 where p1: "TlsPlatform_Random 32 ps env = (r1, access, env1)"
    using prod_cases3 by blast
  obtain r2 refresh env2 where p2: "TlsPlatform_Random 32 ps env1 = (r2, refresh, env2)"
    using prod_cases3 by blast
  obtain h1 d1 where h1: "authService_HashToken crypto (authService_Hex access) = (h1, d1)" by fastforce
  obtain h2 d2 where h2: "authService_HashToken crypto (authService_Hex refresh) = (h2, d2)" by fastforce
  note f1 = Random_frame[OF p1] and f2 = Random_frame[OF p2]
  have trans: "only_time env env2"
    using only_time_trans[OF f1(1) f2(1)] .
  note def = authService_Issue_def p1 p2 h1 h2
  show "only_time env env'"
    using run f1(1) trans by (auto simp: def Let_def split: if_splits option.splits)
  show "status \<noteq> AUTH_SERVICE_STATUS_OK \<Longrightarrow> st' = st"
    using run by (auto simp: def Let_def split: if_splits option.splits)
  show "\<exists>index session. authService_FindSession username (sessions st) = Some index \<and>
       st' = st\<lparr>sessions := (sessions st)[index := session]\<rparr> \<and> s_active session = 1 \<and> s_role session = role \<and>
       s_username session = strncpy (memset_chars 25) username 24 \<and> s_accessIssuedAt session = ticks env' \<and>
       length (c_str (t_accessToken tokens')) = 64 \<and>
       authService_HashToken crypto (t_accessToken tokens') = (HEALTH_CHECK_STATUS_OK, s_accessDigest session)"
    if ok: "status = AUTH_SERVICE_STATUS_OK"
  proof -
    have ok1: "r1 = HEALTH_CHECK_STATUS_OK" "h1 = HEALTH_CHECK_STATUS_OK"
      and token: "t_accessToken tokens' = authService_Hex access"
      using run ok by (auto simp: def Let_def split: if_splits option.splits)
    have "length (c_str (t_accessToken tokens')) = 64"
      using Hex_c_str[of access] f1(2)[OF ok1(1)] token by simp
    then show ?thesis
      using run ok h1 ok1 token by (auto simp: def Let_def zero_session_def split: if_splits option.splits)
  qed
  assume h: "healthy env" "cryptoMutex ps" "\<forall>bs. fst (mbedtls_sha256 crypto bs) = 0" "authService_FindSession username (sessions st) \<noteq> None"
  have "r1 = HEALTH_CHECK_STATUS_OK" "r2 = HEALTH_CHECK_STATUS_OK"
    using f1(1,3) f2(3) h(1,2) by (auto simp: only_time_def)
  moreover have "h1 = HEALTH_CHECK_STATUS_OK" "h2 = HEALTH_CHECK_STATUS_OK"
    using h1 h2 h(3) by (auto simp: authService_HashToken_def case_prod_unfold Let_def)
  ultimately show "status = AUTH_SERVICE_STATUS_OK"
    using run h(4) by (auto simp: def Let_def split: option.splits)
qed

lemma Issue_inv:
  assumes run: "authService_Issue crypto ps username role tokens st env = (status, tokens', st', env')"
    and inv: "auth_inv st" and len: "length (c_str username) \<le> 24"
    and role: "current_role (au_users st) (c_str username) = Some role"
  shows "auth_inv st'" "au_users st' = au_users st"
proof -
  have "auth_inv st' \<and> au_users st' = au_users st"
  proof (cases "status = AUTH_SERVICE_STATUS_OK")
    case True
    then obtain i s where s: "authService_FindSession username (sessions st) = Some i"
      "st' = st\<lparr>sessions := (sessions st)[i := s]\<rparr>" "s_role s = role" "s_username s = strncpy (memset_chars 25) username 24"
      using Issue_cases(3)[OF run] by blast
    have name: "c_str (s_username s) = c_str username"
      using len s(4) by (simp add: c_str_strncpy)
    have "distinct_sessions ((sessions st)[i := s])"
      using inv FindSession_fresh[OF s(1)] name by (intro distinct_sessions_update) (auto simp: auth_inv_def)
    moreover have "set ((sessions st)[i := s]) \<subseteq> insert s (set (sessions st))"
      by (rule set_update_subset_insert)
    ultimately show ?thesis
      using inv s(2,3) name len role by (auto simp: auth_inv_def)
  qed (use Issue_cases(2)[OF run] inv in simp)
  then show "auth_inv st'" "au_users st' = au_users st"
    by simp_all
qed

subsection \<open>The user store below\<close>

lemma us_Save_outcome:
  assumes "userStore_Save c st env = (s, st', env')" "wf_users c"
  shows "s \<noteq> HEALTH_CHECK_STATUS_OK \<Longrightarrow> st' = st" "s = HEALTH_CHECK_STATUS_OK \<Longrightarrow> us_snapshot st' = userStore_Stamp c"
    "healthy env \<Longrightarrow> healthy env'"
proof -
  define t where "t = (if us_activeAddress st = FLASH_LAYOUT_USER_STORE_SECTOR_A
    then FLASH_LAYOUT_USER_STORE_SECTOR_B else FLASH_LAYOUT_USER_STORE_SECTOR_A)"
  obtain s1 env1 where e: "W25Q64_EraseSector t env = (s1, env1)" by fastforce
  obtain s2 env2 where p: "W25Q64_Program t (Some (put_users (userStore_Stamp c))) env1 = (s2, env2)" by fastforce
  obtain s3 d env3 where r: "W25Q64_Read t 656 env2 = (s3, d, env3)"
    using prod_cases3 by blast
  note save = assms(1)[unfolded userStore_Save_def, folded t_def, unfolded Let_def e p r prod.case]
  show "s \<noteq> HEALTH_CHECK_STATUS_OK \<Longrightarrow> st' = st" "s = HEALTH_CHECK_STATUS_OK \<Longrightarrow> us_snapshot st' = userStore_Stamp c"
    using save by (auto split: if_splits)
  have len: "length (put_users (userStore_Stamp c)) < 2 ^ 32"
    using length_put_users[of "userStore_Stamp c"] assms(2) by (simp add: wf_users_def)
  show "healthy env'" if h: "healthy env"
  proof -
    have "healthy env1" "healthy env2" "healthy env3"
      using flash.er_good[OF h e] flash.pr_good[OF _ p len] flash.rd_good[OF _ r] by blast+
    then show ?thesis
      using save by (auto split: if_splits)
  qed
qed

lemma user_serve_step:
  assumes run: "user_serve req us env = (status, us', env')" and ok: "users_ok (us_snapshot us)" "user_request_wf req"
  shows "status \<noteq> HEALTH_CHECK_STATUS_OK \<Longrightarrow> us' = us" "healthy env \<Longrightarrow> healthy env'"
    "status = HEALTH_CHECK_STATUS_OK \<Longrightarrow> users_ok (us_snapshot us') \<and>
       user_spec req (user_view (us_snapshot us)) = Some (user_view (us_snapshot us'))"
proof -
  note cases = user_serve_cases[OF run ok(1)]
  have "(status \<noteq> HEALTH_CHECK_STATUS_OK \<longrightarrow> us' = us) \<and> (healthy env \<longrightarrow> healthy env') \<and>
    (status = HEALTH_CHECK_STATUS_OK \<longrightarrow> users_ok (us_snapshot us') \<and>
       user_spec req (user_view (us_snapshot us)) = Some (user_view (us_snapshot us')))"
  proof (cases "user_spec req (user_view (us_snapshot us))")
    case None
    then show ?thesis
      using cases touches_healthy[of 0 0 env env'] by auto
  next
    case (Some v)
    note spec = user_candidate_spec[OF ok Some]
    have wf: "wf_users (user_candidate req (us_snapshot us))"
      using spec(1) by (simp add: users_ok_def users_fit_def)
    have "users_ok (userStore_Stamp (user_candidate req (us_snapshot us)))"
      "user_view (userStore_Stamp (user_candidate req (us_snapshot us))) = v"
      using spec by simp_all
    then show ?thesis
      using cases Some us_Save_outcome[OF _ wf] touches_healthy[of 0 0 env] by (auto split: option.splits)
  qed
  then show "status \<noteq> HEALTH_CHECK_STATUS_OK \<Longrightarrow> us' = us" "healthy env \<Longrightarrow> healthy env'"
    "status = HEALTH_CHECK_STATUS_OK \<Longrightarrow> users_ok (us_snapshot us') \<and>
       user_spec req (user_view (us_snapshot us)) = Some (user_view (us_snapshot us'))"
    by simp_all
qed

lemma UserStore_Find_view:
  assumes "UserStore_Find (Some n) us env = (s, found, env')" "users_ok (us_snapshot us)"
  shows "only_time env env'"
    "s = HEALTH_CHECK_STATUS_OK \<Longrightarrow> \<exists>i. found = Some (the (user_view (us_snapshot us) (c_str n)), i) \<and> user_view (us_snapshot us) (c_str n) \<noteq> None"
    "healthy env \<Longrightarrow> user_view (us_snapshot us) (c_str n) \<noteq> None \<Longrightarrow> s = HEALTH_CHECK_STATUS_OK"
proof -
  obtain b env1 where l: "xSemaphoreTake env = (b, env1)" by fastforce
  have len: "length (users_in_use (us_snapshot us)) = unat (us_count (us_snapshot us))"
    using assms(2) by (simp add: users_ok_def users_in_use_length)
  note view = user_index_map_of[of "users_in_use (us_snapshot us)" n, folded user_view_def]
  have nth: "users_in_use (us_snapshot us) ! i = us_users (us_snapshot us) ! i" if "i < unat (us_count (us_snapshot us))" for i
    using that by (simp add: users_in_use_def)
  show "only_time env env'"
    using assms(1) only_time_Take[OF l] by (auto simp: UserStore_Find_def l Let_def split: if_splits)
  show "s = HEALTH_CHECK_STATUS_OK \<Longrightarrow> \<exists>i. found = Some (the (user_view (us_snapshot us) (c_str n)), i) \<and> user_view (us_snapshot us) (c_str n) \<noteq> None"
    "healthy env \<Longrightarrow> user_view (us_snapshot us) (c_str n) \<noteq> None \<Longrightarrow> s = HEALTH_CHECK_STATUS_OK"
    using assms(1) only_time_Take[OF l] by (auto simp: UserStore_Find_def l Let_def view len nth split: if_splits)
qed

subsection \<open>Every operation keeps sessions and accounts in step\<close>

lemma copied_name:
  assumes "length (c_str a) \<le> 24"
  shows "c_str ((strncpy [] a 25)[24 := CHR 0x00]) = c_str a"
proof -
  have "replicate (25 - length (c_str a)) (CHR 0x00) = CHR 0x00 # replicate (24 - length (c_str a)) (CHR 0x00)"
    using assms by (simp flip: replicate_Suc add: Suc_diff_le)
  moreover have "(replicate (25 - length (c_str a)) (CHR 0x00))[24 - length (c_str a) := CHR 0x00] =
      replicate (25 - length (c_str a)) (CHR 0x00)"
    by (rule nth_equalityI) (auto simp: nth_list_update)
  ultimately show ?thesis
    using assms by (simp add: strncpy_def list_update_append)
qed

lemma auth_inv_clear:
  assumes "auth_inv st"
  shows "auth_inv (st\<lparr>sessions := (sessions st)[i := zero_session]\<rparr>)"
proof -
  have "distinct_sessions ((sessions st)[i := zero_session])"
    using assms by (intro distinct_sessions_update) (simp_all add: auth_inv_def zero_session_def)
  moreover have "set ((sessions st)[i := zero_session]) \<subseteq> insert zero_session (set (sessions st))"
    by (rule set_update_subset_insert)
  ultimately show ?thesis
    using assms by (auto simp: auth_inv_def zero_session_def)
qed

lemma Derive_frame:
  "authService_Derive crypto ps password salt n env = (s, v, env') \<Longrightarrow> only_time env env' \<and>
     (s = AUTH_SERVICE_STATUS_OK \<longrightarrow> v = snd (mbedtls_pkcs5_pbkdf2_hmac_ext crypto password salt n)) \<and>
     (healthy env \<and> cryptoMutex ps \<and> fst (mbedtls_pkcs5_pbkdf2_hmac_ext crypto password salt n) = 0 \<longrightarrow> s = AUTH_SERVICE_STATUS_OK)"
  using Lock_frame[of ps env "fst (TlsPlatform_Lock ps env)" "snd (TlsPlatform_Lock ps env)"]
  by (auto simp: authService_Derive_def Let_def case_prod_unfold split: if_splits)

lemma login_user_role:
  assumes run: "login_user crypto ps username password st env = (status, role, env')" and inv: "auth_inv st"
    and name: "c_str username \<noteq> ''master''"
  shows "only_time env env'"
    "status = AUTH_SERVICE_STATUS_OK \<Longrightarrow> current_role (au_users st) (c_str username) = Some role \<and> length (c_str username) \<le> 24"
proof -
  obtain f r env1 where find: "UserStore_Find (Some username) (au_users st) env = (f, r, env1)"
    using prod_cases3 by blast
  have ok: "users_ok (us_snapshot (au_users st))" and short: "\<forall>n \<in> dom (user_view (us_snapshot (au_users st))). length n \<le> 24"
    using inv by (auto simp: auth_inv_def store_sane_def)
  note view = UserStore_Find_view[OF find ok]
  let ?found = "f = HEALTH_CHECK_STATUS_OK" and ?u = "fst (the r)"
  obtain s v env2 where d: "authService_Derive crypto ps password (if ?found then u_salt ?u else authService_DummySalt)
      (if ?found then u_iterations ?u else 100000) env1 = (s, v, env2)"
    using prod_cases3 by blast
  have "env' = env2" and enabled: "status = AUTH_SERVICE_STATUS_OK \<Longrightarrow> ?found \<and> u_enabled ?u \<noteq> 0 \<and> role = u_role ?u"
    using run by (auto simp: login_user_def find d Let_def split: if_splits)
  then show "only_time env env'"
    using only_time_trans[OF view(1)] Derive_frame[OF d] by blast
  show "status = AUTH_SERVICE_STATUS_OK \<Longrightarrow> current_role (au_users st) (c_str username) = Some role \<and> length (c_str username) \<le> 24"
    using enabled view(2) short name by (auto simp: current_role_def dom_def)
qed

lemma Login_issues:
  assumes run: "AuthService_Login crypto ps username password tokens st env = (status, tokens', st', env')" and inv: "auth_inv st"
  obtains (refused) "status \<noteq> AUTH_SERVICE_STATUS_OK" "st' = st"
  | (issued) role env0 where "authService_Issue crypto ps (the username) role tokens st env0 = (status, tokens', st', env')"
      "current_role (au_users st) (c_str (the username)) = Some role" "length (c_str (the username)) \<le> 24"
proof -
  define checked where "checked = (if c_str (the username) = ''master''
      then let (status, env1) = AuthService_VerifyMasterPassword crypto ps password env
           in (status, role_code USER_ROLE_ADMINISTRATOR, env1)
      else login_user crypto ps (the username) (the password) st env)"
  obtain s role env1 where c: "checked = (s, role, env1)"
    using prod_cases3 by blast
  obtain taken env2 where l: "xSemaphoreTake env1 = (taken, env2)" by fastforce
  note login = run[unfolded AuthService_Login_def, folded checked_def, unfolded c Let_def prod.case l]
  have "current_role (au_users st) (c_str (the username)) = Some role \<and> length (c_str (the username)) \<le> 24"
    if "s = AUTH_SERVICE_STATUS_OK"
  proof (cases "c_str (the username) = ''master''")
    case True
    then show ?thesis
      using c by (auto simp: checked_def current_role_def split: prod.splits)
  next
    case False
    then show ?thesis
      using c login_user_role(2)[OF _ inv False] that by (simp add: checked_def)
  qed
  then show thesis
    using login refused issued[of role env2] by (auto split: if_splits)
qed

lemma Login_inv:
  assumes run: "AuthService_Login crypto ps username password tokens st env = (status, tokens', st', env')" and inv: "auth_inv st"
  shows "auth_inv st'"
  using assms
proof (cases rule: Login_issues)
  case refused
  then show ?thesis using inv by simp
next
  case (issued role env0)
  then show ?thesis using Issue_inv(1)[OF issued(1) inv] by simp
qed

lemma Refresh_inv:
  assumes run: "AuthService_Refresh crypto ps token tokens st env = (status, tokens', st', env')" and inv: "auth_inv st"
  shows "auth_inv st'"
proof -
  obtain h digest where d: "authService_HashToken crypto (the token) = (h, digest)" by fastforce
  obtain taken env1 where l: "xSemaphoreTake env = (taken, env1)" by fastforce
  show ?thesis
  proof (cases "first_session (refresh_matches (TimeService_GetUptimeMs env1) digest) (sessions st)")
    case None
    then show ?thesis
      using run inv by (auto simp: AuthService_Refresh_def d l Let_def split: if_splits)
  next
    case (Some i)
    let ?s = "sessions st ! i" and ?n = "(strncpy [] (s_username (sessions st ! i)) 25)[24 := CHR 0x00]"
    have "?s \<in> set (sessions st)" "s_active ?s \<noteq> 0"
      using first_session_Some[OF Some] by (auto simp: refresh_matches_def)
    then have s: "length (c_str (s_username ?s)) \<le> 24" "current_role (au_users st) (c_str (s_username ?s)) = Some (s_role ?s)"
      using inv by (auto simp: auth_inv_def)
    note name = copied_name[OF s(1)]
    obtain s2 tk st2 env3 where issue: "authService_Issue crypto ps ?n (s_role ?s) tokens st env1 = (s2, tk, st2, env3)"
      using prod_cases4 by blast
    have "auth_inv st2"
      using Issue_inv(1)[OF issue inv] name s by simp
    then show ?thesis
      using run inv Some issue by (auto simp: AuthService_Refresh_def d l Let_def split: if_splits)
  qed
qed

lemma Authorize_cases:
  assumes run: "AuthService_Authorize crypto token st env = (status, p, env')"
  shows "only_time env env'"
    "status = AUTH_SERVICE_STATUS_OK \<Longrightarrow> \<exists>i < length (sessions st). s_active (sessions st ! i) \<noteq> 0 \<and>
       p = Some \<lparr>p_username = (strncpy [] (s_username (sessions st ! i)) 25)[24 := CHR 0x00], p_role = s_role (sessions st ! i)\<rparr>"
  using assms
  by (auto simp: AuthService_Authorize_def Let_def access_matches_def
      split: if_splits prod.splits option.splits dest!: first_session_Some only_time_Take)

lemma Revoke_inv:
  assumes "AuthService_Revoke crypto token st env = (status, st', env')" "auth_inv st"
  shows "auth_inv st'"
  using assms auth_inv_clear[OF assms(2)] by (auto simp: AuthService_Revoke_def Let_def split: if_splits prod.splits option.splits)

text \<open>Changing an account: whatever the change, with the session of that user gone the
  others still match.\<close>

lemma end_session_inv:
  assumes run: "end_session n st1 env = (st', env')" and h: "healthy env" and inv: "auth_inv st" and users: "st1 = st\<lparr>au_users := us\<rparr>"
    and sane: "store_sane us" and same: "\<And>m. m \<noteq> c_str n \<Longrightarrow> current_role us m = current_role (au_users st) m"
  shows "auth_inv st'"
proof -
  obtain env1 where l: "xSemaphoreTake env = (True, env1)"
    using xSemaphoreTake_healthy[OF h] by blast
  have others: "\<forall>s \<in> set (sessions st'). s = zero_session \<or> s \<in> set (sessions st) \<and> \<not> session_of n s"
    and frame: "au_users st' = us" "length (sessions st') = 9" "distinct_sessions (sessions st')"
  proof -
    show "au_users st' = us" "length (sessions st') = 9"
      using run inv by (auto simp: end_session_def l users auth_inv_def split: option.splits)
    have "distinct_sessions ((sessions st)[i := zero_session])" for i
      using auth_inv_clear[OF inv] by (simp add: auth_inv_def)
    then show "distinct_sessions (sessions st')"
      using run inv by (auto simp: end_session_def l users auth_inv_def split: option.splits if_splits)
    show "\<forall>s \<in> set (sessions st'). s = zero_session \<or> s \<in> set (sessions st) \<and> \<not> session_of n s"
    proof (cases "authService_FindSession n (sessions st)")
      case None
      then have "\<forall>s \<in> set (sessions st). \<not> session_of n s"
        by (auto simp: authService_FindSession_def first_session_None split: option.splits)
      then show ?thesis
        using run None by (auto simp: end_session_def l users)
    next
      case (Some i)
      note found = FindSession_cases[OF Some]
      show ?thesis
      proof (cases "session_of n (sessions st ! i)")
        case True
        then have st': "sessions st' = (sessions st)[i := zero_session]"
          using run Some by (auto simp: end_session_def l users)
        have "\<not> session_of n (sessions st ! j)" if "j < length (sessions st)" "j \<noteq> i" for j
          using FindSession_fresh[OF Some _ that] inv by (auto simp: session_of_def auth_inv_def)
        then have "s = zero_session \<or> s \<in> set (sessions st) \<and> \<not> session_of n s" if mem: "s \<in> set (sessions st')" for s
        proof -
          obtain j where "j < length (sessions st)" "s = (sessions st)[i := zero_session] ! j"
            using mem unfolding st' in_set_conv_nth by auto
          then show ?thesis
            using \<open>\<And>j. j < length (sessions st) \<Longrightarrow> j \<noteq> i \<Longrightarrow> \<not> session_of n (sessions st ! j)\<close>
            by (cases "j = i") (auto simp: nth_list_update)
        qed
        then show ?thesis
          by blast
      next
        case False
        then have "\<forall>s \<in> set (sessions st). \<not> session_of n s" "sessions st' = sessions st"
          using found run Some by (auto simp: end_session_def l users)
        then show ?thesis
          by simp
      qed
    qed
  qed
  have "length (c_str (s_username s)) \<le> 24 \<and> current_role us (c_str (s_username s)) = Some (s_role s)"
    if s: "s \<in> set (sessions st')" "s_active s \<noteq> 0" for s
  proof -
    have "s \<in> set (sessions st)" "\<not> session_of n s"
      using others s by (auto simp: zero_session_def)
    then show ?thesis
      using inv same[of "c_str (s_username s)"] s(2) by (auto simp: auth_inv_def session_of_def)
  qed
  then show ?thesis
    using frame sane by (simp add: auth_inv_def)
qed

lemma current_role_put:
  "user_view (us_snapshot us') = (user_view (us_snapshot us))(n := x) \<Longrightarrow> m \<noteq> n \<Longrightarrow> current_role us' m = current_role us m"
  by (simp add: current_role_def)

lemma PutUser_inv:
  assumes run: "AuthService_PutUser crypto ps actor username password role enabled mustExist st env = (status, st', env')"
    and inv: "auth_inv st" and h: "status = AUTH_SERVICE_STATUS_OK \<Longrightarrow> healthy env" and crypto: "documented_crypto crypto"
  shows "auth_inv st'"
proof -
  obtain f x env1 where find: "UserStore_Find username (au_users st) env = (f, x, env1)"
    using prod_cases3 by blast
  obtain r salt env2 where rand: "TlsPlatform_Random 16 ps env1 = (r, salt, env2)"
    using prod_cases3 by blast
  let ?r = "zero_user\<lparr>u_enabled := (if enabled then 1 else 0), u_role := role_code role, u_iterations := 100000,
      u_username := strncpy (u_username zero_user) (the username) 24\<rparr>"
  obtain s v env3 where d: "authService_Derive crypto ps (the password) salt (u_iterations ?r) env2 = (s, v, env3)"
    using prod_cases3 by blast
  define u where "u = ?r\<lparr>u_salt := salt, u_verifier := v\<rparr>"
  obtain p us env4 where put: "UserStore_Put (Some u) (au_users st) env3 = (p, us, env4)"
    using prod_cases3 by blast
  obtain st2 env5 where e: "end_session (the username) (st\<lparr>au_users := us\<rparr>) env4 = (st2, env5)" by fastforce
  note put_run = run[unfolded AuthService_PutUser_def Let_def find prod.case rand d u_def[symmetric] put e]
  let ?bad = "\<not> authService_IsAdministrator actor \<or> username = None \<or> password = None \<or> length (the password) < 12 \<or>
    length (the password) > 128 \<or> length (c_str (the username)) \<ge> 25 \<or> c_str (the username) = ''master''"
  let ?stop = "?bad \<or> (mustExist \<and> f \<noteq> HEALTH_CHECK_STATUS_OK) \<or> (\<not> mustExist \<and> f = HEALTH_CHECK_STATUS_OK) \<or>
    r \<noteq> HEALTH_CHECK_STATUS_OK \<or> s \<noteq> AUTH_SERVICE_STATUS_OK"
  have stop: "st' = st" if ?stop
    using put_run that by (auto split: if_splits)
  have go: "status = (if p = HEALTH_CHECK_STATUS_OK then AUTH_SERVICE_STATUS_OK else AUTH_SERVICE_STATUS_STORAGE_ERROR)"
    "st' = (if p = HEALTH_CHECK_STATUS_OK then st2 else st\<lparr>au_users := us\<rparr>)" if "\<not> ?stop"
    using put_run that by (auto split: if_splits)
  have users: "users_ok (us_snapshot (au_users st))"
    using inv by (simp add: auth_inv_def store_sane_def)
  show ?thesis
  proof (cases ?stop)
    case False
    have len: "length salt = 16" "length v = 32"
      using Random_frame(2)[OF rand] Derive_frame[OF d] crypto False by (auto simp: documented_crypto_def)
    have wf: "user_request_wf (Put_User (Some u))"
      using len by (simp add: u_def wf_user_def zero_user_def memset_chars_def)
    have "user_serve (Put_User (Some u)) (au_users st) env3 = (p, us, env4)"
      using put by simp
    note serve = user_serve_step[OF this users wf]
    have name: "c_str (u_username u) = c_str (the username)"
      using False by (simp add: u_def zero_user_def c_str_strncpy)
    show ?thesis
    proof (cases "p = HEALTH_CHECK_STATUS_OK")
      case True
      have view: "users_ok (us_snapshot us)" "user_view (us_snapshot us) = (user_view (us_snapshot (au_users st)))(c_str (the username) \<mapsto> u)"
        using serve(3)[OF True] by (auto simp: name Let_def split: if_splits)
      have "healthy env"
        using h go(1)[OF False] True by simp
      moreover obtain n where "username = Some n"
        using False by auto
      ultimately have "healthy env4"
        using UserStore_Find_view(1)[of n "au_users st" env f x env1] users find Random_frame(1)[OF rand] Derive_frame[OF d] serve(2)
        by (auto simp: only_time_def)
      moreover have "store_sane us"
        using view inv False by (auto simp: store_sane_def auth_inv_def)
      ultimately have "auth_inv st2"
        using end_session_inv[OF e _ inv refl] current_role_put[OF view(2)] by blast
      then show ?thesis
        using go(2)[OF False] True by simp
    next
      case fails: False
      then show ?thesis
        using go(2)[OF False] serve(1) inv by simp
    qed
  qed (use stop inv in simp)
qed

lemma DeleteUser_inv:
  assumes run: "AuthService_DeleteUser actor username st env = (status, st', env')"
    and inv: "auth_inv st" and h: "status = AUTH_SERVICE_STATUS_OK \<Longrightarrow> healthy env"
  shows "auth_inv st'"
proof -
  obtain f x env1 where find: "UserStore_Find username (au_users st) env = (f, x, env1)"
    using prod_cases3 by blast
  obtain p us env2 where del: "UserStore_Delete username (au_users st) env1 = (p, us, env2)"
    using prod_cases3 by blast
  obtain st2 env3 where e: "end_session (the username) (st\<lparr>au_users := us\<rparr>) env2 = (st2, env3)" by fastforce
  note del_run = run[unfolded AuthService_DeleteUser_def Let_def find prod.case del e]
  let ?stop = "\<not> authService_IsAdministrator actor \<or> username = None \<or> c_str (the username) = ''master'' \<or> f \<noteq> HEALTH_CHECK_STATUS_OK"
  have stop: "st' = st" if ?stop
    using del_run that by (auto split: if_splits)
  have go: "status = (if p = HEALTH_CHECK_STATUS_OK then AUTH_SERVICE_STATUS_OK else AUTH_SERVICE_STATUS_STORAGE_ERROR)"
    "st' = (if p = HEALTH_CHECK_STATUS_OK then st2 else st\<lparr>au_users := us\<rparr>)" if "\<not> ?stop"
    using del_run that by (auto split: if_splits)
  have users: "users_ok (us_snapshot (au_users st))"
    using inv by (simp add: auth_inv_def store_sane_def)
  show ?thesis
  proof (cases ?stop)
    case False
    then obtain n where n: "username = Some n"
      by auto
    have "user_serve (Delete_User (Some n)) (au_users st) env1 = (p, us, env2)"
      using del n by simp
    note serve = user_serve_step[OF this users]
    show ?thesis
    proof (cases "p = HEALTH_CHECK_STATUS_OK")
      case True
      have view: "users_ok (us_snapshot us)" "user_view (us_snapshot us) = (user_view (us_snapshot (au_users st)))(c_str n := None)"
        using serve(3) True by (auto split: if_splits)
      have "healthy env"
        using h go(1)[OF False] True by simp
      then have "healthy env2"
        using UserStore_Find_view(1)[of n "au_users st" env f x env1] users find serve(2) n by (auto simp: only_time_def)
      moreover have "store_sane us"
        using view inv by (auto simp: store_sane_def auth_inv_def)
      ultimately have "auth_inv st2"
        using end_session_inv[OF e _ inv refl] current_role_put[OF view(2)] n by simp
      then show ?thesis
        using go(2)[OF False] True by simp
    next
      case fails: False
      then show ?thesis
        using go(2)[OF False] serve(1) inv by simp
    qed
  qed (use stop inv in simp)
qed

lemma auth_reach_inv: "auth_reach crypto ps st \<Longrightarrow> documented_crypto crypto \<Longrightarrow> auth_inv st"
proof (induction rule: auth_reach.induct)
  case (init st0 env st env')
  have "sessions st = replicate 9 zero_session"
    using init(1) by (auto simp: AuthService_Init_def Let_def split: prod.splits if_splits)
  then show ?case
    using init(2) by (simp add: auth_inv_def distinct_sessions_def zero_session_def)
next
  case (login st username password tokens env status tokens' st' env')
  then show ?case using Login_inv by blast
next
  case (refresh st token tokens env status tokens' st' env')
  then show ?case using Refresh_inv by blast
next
  case (revoke st token env status st' env')
  then show ?case using Revoke_inv by blast
next
  case (put st actor username password role enabled mustExist env status st' env')
  then show ?case using PutUser_inv by blast
next
  case (delete st actor username env status st' env')
  then show ?case using DeleteUser_inv by blast
qed

text \<open>Nine sessions are enough: every account and the master can have one.\<close>

lemma session_available:
  assumes inv: "auth_inv st" and known: "current_role (au_users st) (c_str n) \<noteq> None"
  shows "authService_FindSession n (sessions st) \<noteq> None"
proof
  assume none: "authService_FindSession n (sessions st) = None"
  let ?ss = "sessions st" and ?view = "user_view (us_snapshot (au_users st))"
  let ?f = "\<lambda>i. c_str (s_username (?ss ! i))"
  have active: "s_active (?ss ! i) \<noteq> 0 \<and> ?f i \<noteq> c_str n" if "i < 9" for i
    using none nth_mem[of i ?ss] that inv
    by (auto simp: authService_FindSession_def first_session_None session_of_def auth_inv_def split: option.splits)
  have inj: "inj_on ?f {..<9}"
    using inv active unfolding inj_on_def auth_inv_def distinct_sessions_def by (metis lessThan_iff)
  have known_names: "?f i \<in> insert ''master'' (dom ?view)" if "i < 9" for i
    using inv active[OF that] nth_mem[of i ?ss] that
    by (auto simp: auth_inv_def current_role_def split: if_splits option.splits)
  have fin: "finite (dom ?view)" and card: "card (dom ?view) \<le> 8"
  proof -
    have ok: "users_ok (us_snapshot (au_users st))"
      using inv by (simp add: auth_inv_def store_sane_def)
    show "finite (dom ?view)"
      by (simp add: user_view_dom)
    show "card (dom ?view) \<le> 8"
      using user_view_card[OF ok] ok by (simp add: users_ok_def users_fit_def word_le_nat_alt)
  qed
  have n: "c_str n \<in> insert ''master'' (dom ?view)"
    using known by (auto simp: current_role_def split: if_splits option.splits)
  have "?f ` {..<9} \<subseteq> insert ''master'' (dom ?view) - {c_str n}"
    using known_names active by auto
  then have "card (?f ` {..<9}) \<le> card (insert ''master'' (dom ?view) - {c_str n})"
    using fin by (intro card_mono) auto
  also have "\<dots> \<le> 8"
    using n fin card by (auto simp: card_Diff_singleton card_insert_if)
  finally show False
    using card_image[OF inj] by simp
qed

subsection \<open>Properties\<close>

text \<open>C2: Whatever logins, refreshes, revocations and account changes came before, an access
  token is accepted only for an identity that exists now, with the role it has now: the
  master as administrator, or a stored and enabled user with the stored role.  So deleting,
  disabling or demoting a user takes effect on its open session at once.\<close>

theorem auth_principal_current:
  assumes "auth_reach crypto ps st" "documented_crypto crypto"
    and "AuthService_Authorize crypto token st env = (AUTH_SERVICE_STATUS_OK, Some p, env')"
  shows "current_role (au_users st) (c_str (p_username p)) = Some (p_role p)"
proof -
  have inv: "auth_inv st"
    using auth_reach_inv[OF assms(1,2)] .
  obtain i where i: "i < length (sessions st)" "s_active (sessions st ! i) \<noteq> 0"
    "p = \<lparr>p_username = (strncpy [] (s_username (sessions st ! i)) 25)[24 := CHR 0x00], p_role = s_role (sessions st ! i)\<rparr>"
    using Authorize_cases(2)[OF assms(3)] by auto
  have "length (c_str (s_username (sessions st ! i))) \<le> 24"
    "current_role (au_users st) (c_str (s_username (sessions st ! i))) = Some (s_role (sessions st ! i))"
    using inv i(1,2) nth_mem[OF i(1)] by (auto simp: auth_inv_def)
  then show ?thesis
    using copied_name i(3) by simp
qed

text \<open>C18: The nine session slots never run out: with working hardware and cryptography, an
  enabled user who presents the password of the stored verifier is logged in.\<close>

theorem auth_login_succeeds:
  assumes "auth_reach crypto ps st" "documented_crypto crypto" "healthy env" "cryptoMutex ps"
    and "\<forall>bs. fst (mbedtls_sha256 crypto bs) = 0"
    and "user_view (us_snapshot (au_users st)) (c_str username) = Some u" "u_enabled u \<noteq> 0"
    and "mbedtls_pkcs5_pbkdf2_hmac_ext crypto password (u_salt u) (u_iterations u) = (0, u_verifier u)"
  shows "fst (AuthService_Login crypto ps (Some username) (Some password) tokens st env) = AUTH_SERVICE_STATUS_OK"
proof -
  have inv: "auth_inv st"
    using auth_reach_inv[OF assms(1,2)] .
  then have ok: "users_ok (us_snapshot (au_users st))" and name: "c_str username \<noteq> ''master''"
    using assms(6) by (auto simp: auth_inv_def store_sane_def)
  obtain f r env1 where find: "UserStore_Find (Some username) (au_users st) env = (f, r, env1)"
    using prod_cases3 by blast
  note view = UserStore_Find_view[OF find ok]
  have f: "f = HEALTH_CHECK_STATUS_OK" and r: "fst (the r) = u"
    using view(2,3) assms(3,6) by auto
  obtain s v env2 where d: "authService_Derive crypto ps password (u_salt u) (u_iterations u) env1 = (s, v, env2)"
    using prod_cases3 by blast
  have h1: "healthy env1"
    using view(1) assms(3) by (simp add: only_time_def)
  have s: "s = AUTH_SERVICE_STATUS_OK" "v = u_verifier u" "healthy env2"
    using Derive_frame[OF d] h1 assms(4,8) by (auto simp: only_time_def)
  have checked: "login_user crypto ps username password st env = (AUTH_SERVICE_STATUS_OK, u_role u, env2)"
    using find f r d s assms(7) by (simp add: login_user_def)
  obtain env3 where l: "xSemaphoreTake env2 = (True, env3)" "healthy env3"
    using xSemaphoreTake_healthy[OF s(3)] by blast
  have "current_role (au_users st) (c_str username) \<noteq> None"
    using name assms(6,7) by (simp add: current_role_def)
  note slot = session_available[OF inv this]
  obtain s2 tk st2 env4 where i: "authService_Issue crypto ps username (u_role u) tokens st env3 = (s2, tk, st2, env4)"
    using prod_cases4 by blast
  show ?thesis
    using Issue_cases(4)[OF i l(2) assms(4,5) slot] name checked l(1) i by (simp add: AuthService_Login_def)
qed

lemma Authorize_session:
  assumes inv: "auth_inv st" and i: "i < length (sessions st)" "sessions st ! i = s" "s_active s \<noteq> 0"
    and hash: "authService_HashToken crypto token = (HEALTH_CHECK_STATUS_OK, s_accessDigest s)" "length (c_str token) = 64"
    and unique: "\<forall>x \<in> set (sessions st). s_active x \<noteq> 0 \<and> s_accessDigest x = s_accessDigest s \<longrightarrow> c_str (s_username x) = c_str (s_username s)"
    and h: "healthy env"
  shows "case AuthService_Authorize crypto (Some token) st env of (status, p, _) \<Rightarrow>
    (status = AUTH_SERVICE_STATUS_OK) = (ticks env - s_accessIssuedAt s \<le> 900000) \<and>
    (status = AUTH_SERVICE_STATUS_OK \<longrightarrow>
       p = Some \<lparr>p_username = (strncpy [] (s_username s) 25)[24 := CHR 0x00], p_role = s_role s\<rparr>)"
proof -
  obtain env1 where l: "xSemaphoreTake env = (True, env1)" "ticks env1 = ticks env"
    using xSemaphoreTake_healthy[OF h] by (auto simp: touches_def)
  let ?m = "access_matches (ticks env) (s_accessDigest s)"
  have m: "?m s \<longleftrightarrow> ticks env - s_accessIssuedAt s \<le> 900000"
    by (simp add: access_matches_def i(3))
  have only: "j = i" if j: "j < length (sessions st)" "?m (sessions st ! j)" for j
  proof -
    have "c_str (s_username (sessions st ! j)) = c_str (s_username s)" "s_active (sessions st ! j) \<noteq> 0"
      using unique j nth_mem[OF j(1)] by (auto simp: access_matches_def)
    then show ?thesis
      using inv i j(1) unfolding auth_inv_def distinct_sessions_def by metis
  qed
  show ?thesis
  proof (cases "first_session ?m (sessions st)")
    case None
    then have "\<not> ?m s"
      using i nth_mem[OF i(1)] by (auto simp: first_session_None)
    then show ?thesis
      using None m by (simp add: AuthService_Authorize_def hash l)
  next
    case (Some j)
    note j = first_session_Some[OF Some]
    have "j = i"
      using only j by blast
    then show ?thesis
      using Some j m i(2) by (simp add: AuthService_Authorize_def hash l)
  qed
qed

text \<open>C38: After a login the access token is accepted exactly while the time since the login, counted
  modulo 2^32 ms, is at most 15 minutes, and it then stands for the user who logged in, with that user's role.
  This holds on working hardware as long as nothing else happens to the sessions or accounts in between, and if the new random token does not have the
  digest of an access token that another user held before the login.  In particular the token expires, and is accepted again when the 32-bit
  uptime has wrapped around.\<close>

theorem auth_token_lifetime:
  assumes "auth_reach crypto ps st" "documented_crypto crypto"
    and "AuthService_Login crypto ps (Some username) password tokens st env = (AUTH_SERVICE_STATUS_OK, tokens', st', env1)"
    and "\<forall>s \<in> set (sessions st). s_active s \<noteq> 0 \<and> c_str (s_username s) \<noteq> c_str username \<longrightarrow>
      s_accessDigest s \<noteq> snd (authService_HashToken crypto (t_accessToken tokens'))"
    and "healthy env2" "ticks env2 = ticks env1 + of_nat elapsed"
  shows "case AuthService_Authorize crypto (Some (t_accessToken tokens')) st' env2 of (status, p, _) \<Rightarrow>
    (status = AUTH_SERVICE_STATUS_OK) = (elapsed mod 2 ^ 32 \<le> 900000) \<and>
    (status = AUTH_SERVICE_STATUS_OK \<longrightarrow> c_str (p_username (the p)) = c_str username \<and>
       current_role (au_users st) (c_str username) = Some (p_role (the p)))"
proof -
  have inv0: "auth_inv st" and inv: "auth_inv st'"
    using auth_reach_inv[OF assms(1,2)] Login_inv[OF assms(3)] by simp_all
  obtain role env0 where issue: "authService_Issue crypto ps username role tokens st env0 = (AUTH_SERVICE_STATUS_OK, tokens', st', env1)"
    and user: "current_role (au_users st) (c_str username) = Some role" "length (c_str username) \<le> 24"
    using assms(3) inv0 by (cases rule: Login_issues) auto
  obtain i s where s: "authService_FindSession username (sessions st) = Some i" "st' = st\<lparr>sessions := (sessions st)[i := s]\<rparr>"
    "s_active s = 1" "s_accessIssuedAt s = ticks env1" "length (c_str (t_accessToken tokens')) = 64"
    "authService_HashToken crypto (t_accessToken tokens') = (HEALTH_CHECK_STATUS_OK, s_accessDigest s)"
    "s_username s = strncpy (memset_chars 25) username 24" "s_role s = role"
    using Issue_cases(3)[OF issue] by blast
  have i: "i < length (sessions st')" "sessions st' ! i = s"
    using FindSession_cases(1)[OF s(1)] s(2) by simp_all
  have name: "c_str (s_username s) = c_str username"
    using user(2) s(7) by (simp add: c_str_strncpy)
  note copied = copied_name[of "s_username s", unfolded name, OF user(2)]
  have "x = s" if x: "x \<in> set (sessions st')" "s_active x \<noteq> 0" "s_accessDigest x = s_accessDigest s" for x
  proof (rule ccontr)
    assume "x \<noteq> s"
    moreover obtain k where k: "k < length (sessions st')" "sessions st' ! k = x"
      using x(1) by (auto simp: in_set_conv_nth)
    ultimately have "k \<noteq> i"
      using i(2) by auto
    then obtain j where j: "j < length (sessions st)" "j \<noteq> i" "x = sessions st ! j"
      using k s(2) by simp
    have "c_str (s_username x) \<noteq> c_str username"
      using FindSession_fresh[OF s(1) _ j(1,2)] inv0 x(2) j(3) by (simp add: auth_inv_def)
    then show False
      using assms(4) x(2,3) j(1,3) s(6) by simp
  qed
  then have "\<forall>x \<in> set (sessions st'). s_active x \<noteq> 0 \<and> s_accessDigest x = s_accessDigest s \<longrightarrow> c_str (s_username x) = c_str (s_username s)"
    by blast
  note token = Authorize_session[OF inv i _ s(6,5) this assms(5)]
  have "ticks env2 - s_accessIssuedAt s \<le> 900000 \<longleftrightarrow> elapsed mod 2 ^ 32 \<le> 900000"
    by (simp add: s(4) assms(6) word_le_nat_alt unat_of_nat)
  then show ?thesis
    using token s(3,8) copied user(1) by (auto split: prod.splits)
qed

subsection \<open>A service at work\<close>

definition sample_crypto :: auth_crypto where
  "sample_crypto = \<lparr>mbedtls_pkcs5_pbkdf2_hmac_ext = (\<lambda>_ _ _. (0, masterPasswordVerifier)), mbedtls_sha256 = (\<lambda>bs. (0, bs))\<rparr>"

definition sample_platform :: TlsPlatform_State where
  "sample_platform = \<lparr>cryptoMutex = True\<rparr>"

definition auth_first :: "AuthService_State \<times> env" where
  "auth_first = snd (AuthService_Init \<lparr>sessions = [], au_users = users_static\<rparr> blank_env)"

lemma sample_crypto_documented: "documented_crypto sample_crypto" "\<forall>bs. fst (mbedtls_sha256 sample_crypto bs) = 0"
  by (simp_all add: documented_crypto_def sample_crypto_def masterPasswordVerifier_def)

lemma us_Init_blank:
  assumes "UserStore_Init st env = (s, us, env')" "healthy env"
    "sector_blank (cells env) FLASH_LAYOUT_USER_STORE_SECTOR_A" "sector_blank (cells env) FLASH_LAYOUT_USER_STORE_SECTOR_B"
  shows "s = HEALTH_CHECK_STATUS_OK" "us_snapshot us = zero_users" "healthy env'" "cells env' = cells env"
    "us_activeAddress us = FLASH_LAYOUT_USER_STORE_SECTOR_B"
proof -
  obtain b env0 where m: "xSemaphoreCreateMutexStatic env = (b, env0)" by fastforce
  obtain b1 x1 env1 where l1: "load_snapshot get_users 656 userStore_IsValid FLASH_LAYOUT_USER_STORE_SECTOR_A env0 = (b1, x1, env1)"
    using prod_cases3 by blast
  obtain b2 x2 env2 where l2: "load_snapshot get_users 656 userStore_IsValid FLASH_LAYOUT_USER_STORE_SECTOR_B env1 = (b2, x2, env2)"
    using prod_cases3 by blast
  note mutex = xSemaphoreCreateMutexStatic_frame[OF m]
  have "\<not> userStore_IsValid (get_users (replicate 656 0xFF))"
    by (simp add: userStore_IsValid_def get_users_def case_prod_unfold Let_def get_u32_blank)
  then have "\<not> b1" "\<not> b2" "cells env2 = cells env0" "healthy env2"
    using load_both_blank[OF l1 l2] mutex(1,3) assms(2-4) by (simp_all add: layout)
  then show "s = HEALTH_CHECK_STATUS_OK" "us_snapshot us = zero_users" "healthy env'" "cells env' = cells env"
    "us_activeAddress us = FLASH_LAYOUT_USER_STORE_SECTOR_B"
    using assms mutex m l1 l2 by (auto simp: UserStore_Init_def Let_def)
qed

lemma auth_first_reach:
  "auth_reach crypto ps (fst auth_first)" "healthy (snd auth_first)" "cells (snd auth_first) = cells blank_env"
  "au_users (fst auth_first) = users_static" "sessions (fst auth_first) = replicate 9 zero_session"
proof -
  obtain b env1 where m: "xSemaphoreCreateMutexStatic blank_env = (b, env1)" by fastforce
  obtain s us env2 where i: "UserStore_Init users_static env1 = (s, us, env2)"
    using prod_cases3 by blast
  have e: "healthy env1" "cells env1 = cells blank_env" b
    using xSemaphoreCreateMutexStatic_frame[OF m] healthy_blank by blast+
  note blank = us_Init_blank[OF i e(1), unfolded e(2), OF sector_blank_env sector_blank_env] and b = e(3)
  have us: "us = users_static"
    using blank(2,5) by (simp add: users_static_def)
  have run: "AuthService_Init \<lparr>sessions = [], au_users = users_static\<rparr> blank_env =
      (AUTH_SERVICE_STATUS_OK, \<lparr>sessions = replicate 9 zero_session, au_users = us\<rparr>, env2)"
    using m i b blank(1) by (simp add: AuthService_Init_def)
  show "healthy (snd auth_first)" "cells (snd auth_first) = cells blank_env" "au_users (fst auth_first) = users_static"
    "sessions (fst auth_first) = replicate 9 zero_session"
    using run us blank(3,4) by (simp_all add: auth_first_def)
  have "store_sane users_static"
    using users_first(2,4) by (simp add: store_sane_def)
  then show "auth_reach crypto ps (fst auth_first)"
    using auth_reach.init[OF run] us run by (simp add: auth_first_def)
qed

definition master_login :: "AuthService_StatusTypeDef \<times> AuthService_TokenPairTypeDef \<times> AuthService_State \<times> env" where
  "master_login = AuthService_Login sample_crypto sample_platform (Some ''master'') (Some [1]) zero_tokens (fst auth_first) (snd auth_first)"

lemma master_login_ok:
  "\<exists>tokens st env i s. master_login = (AUTH_SERVICE_STATUS_OK, tokens, st, env) \<and> healthy env \<and> ticks env = s_accessIssuedAt s \<and>
     i < 9 \<and> sessions st = (replicate 9 zero_session)[i := s] \<and> s_active s = 1 \<and> c_str (s_username s) = ''master'' \<and>
     length (c_str (t_accessToken tokens)) = 64 \<and>
     authService_HashToken sample_crypto (t_accessToken tokens) = (HEALTH_CHECK_STATUS_OK, s_accessDigest s)"
proof -
  let ?st = "fst auth_first" and ?env = "snd auth_first"
  obtain s v env1 where d: "authService_Derive sample_crypto sample_platform [1] masterPasswordSalt MASTER_PASSWORD_PBKDF2_ITERATIONS ?env = (s, v, env1)"
    using prod_cases3 by blast
  have s: "s = AUTH_SERVICE_STATUS_OK" "v = masterPasswordVerifier" "healthy env1"
    using Derive_frame[OF d] auth_first_reach(2) by (auto simp: sample_crypto_def sample_platform_def only_time_def)
  obtain env2 where l: "xSemaphoreTake env1 = (True, env2)" "healthy env2"
    using xSemaphoreTake_healthy[OF s(3)] by blast
  obtain s2 tk st2 env3 where i: "authService_Issue sample_crypto sample_platform ''master'' (role_code USER_ROLE_ADMINISTRATOR) zero_tokens ?st env2 = (s2, tk, st2, env3)"
    using prod_cases4 by blast
  have "auth_inv ?st"
    by (rule auth_reach_inv[OF auth_first_reach(1) sample_crypto_documented(1)])
  then have "authService_FindSession ''master'' (sessions ?st) \<noteq> None"
    by (rule session_available) (simp add: current_role_def)
  then have s2: "s2 = AUTH_SERVICE_STATUS_OK"
    using Issue_cases(4)[OF i l(2)] sample_crypto_documented(2) by (simp add: sample_platform_def)
  have m: "master_login = (s2, tk, st2, env3)"
    using d s(1,2) l(1) i by (simp add: master_login_def AuthService_Login_def AuthService_VerifyMasterPassword_def)
  obtain index x where x: "authService_FindSession ''master'' (sessions ?st) = Some index" "st2 = ?st\<lparr>sessions := (sessions ?st)[index := x]\<rparr>"
    "s_active x = 1" "s_username x = strncpy (memset_chars 25) ''master'' 24" "s_accessIssuedAt x = ticks env3"
    "length (c_str (t_accessToken tk)) = 64" "authService_HashToken sample_crypto (t_accessToken tk) = (HEALTH_CHECK_STATUS_OK, s_accessDigest x)"
    using Issue_cases(3)[OF i s2] by blast
  have "c_str (s_username x) = ''master''"
    unfolding x(4) by (subst c_str_strncpy) simp_all
  moreover have "index < 9"
    using FindSession_cases(1)[OF x(1)] by (simp add: auth_first_reach(5))
  moreover have "healthy env3"
    using Issue_cases(1)[OF i] l(2) by (simp add: only_time_def)
  ultimately show ?thesis
    using x(2,3,5-7) unfolding m s2
    by (intro exI[of _ tk] exI[of _ st2] exI[of _ env3] exI[of _ index] exI[of _ x]) (simp add: auth_first_reach(5))
qed

lemma master_sessions:
  assumes "sessions st = (replicate 9 zero_session)[i := s]" "x \<in> set (sessions st)" "s_active x \<noteq> 0"
  shows "x = s"
  using assms set_update_subset_insert[of "replicate 9 zero_session" i s] by (auto simp: zero_session_def)

theorem auth_token_lifetime_witness:
  "case master_login of (s, tokens, st, env) \<Rightarrow>
     (case AuthService_Authorize sample_crypto (Some (t_accessToken tokens)) st env of (status, p, _) \<Rightarrow>
        status = AUTH_SERVICE_STATUS_OK \<and> c_str (p_username (the p)) = ''master'')"
proof -
  obtain tokens st env where m: "master_login = (AUTH_SERVICE_STATUS_OK, tokens, st, env)" "healthy env"
    using master_login_ok by blast
  have "c_str ''master'' = ''master''"
    by (simp add: c_str_def)
  moreover have "\<forall>x \<in> set (sessions (fst auth_first)). s_active x \<noteq> 0 \<and> c_str (s_username x) \<noteq> c_str ''master'' \<longrightarrow>
      s_accessDigest x \<noteq> snd (authService_HashToken sample_crypto (t_accessToken tokens))"
    by (simp add: auth_first_reach(5) zero_session_def)
  ultimately show ?thesis
    using auth_token_lifetime[OF auth_first_reach(1) sample_crypto_documented(1) m(1)[unfolded master_login_def] _ m(2), of 0]
    unfolding m(1) prod.case by (auto split: prod.splits)
qed

theorem auth_principal_current_witness:
  "case master_login of (s, tokens, st, env) \<Rightarrow>
     case AuthService_Authorize sample_crypto (Some (t_accessToken tokens)) st env of (status, p, env') \<Rightarrow>
       current_role (au_users st) (c_str (p_username (the p))) = Some (p_role (the p))"
proof -
  obtain tokens st env i s where m: "master_login = (AUTH_SERVICE_STATUS_OK, tokens, st, env)" "healthy env" "ticks env = s_accessIssuedAt s"
    "i < 9" "sessions st = (replicate 9 zero_session)[i := s]" "s_active s = 1" "length (c_str (t_accessToken tokens)) = 64"
    "authService_HashToken sample_crypto (t_accessToken tokens) = (HEALTH_CHECK_STATUS_OK, s_accessDigest s)"
    using master_login_ok by blast
  have reach: "auth_reach sample_crypto sample_platform st"
    using auth_reach.login[OF auth_first_reach(1)] m(1) unfolding master_login_def by blast
  have inv: "auth_inv st"
    by (rule auth_reach_inv[OF reach sample_crypto_documented(1)])
  have i: "i < length (sessions st)" "sessions st ! i = s"
    using m(4,5) by simp_all
  have "\<forall>x \<in> set (sessions st). s_active x \<noteq> 0 \<and> s_accessDigest x = s_accessDigest s \<longrightarrow> c_str (s_username x) = c_str (s_username s)"
    using master_sessions[OF m(5)] by auto
  note token = Authorize_session[OF inv i _ m(8,7) this m(2)]
  obtain p env' where a: "AuthService_Authorize sample_crypto (Some (t_accessToken tokens)) st env = (AUTH_SERVICE_STATUS_OK, Some p, env')"
    using token m(3,6) by (auto split: prod.splits)
  show ?thesis
    using auth_principal_current[OF reach sample_crypto_documented(1) a] unfolding m(1) prod.case a by simp
qed

definition sample_admin :: AuthService_PrincipalTypeDef where
  "sample_admin = \<lparr>p_username = ''master'', p_role = 1\<rparr>"

definition ann_created :: "AuthService_StatusTypeDef \<times> AuthService_State \<times> env" where
  "ann_created = AuthService_PutUser sample_crypto sample_platform (Some sample_admin) (Some ''ann'') (Some (replicate 12 1))
     USER_ROLE_USER True False (fst auth_first) (snd auth_first)"

lemma ann_created_ok:
  "\<exists>st env u. ann_created = (AUTH_SERVICE_STATUS_OK, st, env) \<and> healthy env \<and> auth_reach sample_crypto sample_platform st \<and>
     user_view (us_snapshot (au_users st)) ''ann'' = Some u \<and> u_enabled u = 1 \<and> u_verifier u = masterPasswordVerifier"
proof -
  let ?st = "fst auth_first" and ?env = "snd auth_first"
  have ok: "users_ok (us_snapshot (au_users ?st))" and none: "user_view (us_snapshot (au_users ?st)) = Map.empty"
    using users_first(2,4) auth_first_reach(4) by simp_all
  obtain f x env1 where find: "UserStore_Find (Some ''ann'') (au_users ?st) ?env = (f, x, env1)"
    using prod_cases3 by blast
  note view = UserStore_Find_view[OF find ok]
  have f: "f \<noteq> HEALTH_CHECK_STATUS_OK" "healthy env1" "cells env1 = cells blank_env"
    using view(1,2) none auth_first_reach(2,3) by (auto simp: only_time_def)
  obtain r salt env2 where rand: "TlsPlatform_Random 16 sample_platform env1 = (r, salt, env2)"
    using prod_cases3 by blast
  have r: "r = HEALTH_CHECK_STATUS_OK" "healthy env2" "cells env2 = cells blank_env" "length salt = 16"
    using Random_frame[OF rand] f by (auto simp: only_time_def sample_platform_def)
  obtain s v env3 where d: "authService_Derive sample_crypto sample_platform (replicate 12 1) salt 100000 env2 = (s, v, env3)"
    using prod_cases3 by blast
  have s: "s = AUTH_SERVICE_STATUS_OK" "v = masterPasswordVerifier" "healthy env3" "cells env3 = cells blank_env"
    using Derive_frame[OF d] r by (auto simp: sample_crypto_def sample_platform_def only_time_def)
  define u where "u = zero_user\<lparr>u_enabled := 1, u_role := role_code USER_ROLE_USER, u_iterations := 100000,
      u_username := strncpy (u_username zero_user) ''ann'' 24, u_salt := salt, u_verifier := v\<rparr>"
  have name: "c_str (u_username u) = ''ann''"
    by (simp add: u_def zero_user_def c_str_strncpy)
  have wf: "user_request_wf (Put_User (Some u))"
    using r(4) s(2) by (simp add: u_def wf_user_def zero_user_def memset_chars_def masterPasswordVerifier_def)
  obtain p us env4 where put: "UserStore_Put (Some u) (au_users ?st) env3 = (p, us, env4)"
    using prod_cases3 by blast
  then have serve: "user_serve (Put_User (Some u)) (au_users ?st) env3 = (p, us, env4)"
    by simp
  have spec: "user_spec (Put_User (Some u)) (user_view (us_snapshot (au_users ?st))) = Some [''ann'' \<mapsto> u]"
    by (simp add: name none)
  have rest: "users_rest (au_users ?st) (cells env3)" "us_generation (us_snapshot (au_users ?st)) \<noteq> - 1"
    using users_first(1,3) s(4) auth_first_reach(4) by simp_all
  note stored = user_serve_healthy[OF rest ok wf s(3) spec serve]
  have v': "user_view (us_snapshot us) = [''ann'' \<mapsto> u]"
    using user_serve_step(3)[OF serve ok wf stored(1)] spec by simp
  obtain st2 env5 where e: "end_session ''ann'' (?st\<lparr>au_users := us\<rparr>) env4 = (st2, env5)" by fastforce
  have run: "ann_created = (AUTH_SERVICE_STATUS_OK, st2, env5)"
    unfolding ann_created_def AuthService_PutUser_def Let_def find prod.case rand
    using f(1) r(1) d s(1) put stored(1) e
    by (simp add: authService_IsAdministrator_def sample_admin_def u_def)
  have users: "au_users st2 = us" "healthy env5"
    using e xSemaphoreTake_healthy[OF stored(2)] by (auto simp: end_session_def split: option.splits if_splits)
  have "auth_reach sample_crypto sample_platform st2"
    using auth_reach.put[OF auth_first_reach(1) run[unfolded ann_created_def] auth_first_reach(2)] .
  moreover have "u_enabled u = 1" "u_verifier u = masterPasswordVerifier"
    by (simp_all add: u_def s(2))
  ultimately show ?thesis
    unfolding run using users v' by simp
qed

theorem auth_login_succeeds_witness:
  "case ann_created of (s, st, env) \<Rightarrow>
     fst (AuthService_Login sample_crypto sample_platform (Some ''ann'') (Some (replicate 12 1)) zero_tokens st env) = AUTH_SERVICE_STATUS_OK"
proof -
  obtain st env u where a: "ann_created = (AUTH_SERVICE_STATUS_OK, st, env)" "healthy env" "auth_reach sample_crypto sample_platform st"
    "user_view (us_snapshot (au_users st)) ''ann'' = Some u" "u_enabled u = 1" "u_verifier u = masterPasswordVerifier"
    using ann_created_ok by blast
  show ?thesis
    unfolding a(1) prod.case
    by (rule auth_login_succeeds[OF a(3) sample_crypto_documented(1) a(2) _ sample_crypto_documented(2), of "''ann''" u])
      (use a(4-6) in \<open>simp_all add: sample_platform_def sample_crypto_def\<close>)
qed

end
