(* ===== verification/Buzzer_Service.thy ===== *)
theory Buzzer_Service
  imports Prelude
begin

text \<open>
  \<open>Srv/Src/buzzer_service.c\<close>: alerts are queued and played one after the other.  The
  queue of the kernel is the list of waiting events, \<open>None\<close> while it does not exist; it
  holds twelve.  Playing an event is the sequence of what the buzzer and the clock see:
  frequencies set, tones and pauses in milliseconds (one tick each).
\<close>

subsection \<open>Definitions\<close>

record BuzzerService_EventTypeDef =
  be_type :: u8
  be_count :: u8

record BuzzerService_State =
  buzzerQueue :: "BuzzerService_EventTypeDef list option"

datatype buzzer_act = Frequency nat | Tone nat | Pause nat

definition BUZZER_QUEUE_LENGTH :: nat where
  "BUZZER_QUEUE_LENGTH = 12"

definition BuzzerService_Init :: "bool \<Rightarrow> bool \<Rightarrow> BuzzerService_State \<Rightarrow> bool \<times> BuzzerService_State" where
  "BuzzerService_Init queue_created task_created st =
     (let st1 = st\<lparr>buzzerQueue := (if queue_created then Some [] else None)\<rparr>
      in (queue_created \<and> task_created, st1))"

definition xQueueSend_buzzer :: "BuzzerService_EventTypeDef \<Rightarrow> BuzzerService_State \<Rightarrow> bool \<times> BuzzerService_State" where
  "xQueueSend_buzzer event st =
     (let waiting = the (buzzerQueue st) in
      if length waiting < BUZZER_QUEUE_LENGTH then (True, st\<lparr>buzzerQueue := Some (waiting @ [event])\<rparr>) else (False, st))"

definition BuzzerService_HealthCheckAlert :: "u8 \<Rightarrow> BuzzerService_State \<Rightarrow> bool \<times> BuzzerService_State" where
  "BuzzerService_HealthCheckAlert resourceId st =
     (if buzzerQueue st = None \<or> resourceId = 0 then (False, st)
      else xQueueSend_buzzer \<lparr>be_type = 1, be_count = resourceId\<rparr> st)"

definition BuzzerService_CertificateWarning :: "u8 \<Rightarrow> BuzzerService_State \<Rightarrow> bool \<times> BuzzerService_State" where
  "BuzzerService_CertificateWarning resourceId st =
     (if buzzerQueue st = None \<or> resourceId = 0 then (False, st)
      else xQueueSend_buzzer \<lparr>be_type = 5, be_count = resourceId\<rparr> st)"

text \<open>The queue is emptied first, so sending to its front always succeeds.\<close>

definition BuzzerService_FactoryResetWarning :: "BuzzerService_State \<Rightarrow> BuzzerService_State" where
  "BuzzerService_FactoryResetWarning st =
     (if buzzerQueue st = None then st else st\<lparr>buzzerQueue := Some [\<lparr>be_type = 2, be_count = 0\<rparr>]\<rparr>)"

definition BuzzerService_FactoryResetWarningDuration :: u32 where
  "BuzzerService_FactoryResetWarningDuration = 5 * 350 + (5 - 1) * 150"

definition BuzzerService_FactoryResetCancelled :: "BuzzerService_State \<Rightarrow> BuzzerService_State" where
  "BuzzerService_FactoryResetCancelled st =
     (if buzzerQueue st = None then st else st\<lparr>buzzerQueue := Some [\<lparr>be_type = 3, be_count = 0\<rparr>]\<rparr>)"

definition BuzzerService_FactoryResetFailure :: "BuzzerService_State \<Rightarrow> BuzzerService_State" where
  "BuzzerService_FactoryResetFailure st =
     (if buzzerQueue st = None then st else st\<lparr>buzzerQueue := Some [\<lparr>be_type = 4, be_count = 0\<rparr>]\<rparr>)"

definition buzzerService_Beep :: "nat \<Rightarrow> buzzer_act list" where
  "buzzerService_Beep durationMs = [Tone durationMs]"

text \<open>The loops that sound a tone \<open>count\<close> times with pauses in between, from \<open>index\<close>
  on.\<close>

function beeps :: "nat \<Rightarrow> nat \<Rightarrow> nat \<Rightarrow> nat \<Rightarrow> buzzer_act list" where
  "beeps tone gap count index =
     (if index < count
      then buzzerService_Beep tone @ (if index + 1 < count then [Pause gap] else []) @ beeps tone gap count (index + 1)
      else [])"
  by pat_completeness auto
termination
  by (relation "measure (\<lambda>(tone, gap, count, index). count - index)") auto

declare beeps.simps [simp del]

definition buzzerService_PlayResourceId :: "u8 \<Rightarrow> buzzer_act list" where
  "buzzerService_PlayResourceId resourceId = Frequency 2500 # beeps 120 120 (unat resourceId) 0"

fun melody :: "nat list \<Rightarrow> buzzer_act list" where
  "melody [] = []"
| "melody (hz # rest) =
     Frequency hz # buzzerService_Beep 120 @ (if rest \<noteq> [] then [Pause 45] else []) @ melody rest"

definition buzzerService_PlayResourceWarning :: "nat list \<Rightarrow> u8 \<Rightarrow> buzzer_act list" where
  "buzzerService_PlayResourceWarning melodyHz resourceId =
     melody melodyHz @ [Pause 250] @ buzzerService_PlayResourceId resourceId"

definition sos_durations :: "nat list" where
  "sos_durations = [100, 100, 100, 300, 300, 300, 100, 100, 100]"

definition sos_symbol :: "nat \<Rightarrow> buzzer_act list" where
  "sos_symbol index =
     buzzerService_Beep (sos_durations ! index) @
     (if index = 2 \<or> index = 5 then [Pause 300] else if index + 1 < 9 then [Pause 100] else [])"

definition buzzerService_PlayHealthCheckAlert :: "u8 \<Rightarrow> buzzer_act list" where
  "buzzerService_PlayHealthCheckAlert resourceId =
     Frequency 1800 # concat (map sos_symbol [0..<9]) @ [Pause 700] @ buzzerService_PlayResourceId resourceId"

definition buzzerService_Task_start :: "buzzer_act list" where
  "buzzerService_Task_start = buzzerService_Beep 150"

text \<open>One round of the task's loop.\<close>

definition buzzerService_Play :: "BuzzerService_EventTypeDef \<Rightarrow> buzzer_act list" where
  "buzzerService_Play event =
     (if be_type event = 2 \<or> be_type event = 3 then beeps 350 150 (if be_type event = 2 then 5 else 3) 0
      else if be_type event = 4 then beeps 70 70 5 0
      else if be_type event = 5 then buzzerService_PlayResourceWarning [1760, 1175, 1760] (be_count event)
      else buzzerService_PlayHealthCheckAlert (be_count event))"

definition buzzerService_Task_step :: "BuzzerService_State \<Rightarrow> buzzer_act list \<times> BuzzerService_State" where
  "buzzerService_Task_step st =
     (case buzzerQueue st of
        Some (event # waiting) \<Rightarrow> (buzzerService_Play event, st\<lparr>buzzerQueue := Some waiting\<rparr>)
      | _ \<Rightarrow> ([], st))"

fun act_duration :: "buzzer_act \<Rightarrow> nat" where
  "act_duration (Frequency hz) = 0"
| "act_duration (Tone ms) = ms"
| "act_duration (Pause ms) = ms"

definition play_duration :: "buzzer_act list \<Rightarrow> nat" where
  "play_duration acts = sum_list (map act_duration acts)"

definition queue_bounded :: "BuzzerService_State \<Rightarrow> bool" where
  "queue_bounded st \<longleftrightarrow> (\<forall>waiting. buzzerQueue st = Some waiting \<longrightarrow> length waiting \<le> BUZZER_QUEUE_LENGTH)"

subsection \<open>Facts\<close>

lemma beeps_duration:
  "index < count \<Longrightarrow> play_duration (beeps tone gap count index) = (count - index) * tone + (count - index - 1) * gap"
proof (induction tone gap count index rule: beeps.induct)
  case (1 tone gap count index)
  show ?case
  proof (cases "index + 1 < count")
    case True
    then obtain k where k: "count = index + 2 + k"
      using less_imp_add_positive[of "index + 1" count] by (metis One_nat_def Suc_eq_plus1 add_2_eq_Suc' add_Suc_shift gr0_implies_Suc)
    have "play_duration (beeps tone gap count (index + 1)) = (count - (index + 1)) * tone + (count - (index + 1) - 1) * gap"
      using 1 True by simp
    then show ?thesis
      using True by (subst beeps.simps) (simp add: play_duration_def buzzerService_Beep_def k)
  next
    case False
    with 1 have "count = index + 1"
      by simp
    then show ?thesis
      by (subst beeps.simps, subst beeps.simps) (simp add: play_duration_def buzzerService_Beep_def)
  qed
qed

lemma warning_duration:
  "play_duration (buzzerService_Play \<lparr>be_type = 2, be_count = n\<rparr>) = unat BuzzerService_FactoryResetWarningDuration"
  by (simp add: buzzerService_Play_def beeps_duration BuzzerService_FactoryResetWarningDuration_def)

lemma alert_queue_bounded:
  assumes "queue_bounded st"
  shows "queue_bounded (snd (BuzzerService_HealthCheckAlert i st))" "queue_bounded (snd (BuzzerService_CertificateWarning i st))"
    "queue_bounded (BuzzerService_FactoryResetWarning st)" "queue_bounded (BuzzerService_FactoryResetCancelled st)"
    "queue_bounded (BuzzerService_FactoryResetFailure st)" "queue_bounded (snd (buzzerService_Task_step st))"
  using assms
  by (auto simp: queue_bounded_def BuzzerService_HealthCheckAlert_def BuzzerService_CertificateWarning_def
      BuzzerService_FactoryResetWarning_def BuzzerService_FactoryResetCancelled_def BuzzerService_FactoryResetFailure_def
      xQueueSend_buzzer_def BUZZER_QUEUE_LENGTH_def buzzerService_Task_step_def Let_def split: option.splits list.splits)

lemma reset_warning_next:
  assumes "buzzerQueue st = Some waiting"
  shows "fst (buzzerService_Task_step (BuzzerService_FactoryResetWarning st)) = buzzerService_Play \<lparr>be_type = 2, be_count = 0\<rparr>"
  using assms by (simp add: BuzzerService_FactoryResetWarning_def buzzerService_Task_step_def)

end
