(* ===== verification/Factory_Reset.thy ===== *)
theory Factory_Reset
  imports Ab_Store Buzzer_Service Object_Rep
begin

text \<open>
  \<open>Srv/Src/factory_reset_service.c\<close>: the reset button and the erasure of all persistent
  state.  The task polls the button every 20 ms; a \<open>poll\<close> is what one round of a polling
  loop sees, the raw button level and the tick count (time passes only while the task
  sleeps), and running out of polls (\<open>None\<close>) means that the task is still waiting.  The
  restart of the controller is a flag of the result.
\<close>

subsection \<open>The button\<close>

datatype FactoryReset_ButtonEventTypeDef =
    FACTORY_RESET_BUTTON_EVENT_NONE
  | FACTORY_RESET_BUTTON_EVENT_PRESSED
  | FACTORY_RESET_BUTTON_EVENT_RELEASED

record FactoryReset_ButtonStateTypeDef =
  stablePressed :: u8
  candidatePressed :: u8
  candidateSamples :: u8

record poll =
  poll_pressed :: bool
  poll_tick :: u32

definition factoryResetService_UpdateButton ::
  "bool \<Rightarrow> FactoryReset_ButtonStateTypeDef \<Rightarrow> FactoryReset_ButtonEventTypeDef \<times> FactoryReset_ButtonStateTypeDef" where
  "factoryResetService_UpdateButton raw button =
     (let pressed = (if raw then 1 else 0) in
      if pressed \<noteq> candidatePressed button
      then (FACTORY_RESET_BUTTON_EVENT_NONE, button\<lparr>candidatePressed := pressed, candidateSamples := 1\<rparr>)
      else
        let button = (if candidateSamples button < 3 then button\<lparr>candidateSamples := candidateSamples button + 1\<rparr> else button) in
        if candidateSamples button < 3 \<or> stablePressed button = candidatePressed button
        then (FACTORY_RESET_BUTTON_EVENT_NONE, button)
        else
          let button = button\<lparr>stablePressed := candidatePressed button\<rparr>
          in (if stablePressed button \<noteq> 0 then FACTORY_RESET_BUTTON_EVENT_PRESSED else FACTORY_RESET_BUTTON_EVENT_RELEASED,
              button))"

fun factoryResetService_WaitForLongPress ::
  "nat \<Rightarrow> FactoryReset_ButtonStateTypeDef \<Rightarrow> poll list \<Rightarrow> (FactoryReset_ButtonStateTypeDef \<times> poll list) option" where
  "factoryResetService_WaitForLongPress pressedSamples button [] =
     (if pressedSamples < 500 then None else Some (button, []))"
| "factoryResetService_WaitForLongPress pressedSamples button (p # ps) =
     (if pressedSamples < 500 then
        let (_, button) = factoryResetService_UpdateButton (poll_pressed p) button
        in factoryResetService_WaitForLongPress (if stablePressed button \<noteq> 0 then pressedSamples + 1 else 0) button ps
      else Some (button, p # ps))"

text \<open>The loop of the task that lets the warning sound finish.\<close>

fun factoryResetService_WarningLoop ::
  "u32 \<Rightarrow> u32 \<Rightarrow> FactoryReset_ButtonStateTypeDef \<Rightarrow> poll list \<Rightarrow> (FactoryReset_ButtonStateTypeDef \<times> poll list) option" where
  "factoryResetService_WarningLoop warningStarted warningWait button [] = None"
| "factoryResetService_WarningLoop warningStarted warningWait button (p # ps) =
     (if poll_tick p - warningStarted < warningWait then
        let (_, button) = factoryResetService_UpdateButton (poll_pressed p) button
        in factoryResetService_WarningLoop warningStarted warningWait button ps
      else Some (button, p # ps))"

text \<open>The loop of \<open>factoryResetService_WaitForCancellation\<close>; the first result tells whether
  the reset was cancelled.\<close>

fun factoryResetService_CancelLoop ::
  "u32 \<Rightarrow> u32 \<Rightarrow> u8 \<Rightarrow> u8 \<Rightarrow> FactoryReset_ButtonStateTypeDef \<Rightarrow> poll list \<Rightarrow>
   (bool \<times> FactoryReset_ButtonStateTypeDef \<times> poll list) option" where
  "factoryResetService_CancelLoop windowStarted firstClickAt clickCount armed button [] = None"
| "factoryResetService_CancelLoop windowStarted firstClickAt clickCount armed button (p # ps) =
     (if poll_tick p - windowStarted < 10000 then
        let (event, button) = factoryResetService_UpdateButton (poll_pressed p) button; now = poll_tick p in
        if armed = 0 then
          factoryResetService_CancelLoop windowStarted firstClickAt clickCount
            (if event = FACTORY_RESET_BUTTON_EVENT_RELEASED then 1 else armed) button ps
        else if event = FACTORY_RESET_BUTTON_EVENT_PRESSED then
          if clickCount = 0 \<or> now - firstClickAt > 600
          then factoryResetService_CancelLoop windowStarted now 1 armed button ps
          else Some (True, button, p # ps)
        else factoryResetService_CancelLoop windowStarted firstClickAt clickCount armed button ps
      else Some (False, button, p # ps))"

definition factoryResetService_WaitForCancellation ::
  "FactoryReset_ButtonStateTypeDef \<Rightarrow> poll list \<Rightarrow> (bool \<times> FactoryReset_ButtonStateTypeDef \<times> poll list) option" where
  "factoryResetService_WaitForCancellation button polls =
     (case polls of
        [] \<Rightarrow> None
      | p # _ \<Rightarrow> factoryResetService_CancelLoop (poll_tick p) 0 0 (if stablePressed button = 0 then 1 else 0) button polls)"

fun factoryResetService_WaitForRelease ::
  "FactoryReset_ButtonStateTypeDef \<Rightarrow> poll list \<Rightarrow> (FactoryReset_ButtonStateTypeDef \<times> poll list) option" where
  "factoryResetService_WaitForRelease button [] = (if stablePressed button \<noteq> 0 then None else Some (button, []))"
| "factoryResetService_WaitForRelease button (p # ps) =
     (if stablePressed button \<noteq> 0 then
        let (_, button) = factoryResetService_UpdateButton (poll_pressed p) button
        in factoryResetService_WaitForRelease button ps
      else Some (button, p # ps))"

subsection \<open>The marker and the erasure\<close>

record FactoryResetMarker_TypeDef =
  fm_magic :: u32
  fm_inverseMagic :: u32

definition FACTORY_RESET_MARKER_MAGIC :: u32 where
  "FACTORY_RESET_MARKER_MAGIC = 0x46525354"

definition put_marker :: "FactoryResetMarker_TypeDef \<Rightarrow> u8 list" where
  "put_marker m = put_u32 (fm_magic m) @ put_u32 (fm_inverseMagic m)"

definition get_marker :: "u8 list \<Rightarrow> FactoryResetMarker_TypeDef" where
  "get_marker bs = (let (magic, bs) = get_u32 bs; (inverse, bs) = get_u32 bs in \<lparr>fm_magic = magic, fm_inverseMagic = inverse\<rparr>)"

definition marker_ok :: "FactoryResetMarker_TypeDef \<Rightarrow> bool" where
  "marker_ok m \<longleftrightarrow> fm_magic m = FACTORY_RESET_MARKER_MAGIC \<and> fm_inverseMagic m = NOT FACTORY_RESET_MARKER_MAGIC"

text \<open>The flag keeps its value 0 when the read fails.\<close>

definition factoryResetService_ReadMarker :: "env \<Rightarrow> W25Q64_StatusTypeDef \<times> bool \<times> env" where
  "factoryResetService_ReadMarker env =
     (let (status, d, env1) = W25Q64_Read FLASH_LAYOUT_FACTORY_RESET_MARKER_SECTOR 8 env in
      if status \<noteq> W25Q64_STATUS_OK then (status, False, env1)
      else (W25Q64_STATUS_OK, marker_ok (get_marker d), env1))"

definition factoryResetService_WriteMarker :: "env \<Rightarrow> W25Q64_StatusTypeDef \<times> env" where
  "factoryResetService_WriteMarker env =
     (let marker = \<lparr>fm_magic = FACTORY_RESET_MARKER_MAGIC, fm_inverseMagic = NOT FACTORY_RESET_MARKER_MAGIC\<rparr>;
          (erased, env1) = W25Q64_EraseSector FLASH_LAYOUT_FACTORY_RESET_MARKER_SECTOR env;
          (operationStatus, env2) =
            (if erased = W25Q64_STATUS_OK
             then W25Q64_Program FLASH_LAYOUT_FACTORY_RESET_MARKER_SECTOR (Some (put_marker marker)) env1
             else (erased, env1));
          (status, isValid, env3) = factoryResetService_ReadMarker env2
      in if status = W25Q64_STATUS_OK \<and> isValid then (W25Q64_STATUS_OK, env3)
         else if operationStatus \<noteq> W25Q64_STATUS_OK then (operationStatus, env3)
         else (if status \<noteq> W25Q64_STATUS_OK then status else W25Q64_STATUS_IO_ERROR, env3))"

definition factoryResetService_ErasePersistentState :: "env \<Rightarrow> W25Q64_StatusTypeDef \<times> env" where
  "factoryResetService_ErasePersistentState env =
     (let (s1, env1) = W25Q64_EraseSector FLASH_LAYOUT_CALLBACK_CONFIG_SECTOR_A env in
      if s1 \<noteq> W25Q64_STATUS_OK then (s1, env1)
      else
        let (s2, env2) = W25Q64_EraseSector FLASH_LAYOUT_CALLBACK_CONFIG_SECTOR_B env1 in
        if s2 \<noteq> W25Q64_STATUS_OK then (s2, env2)
        else W25Q64_EraseRange FLASH_LAYOUT_FACTORY_RESET_MARKER_SECTOR
               (FLASH_LAYOUT_FACTORY_RESET_DATA_LENGTH + W25Q64_SECTOR_SIZE) env2)"

text \<open>The flag tells that the controller was restarted, from where nothing returns.\<close>

definition FactoryResetService_ResumePending :: "env \<Rightarrow> W25Q64_StatusTypeDef \<times> bool \<times> env" where
  "FactoryResetService_ResumePending env =
     (let (status, isValid, env1) = factoryResetService_ReadMarker env in
      if status \<noteq> W25Q64_STATUS_OK then (status, False, env1)
      else if \<not> isValid then (W25Q64_STATUS_OK, False, env1)
      else
        let (status, env2) = factoryResetService_ErasePersistentState env1 in
        if status \<noteq> W25Q64_STATUS_OK then (status, False, env2) else (W25Q64_STATUS_IO_ERROR, True, env2))"

subsection \<open>The task\<close>

datatype reset_outcome = Reset_Cancelled | Reset_Marker_Failed | Reset_Restarted W25Q64_StatusTypeDef

text \<open>One round of the task: from a long press to the end of the loop body or the restart,
  which carries the status of the erasure.\<close>

definition factoryResetService_Task_round ::
  "FactoryReset_ButtonStateTypeDef \<Rightarrow> poll list \<Rightarrow> BuzzerService_State \<Rightarrow> env \<Rightarrow>
   (reset_outcome \<times> FactoryReset_ButtonStateTypeDef \<times> poll list \<times> BuzzerService_State \<times> env) option" where
  "factoryResetService_Task_round button polls buzzer env =
     (case factoryResetService_WaitForLongPress 0 button polls of
        None \<Rightarrow> None
      | Some (button, polls) \<Rightarrow>
          let buzzer = BuzzerService_FactoryResetWarning buzzer in
          case polls of
            [] \<Rightarrow> None
          | p # _ \<Rightarrow>
              (case factoryResetService_WarningLoop (poll_tick p) (BuzzerService_FactoryResetWarningDuration + 20) button polls of
                 None \<Rightarrow> None
               | Some (button, polls) \<Rightarrow>
                   (case factoryResetService_WaitForCancellation button polls of
                      None \<Rightarrow> None
                    | Some (True, button, polls) \<Rightarrow>
                        let buzzer = BuzzerService_FactoryResetCancelled buzzer in
                        (case factoryResetService_WaitForRelease button polls of
                           None \<Rightarrow> None
                         | Some (button, polls) \<Rightarrow> Some (Reset_Cancelled, button, polls, buzzer, env))
                    | Some (False, button, polls) \<Rightarrow>
                        let (status, env1) = factoryResetService_WriteMarker env in
                        if status \<noteq> W25Q64_STATUS_OK then
                          let buzzer = BuzzerService_FactoryResetFailure buzzer in
                          (case factoryResetService_WaitForRelease button polls of
                             None \<Rightarrow> None
                           | Some (button, polls) \<Rightarrow> Some (Reset_Marker_Failed, button, polls, buzzer, env1))
                        else
                          let (status, env2) = factoryResetService_ErasePersistentState env1;
                              buzzer = (if status \<noteq> W25Q64_STATUS_OK then BuzzerService_FactoryResetFailure buzzer else buzzer)
                          in Some (Reset_Restarted status, button, polls, buzzer, env2))))"

subsection \<open>What the lemmas speak about\<close>

definition marker_at :: "(nat \<Rightarrow> u8) \<Rightarrow> bool" where
  "marker_at c \<longleftrightarrow> marker_ok (get_marker (cells_at c (unat FLASH_LAYOUT_FACTORY_RESET_MARKER_SECTOR) 8))"

text \<open>All persistent data is erased, the marker not counted.\<close>

definition reset_done :: "(nat \<Rightarrow> u8) \<Rightarrow> bool" where
  "reset_done c \<longleftrightarrow> sector_blank c FLASH_LAYOUT_CALLBACK_CONFIG_SECTOR_A \<and> sector_blank c FLASH_LAYOUT_CALLBACK_CONFIG_SECTOR_B \<and>
     (\<forall>i. unat FLASH_LAYOUT_FACTORY_RESET_DATA_START \<le> i \<and> i < W25Q64_CAPACITY_BYTES \<longrightarrow> c i = 0xFF)"

text \<open>The debounced presses of a sequence of polls, seen by an armed detector, with their
  times.\<close>

fun press_times :: "FactoryReset_ButtonStateTypeDef \<Rightarrow> poll list \<Rightarrow> u32 list" where
  "press_times button [] = []"
| "press_times button (p # ps) =
     (let (event, button') = factoryResetService_UpdateButton (poll_pressed p) button
      in (if event = FACTORY_RESET_BUTTON_EVENT_PRESSED then [poll_tick p] else []) @ press_times button' ps)"

text \<open>Two presses in a row at most 600 ms apart.\<close>

fun double_click :: "u32 list \<Rightarrow> bool" where
  "double_click (t # u # ts) \<longleftrightarrow> u - t \<le> 600 \<or> double_click (u # ts)"
| "double_click _ \<longleftrightarrow> False"

definition wf_button :: "FactoryReset_ButtonStateTypeDef \<Rightarrow> bool" where
  "wf_button button \<longleftrightarrow> stablePressed button \<in> {0, 1} \<and> candidatePressed button \<in> {0, 1}"

subsection \<open>The cancellation window\<close>

lemma UpdateButton_facts:
  assumes "factoryResetService_UpdateButton raw button = (event, button')" "wf_button button"
  shows "wf_button button'" "event = FACTORY_RESET_BUTTON_EVENT_PRESSED \<Longrightarrow> stablePressed button = 0"
    "stablePressed button \<noteq> 0 \<Longrightarrow> event \<noteq> FACTORY_RESET_BUTTON_EVENT_RELEASED \<Longrightarrow> stablePressed button' \<noteq> 0"
  using assms
  by (auto simp: factoryResetService_UpdateButton_def wf_button_def Let_def split: if_splits)

lemma CancelLoop_exact:
  assumes "wf_button button" "armed = 0 \<Longrightarrow> stablePressed button \<noteq> 0 \<and> clickCount = 0" "armed \<in> {0, 1}"
    and "win = takeWhile (\<lambda>p. poll_tick p - windowStarted < 10000) polls"
    and "presses = (if clickCount = 0 then [] else [firstClickAt]) @ press_times button win"
  shows "map_option fst (factoryResetService_CancelLoop windowStarted firstClickAt clickCount armed button polls) =
    (if double_click presses then Some True else if win = polls then None else Some False)"
  using assms
proof (induction polls arbitrary: firstClickAt clickCount armed button win presses)
  case Nil
  then show ?case by simp
next
  case (Cons p ps)
  show ?case
  proof (cases "poll_tick p - windowStarted < 10000")
    case False
    then show ?thesis
      using Cons.prems by simp
  next
    case True
    obtain event button' where u: "factoryResetService_UpdateButton (poll_pressed p) button = (event, button')" by fastforce
    note facts = UpdateButton_facts[OF u Cons.prems(1)]
    define win' where "win' = takeWhile (\<lambda>p. poll_tick p - windowStarted < 10000) ps"
    have win: "win = p # win'" "win = p # ps \<longleftrightarrow> win' = ps"
      using Cons.prems(4) True by (simp_all add: win'_def)
    have presses: "presses = (if clickCount = 0 then [] else [firstClickAt]) @
        (if event = FACTORY_RESET_BUTTON_EVENT_PRESSED then [poll_tick p] else []) @ press_times button' win'"
      using Cons.prems(5) by (simp add: win(1) u)
    note IH = Cons.IH[OF facts(1) _ _ win'_def refl]
    show ?thesis
    proof (cases "armed = 0")
      case unarmed: True
      let ?armed = "if event = FACTORY_RESET_BUTTON_EVENT_RELEASED then 1 else 0 :: u8"
      have e: "event \<noteq> FACTORY_RESET_BUTTON_EVENT_PRESSED" "clickCount = 0"
        using unarmed facts(2) Cons.prems(2) by auto
      have "factoryResetService_CancelLoop windowStarted firstClickAt clickCount armed button (p # ps) =
          factoryResetService_CancelLoop windowStarted firstClickAt 0 ?armed button' ps"
        using unarmed True u e(2) by (simp add: Let_def)
      moreover have "?armed = 0 \<Longrightarrow> stablePressed button' \<noteq> 0 \<and> (0 :: u8) = 0"
        using facts(3) Cons.prems(2) unarmed by (auto split: if_splits)
      ultimately show ?thesis
        using IH[of ?armed 0 firstClickAt] e presses win(2) by (simp only:) simp
    next
      case armed: False
      show ?thesis
      proof (cases "event = FACTORY_RESET_BUTTON_EVENT_PRESSED")
        case press: True
        show ?thesis
        proof (cases "clickCount = 0 \<or> poll_tick p - firstClickAt > 600")
          case fresh: True
          then have "factoryResetService_CancelLoop windowStarted firstClickAt clickCount armed button (p # ps) =
              factoryResetService_CancelLoop windowStarted (poll_tick p) 1 armed button' ps"
            using armed True u press by (simp add: Let_def)
          moreover have "double_click presses = double_click (poll_tick p # press_times button' win')"
            using fresh press by (auto simp: presses)
          ultimately show ?thesis
            using IH[of armed 1 "poll_tick p"] armed Cons.prems(3) win(2) by (simp only:) simp
        next
          case False
          then have "factoryResetService_CancelLoop windowStarted firstClickAt clickCount armed button (p # ps) =
              Some (True, button', p # ps)"
            using armed True u press by (simp add: Let_def)
          moreover have "double_click presses"
            using False press by (auto simp: presses not_less)
          ultimately show ?thesis
            by (simp only:) simp
        qed
      next
        case False
        then have "factoryResetService_CancelLoop windowStarted firstClickAt clickCount armed button (p # ps) =
            factoryResetService_CancelLoop windowStarted firstClickAt clickCount armed button' ps"
          using armed True u by (simp add: Let_def)
        then show ?thesis
          using IH[of armed clickCount firstClickAt] armed Cons.prems(3) False presses win(2) by (simp only:) simp
      qed
    qed
  qed
qed

subsection \<open>The erasure\<close>

lemma reset_layout:
  "unat FLASH_LAYOUT_FACTORY_RESET_MARKER_SECTOR = 8278016" "unat FLASH_LAYOUT_FACTORY_RESET_DATA_START = 8282112"
  "unat (FLASH_LAYOUT_FACTORY_RESET_DATA_LENGTH + W25Q64_SECTOR_SIZE) = 110592"
  "unat FLASH_LAYOUT_CALLBACK_CONFIG_SECTOR_A + 4096 \<le> unat FLASH_LAYOUT_CALLBACK_CONFIG_SECTOR_B"
  "unat FLASH_LAYOUT_CALLBACK_CONFIG_SECTOR_B + 4096 \<le> 8278016"
  "unat FLASH_LAYOUT_CALLBACK_CONFIG_SECTOR_A mod 4096 = 0" "unat FLASH_LAYOUT_CALLBACK_CONFIG_SECTOR_B mod 4096 = 0"
  by (simp_all add: layout)

lemma marker_at_cong:
  assumes "\<And>i. 8278016 \<le> i \<Longrightarrow> i < 8278024 \<Longrightarrow> c' i = c i"
  shows "marker_at c' = marker_at c"
proof -
  have "cells_at c' 8278016 8 = cells_at c 8278016 8"
    using assms by (intro cells_at_cong) simp
  then show ?thesis
    by (simp add: marker_at_def reset_layout)
qed

lemma ErasePersistentState_outcome:
  assumes run: "factoryResetService_ErasePersistentState env = (status, env')"
  shows "status = W25Q64_STATUS_OK \<Longrightarrow> reset_done (cells env')" "healthy env \<Longrightarrow> status = W25Q64_STATUS_OK \<and> healthy env'"
    "status \<noteq> W25Q64_STATUS_OK \<Longrightarrow> marker_at (cells env) \<Longrightarrow> marker_at (cells env') \<or> reset_done (cells env')"
proof -
  let ?A = "FLASH_LAYOUT_CALLBACK_CONFIG_SECTOR_A" and ?B = "FLASH_LAYOUT_CALLBACK_CONFIG_SECTOR_B"
  let ?n = "FLASH_LAYOUT_FACTORY_RESET_DATA_LENGTH + W25Q64_SECTOR_SIZE"
  obtain s1 env1 where e1: "W25Q64_EraseSector ?A env = (s1, env1)" by fastforce
  obtain s2 env2 where e2: "W25Q64_EraseSector ?B env1 = (s2, env2)" by fastforce
  obtain s3 env3 where e3: "W25Q64_EraseRange FLASH_LAYOUT_FACTORY_RESET_MARKER_SECTOR ?n env2 = (s3, env3)" by fastforce
  have same1: "cells env1 i = cells env i" if "unat ?A + 4096 \<le> i" for i
    using flash.er_frame[OF e1, of i] that by simp
  have same2: "cells env2 i = cells env1 i" if "i < unat ?B \<or> unat ?B + 4096 \<le> i" for i
    using flash.er_frame[OF e2, of i] that by simp
  have c3: "commits 8278016 110592 (\<lambda>_. 0xFF) env2 (s3, env3)"
    using EraseRange_commits[of FLASH_LAYOUT_FACTORY_RESET_MARKER_SECTOR ?n env2] e3 by (simp add: reset_layout)
  then have same3: "cells env3 i = cells env2 i" if "i < 8278016" for i
    using that by (simp add: commits_def touches_def)
  have callback: "sector_blank c ?A \<and> sector_blank c ?B"
    if "s1 = W25Q64_STATUS_OK" "s2 = W25Q64_STATUS_OK" "\<And>i. i < 8278016 \<Longrightarrow> c i = cells env2 i" for c
  proof -
    have "cells env2 (unat ?A + i) = 0xFF" "cells env2 (unat ?B + i) = 0xFF" if "i < 4096" for i
      using flash.er_data[OF e1[unfolded \<open>s1 = _\<close>], of "unat ?A + i"] flash.er_data[OF e2[unfolded \<open>s2 = _\<close>], of "unat ?B + i"]
        same2[of "unat ?A + i"] reset_layout(4) \<open>i < 4096\<close> by simp_all
    then show ?thesis
      using that(3) reset_layout(4,5) by (simp add: sector_blank_def)
  qed
  have run': "(status, env') = (if s1 \<noteq> W25Q64_STATUS_OK then (s1, env1) else if s2 \<noteq> W25Q64_STATUS_OK then (s2, env2) else (s3, env3))"
    unfolding run[symmetric] factoryResetService_ErasePersistentState_def by (simp add: e1 e2 e3)
  show "reset_done (cells env')" if ok: "status = W25Q64_STATUS_OK"
  proof -
    have s: "s1 = W25Q64_STATUS_OK" "s2 = W25Q64_STATUS_OK" "s3 = W25Q64_STATUS_OK" "env' = env3"
      using run' ok by (auto split: if_splits)
    have "\<forall>i. 8282112 \<le> i \<and> i < 8388608 \<longrightarrow> cells env3 i = 0xFF"
      using c3 s(3) by (simp add: commits_def overlay_def)
    then show ?thesis
      using callback[OF s(1,2) same3] s(4) by (simp add: reset_done_def reset_layout)
  qed
  show "status = W25Q64_STATUS_OK \<and> healthy env'" if h: "healthy env"
  proof -
    have "s1 = W25Q64_STATUS_OK" "healthy env1"
      using flash.er_good[OF h e1] reset_layout(4-6) by simp_all
    moreover from this(2) have "s2 = W25Q64_STATUS_OK" "healthy env2"
      using flash.er_good[OF _ e2] reset_layout(5,7) by simp_all
    moreover from this(2) have "s3 = W25Q64_STATUS_OK" "healthy env3"
      using EraseRange_healthy[of env2 FLASH_LAYOUT_FACTORY_RESET_MARKER_SECTOR ?n] e3 c3 touches_healthy[of 8278016 110592 env2 env3]
      by (simp_all add: IsRangeValid_iff reset_layout commits_def)
    ultimately show ?thesis
      using run' by simp
  qed
  show "marker_at (cells env') \<or> reset_done (cells env')" if fail: "status \<noteq> W25Q64_STATUS_OK" and m: "marker_at (cells env)"
  proof -
    have m1: "marker_at (cells env1)"
      using m marker_at_cong[of "cells env1" "cells env"] same1 reset_layout(4,5) by simp
    have m2: "marker_at (cells env2)"
      using m1 marker_at_cong[of "cells env2" "cells env1"] same2 reset_layout(5) by simp
    show ?thesis
    proof (cases "s1 = W25Q64_STATUS_OK \<and> s2 = W25Q64_STATUS_OK")
      case True
      then have s: "s3 \<noteq> W25Q64_STATUS_OK" "env' = env3"
        using run' fail by auto
      from EraseRange_boundary[OF e3 s(1)] show ?thesis
      proof (elim disjE exE conjE)
        assume "cells env3 = cells env2"
        then show ?thesis
          using m2 s(2) by simp
      next
        fix boundary j
        assume b: "boundary = unat FLASH_LAYOUT_FACTORY_RESET_MARKER_SECTOR + 4096 * j" "\<forall>i<boundary. cells env3 i = cells env2 i"
          "\<forall>i. boundary + W25Q64_SECTOR_SIZE \<le> i \<and> i < unat FLASH_LAYOUT_FACTORY_RESET_MARKER_SECTOR + unat ?n \<longrightarrow> cells env3 i = 0xFF"
        show ?thesis
        proof (cases "j = 0")
          case True
          then have "\<forall>i. 8282112 \<le> i \<and> i < 8388608 \<longrightarrow> cells env3 i = 0xFF"
            using b(1,3) by (simp add: reset_layout)
          then show ?thesis
            using callback[of "cells env3"] same3 \<open>s1 = _ \<and> s2 = _\<close> s(2) by (simp add: reset_done_def reset_layout)
        next
          case False
          then have "marker_at (cells env3)"
            using m2 marker_at_cong[of "cells env3" "cells env2"] b(1,2) by (simp add: reset_layout)
          then show ?thesis
            using s(2) by simp
        qed
      qed
    next
      case False
      then show ?thesis
        using run' m1 m2 by (auto split: if_splits)
    qed
  qed
qed

lemma ReadMarker_spec:
  assumes "factoryResetService_ReadMarker env = (status, isValid, env')"
  shows "cells env' = cells env" "isValid \<Longrightarrow> marker_at (cells env)"
    "healthy env \<Longrightarrow> status = W25Q64_STATUS_OK \<and> healthy env' \<and> isValid = marker_at (cells env)"
proof -
  obtain s d env1 where r: "W25Q64_Read FLASH_LAYOUT_FACTORY_RESET_MARKER_SECTOR 8 env = (s, d, env1)"
    using prod_cases3 by blast
  show "cells env' = cells env" "isValid \<Longrightarrow> marker_at (cells env)"
    using assms r Read_spec(1,3)[OF r]
    by (auto simp: factoryResetService_ReadMarker_def marker_at_def split: if_splits)
  show "healthy env \<Longrightarrow> status = W25Q64_STATUS_OK \<and> healthy env' \<and> isValid = marker_at (cells env)"
    using assms r Read_spec(3)[OF r] flash.rd_good[OF _ r]
    by (auto simp: factoryResetService_ReadMarker_def marker_at_def reset_layout split: if_splits)
qed

lemma WriteMarker_spec:
  assumes "factoryResetService_WriteMarker env = (status, env')"
  shows "status = W25Q64_STATUS_OK \<Longrightarrow> marker_at (cells env')" "healthy env \<Longrightarrow> status = W25Q64_STATUS_OK \<and> healthy env'"
proof -
  let ?M = "FLASH_LAYOUT_FACTORY_RESET_MARKER_SECTOR"
  define bytes where "bytes = put_marker \<lparr>fm_magic = FACTORY_RESET_MARKER_MAGIC, fm_inverseMagic = NOT FACTORY_RESET_MARKER_MAGIC\<rparr>"
  obtain s1 env1 where e: "W25Q64_EraseSector ?M env = (s1, env1)" by fastforce
  obtain s2 env2 where p: "W25Q64_Program ?M (Some bytes) env1 = (s2, env2)" by fastforce
  let ?env = "if s1 = W25Q64_STATUS_OK then env2 else env1"
  obtain s3 v env3 where r: "factoryResetService_ReadMarker ?env = (s3, v, env3)"
    using prod_cases3 by blast
  have run: "(status, env') = (if s3 = W25Q64_STATUS_OK \<and> v then (W25Q64_STATUS_OK, env3)
      else if (if s1 = W25Q64_STATUS_OK then s2 else s1) \<noteq> W25Q64_STATUS_OK then (if s1 = W25Q64_STATUS_OK then s2 else s1, env3)
      else (if s3 \<noteq> W25Q64_STATUS_OK then s3 else W25Q64_STATUS_IO_ERROR, env3))"
    unfolding assms[symmetric] factoryResetService_WriteMarker_def Let_def bytes_def[symmetric] e prod.case p
    using r by (cases "s1 = W25Q64_STATUS_OK") simp_all
  note read = ReadMarker_spec[OF r]
  show "status = W25Q64_STATUS_OK \<Longrightarrow> marker_at (cells env')"
    using run read(1,2) by (auto split: if_splits)
  show "status = W25Q64_STATUS_OK \<and> healthy env'" if h: "healthy env"
  proof -
    have len: "length bytes = 8"
      by (simp add: bytes_def put_marker_def)
    have s1: "s1 = W25Q64_STATUS_OK" "healthy env1"
      using flash.er_good[OF h e] by (simp_all add: reset_layout)
    have s2: "s2 = W25Q64_STATUS_OK" "healthy env2"
      using flash.pr_good[OF s1(2) p] len by (auto simp: reset_layout)
    have "cells_at (cells env2) (unat ?M) 8 = bytes"
      using flash.erase_program[of ?M env env1 bytes env2] e p s1(1) s2(1) len by simp
    moreover have "get_marker bytes = \<lparr>fm_magic = FACTORY_RESET_MARKER_MAGIC, fm_inverseMagic = NOT FACTORY_RESET_MARKER_MAGIC\<rparr>"
      using get_put_u32[of "NOT FACTORY_RESET_MARKER_MAGIC" "[]"] by (simp add: bytes_def put_marker_def get_marker_def)
    ultimately have "marker_at (cells env2)"
      by (simp add: marker_at_def marker_ok_def)
    then show ?thesis
      using run read(3) s1(1) s2 by auto
  qed
qed

subsection \<open>Resuming\<close>

lemma reset_resumed:
  assumes "factoryResetService_WriteMarker env = (W25Q64_STATUS_OK, env1)"
    and "factoryResetService_ErasePersistentState env1 = (status, env2)"
    and "healthy env3" "cells env3 = cells env2"
    and "FactoryResetService_ResumePending env3 = (resumed, restarted, env4)"
  shows "reset_done (cells env4)"
proof -
  have m: "marker_at (cells env1)"
    using WriteMarker_spec(1)[OF assms(1)] by simp
  obtain s v e where r: "factoryResetService_ReadMarker env3 = (s, v, e)"
    using prod_cases3 by blast
  note read = ReadMarker_spec(1)[OF r] ReadMarker_spec(3)[OF r assms(3)]
  obtain s' e' where p: "factoryResetService_ErasePersistentState e = (s', e')" by fastforce
  show ?thesis
  proof (cases "marker_at (cells env2)")
    case True
    then have "s = W25Q64_STATUS_OK" v "healthy e"
      using read assms(4) by simp_all
    moreover from this(3) have "s' = W25Q64_STATUS_OK" "reset_done (cells e')"
      using ErasePersistentState_outcome(1,2)[OF p] by simp_all
    ultimately show ?thesis
      using assms(5) r p by (simp add: FactoryResetService_ResumePending_def)
  next
    case False
    then have "reset_done (cells env2)"
      using ErasePersistentState_outcome(1,3)[OF assms(2)] m by blast
    moreover have "cells env4 = cells env3"
      using assms(5) r read False assms(4) by (auto simp: FactoryResetService_ResumePending_def)
    ultimately show ?thesis
      using assms(4) by simp
  qed
qed

subsection \<open>Properties\<close>

text \<open>C3: A factory reset that has been accepted completes.  Once the marker is written, the
  erasure may be interrupted at any point and leave its current sector in any state: at the
  next start on working hardware the marker is still there and the erasure is repeated, or
  everything but the marker was already erased.  Either way all persistent data is gone when
  the pending reset has been resumed.\<close>

theorem reset_completes:
  assumes "factoryResetService_WriteMarker env = (W25Q64_STATUS_OK, env1)"
    and "factoryResetService_ErasePersistentState env1 = (status, env2)"
    and "healthy env3" "cells env3 = cells env2"
    and "FactoryResetService_ResumePending env3 = (resumed, restarted, env4)"
  shows "reset_done (cells env4)"
  by (rule reset_resumed[OF assms])

theorem reset_completes_witness:
  "reset_done (cells (snd (snd (FactoryResetService_ResumePending
     (snd (factoryResetService_ErasePersistentState (snd (factoryResetService_WriteMarker blank_env))))))))"
proof -
  obtain s1 env1 where w: "factoryResetService_WriteMarker blank_env = (s1, env1)" by fastforce
  obtain s2 env2 where e: "factoryResetService_ErasePersistentState env1 = (s2, env2)" by fastforce
  obtain s3 r env3 where p: "FactoryResetService_ResumePending env2 = (s3, r, env3)"
    using prod_cases3 by blast
  have "healthy env1" "s1 = W25Q64_STATUS_OK"
    using WriteMarker_spec(2)[OF w] by simp_all
  moreover from this(1) have "healthy env2"
    using ErasePersistentState_outcome(2)[OF e] by simp
  ultimately show ?thesis
    using reset_completes[of blank_env env1 s2 env2 env2 s3 r env3] w e p by simp
qed

text \<open>C39: The cancellation window decides what it should: it ends as soon as its ten seconds
  are over, at the latest, and cancels the reset exactly when two debounced presses in a row
  within the window were at most 600 ms apart.  A button still held from the long press
  counts only after its release.\<close>

theorem reset_cancel_exact:
  assumes "wf_button button" "polls \<noteq> []"
    and "win = takeWhile (\<lambda>p. poll_tick p - poll_tick (hd polls) < 10000) polls"
  shows "map_option fst (factoryResetService_WaitForCancellation button polls) =
    (if double_click (press_times button win) then Some True else if win = polls then None else Some False)"
proof -
  have eq: "factoryResetService_WaitForCancellation button polls =
      factoryResetService_CancelLoop (poll_tick (hd polls)) 0 0 (if stablePressed button = 0 then 1 else 0) button polls"
    using assms(2) by (cases polls) (simp_all add: factoryResetService_WaitForCancellation_def del: factoryResetService_CancelLoop.simps)
  show ?thesis
    unfolding eq by (rule CancelLoop_exact[OF assms(1) _ _ assms(3)]) (auto split: if_splits)
qed

definition idle_button :: FactoryReset_ButtonStateTypeDef where
  "idle_button = \<lparr>stablePressed = 0, candidatePressed = 0, candidateSamples = 3\<rparr>"

text \<open>Two clicks, 120 ms apart, each held for three polls.\<close>

definition two_clicks :: "poll list" where
  "two_clicks = map (\<lambda>i. \<lparr>poll_pressed = (i mod 6 < 3), poll_tick = of_nat (1000 + 20 * i)\<rparr>) [0, 1, 2, 3, 4, 5, 6, 7, 8, 9]"

theorem reset_cancel_exact_witness:
  "map_option fst (factoryResetService_WaitForCancellation idle_button two_clicks) = Some True"
proof -
  have "double_click (press_times idle_button two_clicks)"
    by (simp add: two_clicks_def idle_button_def factoryResetService_UpdateButton_def)
  moreover have "takeWhile (\<lambda>p. poll_tick p - poll_tick (hd two_clicks) < 10000) two_clicks = two_clicks"
    by (simp add: two_clicks_def)
  ultimately show ?thesis
    using reset_cancel_exact[of idle_button two_clicks two_clicks] by (simp add: wf_button_def idle_button_def two_clicks_def)
qed

end
