(* ===== verification/Callback_Service.thy ===== *)
theory Callback_Service
  imports Health_Check_Log Callback_Config
begin

text \<open>
  \<open>Srv/Src/callback_service.c\<close>: failed checks are queued and delivered to the configured
  server.  The kernel's queue is the list of waiting events, \<open>None\<close> while it does not
  exist; it holds three.  One round of the delivery task takes the oldest event, reads the
  configuration, formats the message and sends it.  Console output is omitted.
\<close>

subsection \<open>Definitions\<close>

record CallbackService_TelemetryTypeDef =
  ct_deliverySuccessCount :: u32
  ct_deliveryFailureCount :: u32
  ct_droppedCount :: u32
  ct_lastElapsedMs :: u32
  ct_lastDetail :: u32
  ct_lastHttpStatus :: u16
  ct_lastTransportStatus :: u8
  ct_queueDepth :: u8

record CallbackService_State =
  callbackQueue :: "HealthCheckLog_EntryTypeDef list option"
  callbackTelemetry :: CallbackService_TelemetryTypeDef

definition CALLBACK_QUEUE_LENGTH :: nat where
  "CALLBACK_QUEUE_LENGTH = 3"

definition CALLBACK_BODY_SIZE :: nat where
  "CALLBACK_BODY_SIZE = 192"

definition CALLBACK_RESOURCE_SIZE :: nat where
  "CALLBACK_RESOURCE_SIZE = 256"

definition callbackService_TransportStatusText :: "u8 \<Rightarrow> string" where
  "callbackService_TransportStatusText status =
     (if status = 0 then ''ok''
      else if status = 1 then ''dns_error''
      else if status = 2 then ''connect_error''
      else if status = 3 then ''config_error''
      else if status = 4 then ''certificate_error''
      else if status = 5 then ''handshake_error''
      else if status = 6 then ''io_error''
      else if status = 7 then ''protocol_error''
      else ''unknown'')"

definition callbackService_Body :: "HealthCheckLog_EntryTypeDef \<Rightarrow> string" where
  "callbackService_Body event =
     ''{\"sequence\":'' @ decimal (unat (le_sequence event)) @
     '',\"timestamp\":'' @ decimal (unat (le_timestampUnix event)) @
     '',\"resource_index\":'' @ decimal (unat (le_resourceIndex event)) @
     '',\"status\":\"fail\",\"stage\":\"'' @ callbackService_TransportStatusText (le_status event) @
     ''\",\"http_status\":'' @ decimal (unat (le_httpStatus event)) @
     '',\"elapsed_ms\":'' @ decimal (unat (le_elapsedMs event)) @
     '',\"detail\":'' @ decimal_int (sint (le_detail event)) @ ''}''"

definition callbackService_Target :: "string \<Rightarrow> HealthCheckLog_EntryTypeDef \<Rightarrow> string" where
  "callbackService_Target path event =
     c_str path @ [if strchr (c_str path) (CHR ''?'') = None then CHR ''?'' else CHR ''&''] @
     ''sequence='' @ decimal (unat (le_sequence event)) @
     ''&timestamp='' @ decimal (unat (le_timestampUnix event)) @
     ''&resource_index='' @ decimal (unat (le_resourceIndex event)) @
     ''&status=fail&stage='' @ callbackService_TransportStatusText (le_status event) @
     ''&http_status='' @ decimal (unat (le_httpStatus event)) @
     ''&elapsed_ms='' @ decimal (unat (le_elapsedMs event)) @
     ''&detail='' @ decimal_int (sint (le_detail event))"

text \<open>Method, target, body and content type of the request for an event; \<open>None\<close> where the
  task skips it.\<close>

definition callbackService_Message ::
  "CallbackConfig_TypeDef \<Rightarrow> HealthCheckLog_EntryTypeDef \<Rightarrow> (string \<times> string \<times> string \<times> string option) option" where
  "callbackService_Message config event =
     (if cb_method config = CALLBACK_METHOD_POST then
        let body = callbackService_Body event in
        if length body = 0 \<or> length body \<ge> CALLBACK_BODY_SIZE then None
        else Some (''POST'', take (CALLBACK_RESOURCE_SIZE - 1) (c_str (cb_path config)), body, Some ''application/json'')
      else
        let resource = callbackService_Target (cb_path config) event in
        if length resource = 0 \<or> length resource \<ge> CALLBACK_RESOURCE_SIZE then None
        else Some (''GET'', resource, '''', None))"

definition callbackService_Account :: "TlsTransport_ResultTypeDef \<Rightarrow> CallbackService_TelemetryTypeDef \<Rightarrow> CallbackService_TelemetryTypeDef" where
  "callbackService_Account result t =
     (let t = (if res_status result = TLS_TRANSPORT_OK \<and> 200 \<le> res_httpStatus result \<and> res_httpStatus result < 300
               then t\<lparr>ct_deliverySuccessCount := ct_deliverySuccessCount t + 1\<rparr>
               else t\<lparr>ct_deliveryFailureCount := ct_deliveryFailureCount t + 1\<rparr>)
      in t\<lparr>ct_lastElapsedMs := res_elapsedMs result, ct_lastDetail := of_int (res_detail result),
           ct_lastHttpStatus := res_httpStatus result, ct_lastTransportStatus := transport_code (res_status result)\<rparr>)"

text \<open>One round of the task's loop; without an event the task stays blocked in
  \<open>xQueueReceive\<close>.\<close>

definition callbackService_Task_round ::
  "tls_library \<Rightarrow> mbedtls_ca \<Rightarrow> CallbackConfig_State \<Rightarrow> TlsTrustStore_State \<Rightarrow> TlsPlatform_State \<Rightarrow> CallbackService_State \<Rightarrow>
   int list \<Rightarrow> env \<Rightarrow> CallbackService_State \<times> int list \<times> env" where
  "callbackService_Task_round lib mb cs ts ps st open_sockets env =
     (case callbackQueue st of
        Some (event # waiting) \<Rightarrow>
          let st1 = st\<lparr>callbackQueue := Some waiting\<rparr>; (config, env1) = CallbackConfig_Get cs env in
          if cb_enabled config = 0 then (st1, open_sockets, env1)
          else (case callbackService_Message config event of
                  None \<Rightarrow> (st1, open_sockets, env1)
                | Some (verb, resource, body, contentType) \<Rightarrow>
                    let (_, result, open1, env2) =
                          TlsTransport_Request lib mb (Some verb) (Some (c_str (cb_host config))) (cb_port config)
                            (Some resource) (cb_trustAnchorId config) (Some body) contentType ts ps open_sockets env1
                    in (st1\<lparr>callbackTelemetry := callbackService_Account result (callbackTelemetry st1)\<rparr>, open1, env2))
      | _ \<Rightarrow> (st, open_sockets, env))"

definition CallbackService_Init :: "bool \<Rightarrow> bool \<Rightarrow> CallbackService_State \<Rightarrow> HealthCheck_StatusTypeDef \<times> CallbackService_State" where
  "CallbackService_Init queue_created task_created st =
     (let st1 = st\<lparr>callbackQueue := (if queue_created then Some [] else None)\<rparr>
      in (if queue_created \<and> task_created then HEALTH_CHECK_STATUS_OK else HEALTH_CHECK_STATUS_ERROR, st1))"

definition xQueueSendToBack_callback :: "HealthCheckLog_EntryTypeDef \<Rightarrow> HealthCheckLog_EntryTypeDef list \<Rightarrow>
   bool \<times> HealthCheckLog_EntryTypeDef list" where
  "xQueueSendToBack_callback event waiting =
     (if length waiting < CALLBACK_QUEUE_LENGTH then (True, waiting @ [event]) else (False, waiting))"

definition CallbackService_Enqueue :: "HealthCheckLog_EntryTypeDef option \<Rightarrow> CallbackService_State \<Rightarrow> CallbackService_State" where
  "CallbackService_Enqueue entry st =
     (case (callbackQueue st, entry) of
        (Some waiting, Some event) \<Rightarrow>
          let (sent, waiting1) = xQueueSendToBack_callback event waiting in
          if sent then st\<lparr>callbackQueue := Some waiting1\<rparr>
          else
            let (_, waiting2) = xQueueSendToBack_callback event (tl waiting1); t = callbackTelemetry st
            in st\<lparr>callbackQueue := Some waiting2, callbackTelemetry := t\<lparr>ct_droppedCount := ct_droppedCount t + 1\<rparr>\<rparr>
      | _ \<Rightarrow> st)"

definition CallbackService_GetTelemetry :: "CallbackService_State \<Rightarrow> CallbackService_TelemetryTypeDef" where
  "CallbackService_GetTelemetry st =
     (callbackTelemetry st)
       \<lparr>ct_queueDepth := (case callbackQueue st of None \<Rightarrow> 0 | Some waiting \<Rightarrow> of_nat (length waiting))\<rparr>"

text \<open>The last \<open>n\<close> elements of a list.\<close>

definition newest_of :: "nat \<Rightarrow> 'a list \<Rightarrow> 'a list" where
  "newest_of n xs = drop (length xs - n) xs"

definition cb_queue_ok :: "CallbackService_State \<Rightarrow> bool" where
  "cb_queue_ok st \<longleftrightarrow> (\<forall>waiting. callbackQueue st = Some waiting \<longrightarrow> length waiting \<le> CALLBACK_QUEUE_LENGTH)"

text \<open>A peer that accepts the connection, is verified, takes every byte and answers with the
  status code \<open>n\<close>.\<close>

definition peer_answers :: "tls_library \<Rightarrow> u8 list \<Rightarrow> string \<Rightarrow> u16 \<Rightarrow> nat \<Rightarrow> bool" where
  "peer_answers lib trustAnchor host port n \<longleftrightarrow>
     drbg_seed lib = 0 \<and> config_defaults lib = 0 \<and> ssl_setup lib = 0 \<and> set_hostname lib host = 0 \<and>
     (\<forall>fds. 0 \<le> fst (tlsTransport_Connect lib host port 0 fds)) \<and> 
     (\<forall>fd. ssl_handshake lib ((client_context trustAnchor host)\<lparr>ssl_bio := Some fd\<rparr>) = (0, []) \<and>
        verify_result lib ((client_context trustAnchor host)\<lparr>ssl_bio := Some fd\<rparr>) = 0) \<and>
     (\<forall>k m. ssl_write lib k m = (int m, [])) \<and> 100 \<le> n \<and> n \<le> 999 \<and>
     (\<exists>reason. (reason = [] \<or> \<not> is_digit (hd reason)) \<and> CHR 0x0D \<notin> set reason \<and> CHR 0x0A \<notin> set reason \<and>
        CHR 0x00 \<notin> set reason \<and> length reason \<le> 100 \<and>
        answers lib 0 (''HTTP/1.'' @ decimal 1 @ '' '' @ decimal n @ reason @ CRLF))"

text \<open>The anchor is in the store and its certificate parses.\<close>

abbreviation (input) anchor_der :: "u8 \<Rightarrow> TlsTrustStore_State \<Rightarrow> u8 list" where
  "anchor_der anchorId ts \<equiv> take (unat (a_derLength (anchor_at anchorId ts))) (a_der (anchor_at anchorId ts))"

definition anchor_usable :: "mbedtls_ca \<Rightarrow> u8 \<Rightarrow> TlsTrustStore_State \<Rightarrow> bool" where
  "anchor_usable mb anchorId ts \<longleftrightarrow> anchor_id_ok anchorId ts \<and> a_occupied (anchor_at anchorId ts) \<noteq> 0 \<and>
     crt_parse_der mb (take (unat (a_derLength (anchor_at anchorId ts))) (a_der (anchor_at anchorId ts))) = 0"

subsection \<open>The queue\<close>

lemma length_newest_of [simp]: "length (newest_of n xs) = min n (length xs)"
  by (simp add: newest_of_def)

lemma newest_of_append: "newest_of n (newest_of n xs @ ys) = newest_of n (xs @ ys)"
  by (cases "n \<le> length xs") (simp_all add: newest_of_def add.commute)

lemma Enqueue_queue:
  assumes "callbackQueue st = Some waiting" "length waiting \<le> CALLBACK_QUEUE_LENGTH"
  shows "callbackQueue (CallbackService_Enqueue (Some event) st) = Some (newest_of CALLBACK_QUEUE_LENGTH (waiting @ [event]))"
    "callbackTelemetry (CallbackService_Enqueue (Some event) st) =
       (callbackTelemetry st)\<lparr>ct_droppedCount := ct_droppedCount (callbackTelemetry st) +
          of_nat (length waiting + 1 - CALLBACK_QUEUE_LENGTH)\<rparr>"
proof -
  note defs = CallbackService_Enqueue_def xQueueSendToBack_callback_def CALLBACK_QUEUE_LENGTH_def newest_of_def
  consider "length waiting < 3" | "length waiting = 3"
    using assms(2) by (force simp: CALLBACK_QUEUE_LENGTH_def)
  then have "callbackQueue (CallbackService_Enqueue (Some event) st) = Some (newest_of CALLBACK_QUEUE_LENGTH (waiting @ [event])) \<and>
    callbackTelemetry (CallbackService_Enqueue (Some event) st) =
       (callbackTelemetry st)\<lparr>ct_droppedCount := ct_droppedCount (callbackTelemetry st) +
          of_nat (length waiting + 1 - CALLBACK_QUEUE_LENGTH)\<rparr>"
    by cases (use assms(1) in \<open>simp_all add: defs drop_Suc Let_def\<close>)
  then show "callbackQueue (CallbackService_Enqueue (Some event) st) = Some (newest_of CALLBACK_QUEUE_LENGTH (waiting @ [event]))"
    "callbackTelemetry (CallbackService_Enqueue (Some event) st) =
       (callbackTelemetry st)\<lparr>ct_droppedCount := ct_droppedCount (callbackTelemetry st) +
          of_nat (length waiting + 1 - CALLBACK_QUEUE_LENGTH)\<rparr>"
    by blast+
qed

lemma Enqueue_ok: "cb_queue_ok st \<Longrightarrow> cb_queue_ok (CallbackService_Enqueue entry st)"
  using Enqueue_queue(1)[of st _ "the entry"]
  by (cases "callbackQueue st"; cases entry) (auto simp: cb_queue_ok_def CallbackService_Enqueue_def)

lemma Enqueue_many:
  assumes "callbackQueue st = Some waiting" "length waiting \<le> CALLBACK_QUEUE_LENGTH"
  shows "callbackQueue (fold (CallbackService_Enqueue \<circ> Some) es st) = Some (newest_of CALLBACK_QUEUE_LENGTH (waiting @ es)) \<and>
    ct_droppedCount (callbackTelemetry (fold (CallbackService_Enqueue \<circ> Some) es st)) =
      ct_droppedCount (callbackTelemetry st) + of_nat (length waiting + length es - CALLBACK_QUEUE_LENGTH)"
  using assms
proof (induction es arbitrary: st waiting)
  case Nil
  then show ?case
    by (simp add: newest_of_def)
next
  case (Cons e es)
  note one = Enqueue_queue[OF Cons.prems, of e]
  let ?q = "newest_of CALLBACK_QUEUE_LENGTH (waiting @ [e])"
  have le: "length ?q \<le> CALLBACK_QUEUE_LENGTH"
    by simp
  have n: "length waiting + 1 - CALLBACK_QUEUE_LENGTH + (length ?q + length es - CALLBACK_QUEUE_LENGTH) =
      length waiting + length (e # es) - CALLBACK_QUEUE_LENGTH"
    by (simp add: min_def)
  have w: "ct_droppedCount (callbackTelemetry (CallbackService_Enqueue (Some e) st)) +
        of_nat (length ?q + length es - CALLBACK_QUEUE_LENGTH) =
      ct_droppedCount (callbackTelemetry st) + of_nat (length waiting + length (e # es) - CALLBACK_QUEUE_LENGTH)"
    unfolding n[symmetric] one(2) of_nat_add by simp
  show ?case
    using Cons.IH[OF one(1) le] newest_of_append[of CALLBACK_QUEUE_LENGTH "waiting @ [e]" es]
    unfolding w by simp
qed

subsection \<open>The message fits\<close>

lemma decimal_lengths:
  "length (decimal (unat (a :: u32))) \<le> 10" "length (decimal (unat (b :: u16))) \<le> 5" "length (decimal (unat (c :: u8))) \<le> 3"
  "length (decimal_int (sint (a :: u32))) \<le> 11"
proof -
  have "unat a < 10 ^ Suc 9" "unat b < 10 ^ Suc 4" "unat c < 10 ^ Suc 2"
    by (rule order_less_le_trans[OF unsigned_less], simp)+
  from this[THEN decimal_length]
  show "length (decimal (unat a)) \<le> 10" "length (decimal (unat b)) \<le> 5" "length (decimal (unat c)) \<le> 3"
    by simp_all
  have "- 2147483648 \<le> sint a" "sint a < 2147483648"
    using sint_greater_eq[of a] sint_less[of a] by simp_all
  then have "nat (- sint a) < 10 ^ Suc 9" "nat (sint a) < 10 ^ Suc 9"
    by simp_all
  from this[THEN decimal_length] show "length (decimal_int (sint a)) \<le> 11"
    by (simp add: decimal_int_def)
qed

lemma TransportStatusText_length: "length (callbackService_TransportStatusText s) \<le> 17"
  by (simp add: callbackService_TransportStatusText_def)

lemmas message_lengths = decimal_lengths TransportStatusText_length

lemma Body_length: "length (callbackService_Body event) \<le> 176" "callbackService_Body event \<noteq> []"
  using message_lengths(1)[of "le_sequence event"] message_lengths(1)[of "le_timestampUnix event"]
    message_lengths(1)[of "le_elapsedMs event"] message_lengths(2)[of "le_httpStatus event"]
    message_lengths(3)[of "le_resourceIndex event"] message_lengths(4)[of "le_detail event"]
    message_lengths(5)[of "le_status event"]
  by (simp_all add: callbackService_Body_def)

lemma Target_length: "length (callbackService_Target path event) \<le> length (c_str path) + 155"
  using message_lengths(1)[of "le_sequence event"] message_lengths(1)[of "le_timestampUnix event"]
    message_lengths(1)[of "le_elapsedMs event"] message_lengths(2)[of "le_httpStatus event"]
    message_lengths(3)[of "le_resourceIndex event"] message_lengths(4)[of "le_detail event"]
    message_lengths(5)[of "le_status event"]
  by (simp add: callbackService_Target_def)

lemma host_header_length:
  "host \<noteq> [] \<Longrightarrow> length host < 64 \<Longrightarrow> 0 < length (host_header host port) \<and> length (host_header host port) < 70"
  using message_lengths(2)[of port] by (simp add: host_header_def)

text \<open>What the request of an event looks like under a valid configuration.\<close>

lemma Message_valid:
  assumes "CallbackConfig_IsValid (Some config)"
  obtains verb resource body ct where "callbackService_Message config event = Some (verb, resource, body, ct)"
    "verb = ''GET'' \<or> verb = ''POST''" "deref resource = CHR ''/''" "body \<noteq> [] \<longrightarrow> verb = ''POST'' \<and> ct \<noteq> None"
    "\<And>h. length h < 70 \<Longrightarrow> length (request_text verb resource h body ct) < 512"
proof -
  let ?path = "c_str (cb_path config)"
  have path: "?path \<noteq> []" "hd ?path = CHR ''/''" "length ?path < 80"
    using assms by (simp_all add: cb_valid_iff)
  then obtain p where p: "?path = CHR ''/'' # p"
    by (cases ?path) auto
  show ?thesis
  proof (cases "cb_method config = CALLBACK_METHOD_POST")
    case True
    have "length (decimal (length (callbackService_Body event))) \<le> 3"
      using decimal_length[of "length (callbackService_Body event)" 2] Body_length(1)[of event] by simp
    then show ?thesis
      using that[of "''POST''" ?path "callbackService_Body event" "Some ''application/json''"] True path(3) Body_length[of event]
      by (simp add: callbackService_Message_def Let_def CALLBACK_BODY_SIZE_def CALLBACK_RESOURCE_SIZE_def deref_def
          request_text_def CRLF_def p)
  next
    case False
    let ?t = "callbackService_Target (cb_path config) event"
    have "?t \<noteq> []" "deref ?t = CHR ''/''" "length ?t < 236"
      using path(3) Target_length[of "cb_path config" event]
      by (simp_all add: callbackService_Target_def deref_def p)
    then show ?thesis
      using that[of "''GET''" ?t "[]" None] False
      by (simp add: callbackService_Message_def Let_def CALLBACK_RESOURCE_SIZE_def request_text_def CRLF_def)
  qed
qed

subsection \<open>Delivery\<close>

lemma Exchange_answered:
  assumes "peer_answers lib der host port n" "host \<noteq> []" "length host < 64" "body \<noteq> [] \<longrightarrow> verb = ''POST'' \<and> ct \<noteq> None"
    and "length (request_text verb resource (host_header host port) body ct) < 512"
  shows "\<exists>r'. tlsTransport_Exchange lib verb host port resource body ct ctx r = (0, r', ctx) \<and>
    res_status r' = TLS_TRANSPORT_OK \<and> res_httpStatus r' = of_nat n"
proof -
  obtain reason where reason: "reason = [] \<or> \<not> is_digit (hd reason)" "CHR 0x0D \<notin> set reason" "CHR 0x0A \<notin> set reason"
      "CHR 0x00 \<notin> set reason" "length reason \<le> 100"
      "answers lib 0 (''HTTP/1.'' @ decimal 1 @ '' '' @ decimal n @ reason @ CRLF)" and n: "100 \<le> n" "n \<le> 999"
    using assms(1) unfolding peer_answers_def by blast
  have "decimal 1 = ''1''"
    by code_simp
  then have fits: "length (''HTTP/1.'' @ decimal 1 @ '' '' @ decimal n @ reason @ CRLF) \<le> 127"
    using reason(5) length_decimal_3[OF n] by (simp add: CRLF_def)
  note status = ReadStatus_line[OF n _ reason(1-4) refl fits reason(6), of ctx]
  obtain call where "tlsTransport_WriteAll lib 0 (length (request_text verb resource (host_header host port) body ct)) ctx =
      (0, call, ctx)"
    using WriteAll_obliging[of lib] assms(1) unfolding peer_answers_def by metis
  then show ?thesis
    using status assms(4,5) host_header_length[OF assms(2,3), of port] by (auto simp: tlsTransport_Exchange_def Let_def)
qed

lemma Request_answered:
  assumes "peer_answers lib der host port n" "host \<noteq> []" "length host < 64" "body \<noteq> [] \<longrightarrow> verb = ''POST'' \<and> ct \<noteq> None"
    and "length (request_text verb resource (host_header host port) body ct) < 512"
    and "deref resource = CHR ''/''" "verb = ''GET'' \<or> verb = ''POST''" "port \<noteq> 0"
    and "healthy env" "cryptoMutex ps" "anchor_usable mb anchorId ts" "der = anchor_der anchorId ts"
    and "TlsTransport_Request lib mb (Some verb) (Some host) port (Some resource) anchorId (Some body) ct ts ps fds env = (s, r, fds', env')"
  shows "res_status r = TLS_TRANSPORT_OK" "res_httpStatus r = of_nat n" "res_detail r = 0"
proof -
  obtain env1 where l: "TlsPlatform_Lock ps env = (HEALTH_CHECK_STATUS_OK, env1)" "healthy env1"
    using xSemaphoreTake_healthy[OF assms(9)] assms(10) by (auto simp: TlsPlatform_Lock_def)
  obtain env2 where p: "TlsTrustStore_Parse mb anchorId ts env1 = (TLS_TRUST_STORE_STATUS_OK, Some der, env2)"
    using xSemaphoreTake_healthy[OF l(2)] assms(11,12) by (auto simp: TlsTrustStore_Parse_def anchor_usable_def Let_def)
  note peer = assms(1)[unfolded peer_answers_def]
  obtain fd st d fds1 where c: "tlsTransport_Connect lib host port 0 fds = (fd, st, d, fds1)" "0 \<le> fd"
    using peer by (metis prod_cases4 fst_conv)
  let ?ctx = "\<lparr>sc_socketDescriptor = - 1, sc_lastError = 0\<rparr>"
  let ?ssl = "(client_context der host)\<lparr>ssl_bio := Some fd\<rparr>"
  define r0 where "r0 = (case peer_valid_to lib ?ssl of None \<Rightarrow> zero_result\<lparr>res_status := st\<rparr>
    | Some t \<Rightarrow> zero_result\<lparr>res_status := st, res_certificateExpiresAt := tlsTransport_X509TimeToUnix (Some t)\<rparr>)"
  define ctx1 where "ctx1 = ?ctx\<lparr>sc_socketDescriptor := fd\<rparr>"
  obtain r' where x: "tlsTransport_Exchange lib verb host port resource body ct ctx1 r0 = (0, r', ctx1)"
      "res_status r' = TLS_TRANSPORT_OK" "res_httpStatus r' = of_nat n"
    using Exchange_answered[OF assms(1-5)] by blast
  have "tlsTransport_Session lib (client_context der host) verb host port resource body ct ?ctx zero_result fds = (0, r', ctx1, fd, fds1)"
    using peer c(2) x(1) by (simp add: tlsTransport_Session_def c(1) Let_def r0_def ctx1_def cong: option.case_cong)
  then have "tlsTransport_Attempt lib mb verb host port resource anchorId body ct ts fds env1 = (0, r', ctx1, fd, fds1, env2)"
    using peer by (simp add: tlsTransport_Attempt_def p Let_def)
  then have "r = r'\<lparr>res_detail := 0, res_elapsedMs := ticks env2 + request_ticks lib - ticks env\<rparr>"
    using assms(6-8,13) by (auto simp: TlsTransport_Request_def l(1) Let_def)
  then show "res_status r = TLS_TRANSPORT_OK" "res_httpStatus r = of_nat n" "res_detail r = 0"
    using x(2,3) by simp_all
qed

subsection \<open>Properties\<close>

text \<open>C13: an event waiting under a valid, enabled configuration is delivered, whatever values it
  carries: its message fits every buffer on the way, and when the server is reachable,
  verified by the configured anchor and answers with a status code of the 200 class, the
  round takes the event off the queue and counts a success with exactly that code.\<close>

theorem callback_delivered:
  assumes "callbackQueue st = Some (event # waiting)"
    and "CallbackConfig_IsValid (Some (cs_config (cs_snapshot cs)))" "cb_enabled (cs_config (cs_snapshot cs)) \<noteq> 0"
    and "peer_answers lib (anchor_der (cb_trustAnchorId (cs_config (cs_snapshot cs))) ts)
      (c_str (cb_host (cs_config (cs_snapshot cs)))) (cb_port (cs_config (cs_snapshot cs))) n"
    and "200 \<le> n" "n < 300" "healthy env" "cryptoMutex ps"
    and "anchor_usable mb (cb_trustAnchorId (cs_config (cs_snapshot cs))) ts"
    and "callbackService_Task_round lib mb cs ts ps st fds env = (st', fds', env')"
  shows "callbackQueue st' = Some waiting \<and>
    ct_deliverySuccessCount (callbackTelemetry st') = ct_deliverySuccessCount (callbackTelemetry st) + 1 \<and>
    ct_deliveryFailureCount (callbackTelemetry st') = ct_deliveryFailureCount (callbackTelemetry st) \<and>
    ct_lastHttpStatus (callbackTelemetry st') = of_nat n \<and> ct_lastDetail (callbackTelemetry st') = 0"
proof -
  let ?c = "cs_config (cs_snapshot cs)"
  have host: "c_str (cb_host ?c) \<noteq> []" "length (c_str (cb_host ?c)) < 64" "cb_port ?c \<noteq> 0"
    using assms(2) by (simp_all add: cb_valid_iff)
  obtain env1 where g: "CallbackConfig_Get cs env = (?c, env1)" "healthy env1"
    using xSemaphoreTake_healthy[OF assms(7)] by (auto simp: CallbackConfig_Get_def)
  obtain verb resource body ct where m: "callbackService_Message ?c event = Some (verb, resource, body, ct)"
      "verb = ''GET'' \<or> verb = ''POST''" "deref resource = CHR ''/''" "body \<noteq> [] \<longrightarrow> verb = ''POST'' \<and> ct \<noteq> None"
      "\<And>h. length h < 70 \<Longrightarrow> length (request_text verb resource h body ct) < 512"
    using Message_valid[OF assms(2)] by blast
  obtain s r fds1 env2 where q: "TlsTransport_Request lib mb (Some verb) (Some (c_str (cb_host ?c))) (cb_port ?c) (Some resource)
      (cb_trustAnchorId ?c) (Some body) ct ts ps fds env1 = (s, r, fds1, env2)"
    using prod_cases4 by blast
  have fits: "length (request_text verb resource (host_header (c_str (cb_host ?c)) (cb_port ?c)) body ct) < 512"
    using m(5) host_header_length[OF host(1,2)] by blast
  note r = Request_answered[OF assms(4) host(1,2) m(4) fits m(3,2) host(3) g(2) assms(8,9) refl q]
  have n: "(200 :: u16) \<le> of_nat n" "of_nat n < (300 :: u16)"
    using assms(5,6) by (simp_all add: word_le_nat_alt word_less_nat_alt unat_of_nat take_bit_nat_eq_self)
  have "st' = st\<lparr>callbackQueue := Some waiting, callbackTelemetry := callbackService_Account r (callbackTelemetry st)\<rparr>"
    using assms(1,3,10) by (simp add: callbackService_Task_round_def g(1) m(1) q Let_def)
  then show ?thesis
    using n by (simp add: callbackService_Account_def r Let_def)
qed

definition sample_telemetry :: CallbackService_TelemetryTypeDef where
  "sample_telemetry = \<lparr>ct_deliverySuccessCount = 0, ct_deliveryFailureCount = 0, ct_droppedCount = 0, ct_lastElapsedMs = 0,
     ct_lastDetail = 0, ct_lastHttpStatus = 0, ct_lastTransportStatus = 0, ct_queueDepth = 0\<rparr>"

definition sample_callback :: CallbackConfig_State where
  "sample_callback = \<lparr>cs_snapshot = callbackConfig_Default\<lparr>cs_config := (cs_config callbackConfig_Default)\<lparr>cb_enabled := 1\<rparr>\<rparr>,
     cs_activeAddress = FLASH_LAYOUT_CALLBACK_CONFIG_SECTOR_A\<rparr>"

definition sample_event :: HealthCheckLog_EntryTypeDef where
  "sample_event = log_entry (log_record 7 2 1 1700000000 zero_result)"

lemma answering_peer: "peer_answers answering_library der host port 200"
proof -
  have d: "decimal 1 = ''1''" "decimal 200 = ''200''"
    by code_simp+
  have "answers answering_library 0 (''HTTP/1.'' @ decimal 1 @ '' '' @ decimal 200 @ '' OK'' @ CRLF)"
    using answering_lines(1) unfolding answering_lines(2) .
  moreover have "\<not> is_digit (hd '' OK'')"
    by (simp add: is_digit_def)
  moreover have "0 \<le> fst (tlsTransport_Connect answering_library host port 0 fds)" for fds
    by (simp add: tlsTransport_Connect_def answering_library_def silent_library_def)
  ultimately show ?thesis
    unfolding peer_answers_def
    by (intro conjI exI[of _ "'' OK''"] allI) (simp_all add: answering_library_def silent_library_def client_context_def)
qed

lemma sample_callback_valid:
  "CallbackConfig_IsValid (Some (cs_config (cs_snapshot sample_callback)))" "cb_enabled (cs_config (cs_snapshot sample_callback)) \<noteq> 0"
  "cb_trustAnchorId (cs_config (cs_snapshot sample_callback)) = 1"
proof -
  have "CallbackConfig_IsValid (Some (cs_config callbackConfig_Default))"
    using cb_default_fit by (simp add: cb_fit_def)
  then show "CallbackConfig_IsValid (Some (cs_config (cs_snapshot sample_callback)))"
    by (simp add: cb_valid_iff sample_callback_def)
qed (simp_all add: sample_callback_def callbackConfig_Default_def)

theorem callback_delivered_witness:
  "ct_deliverySuccessCount (callbackTelemetry (fst (callbackService_Task_round answering_library sample_ca sample_callback
     sample_trust \<lparr>cryptoMutex = True\<rparr> \<lparr>callbackQueue = Some [sample_event], callbackTelemetry = sample_telemetry\<rparr> [] blank_env))) = 1"
proof -
  let ?st = "\<lparr>callbackQueue = Some [sample_event], callbackTelemetry = sample_telemetry\<rparr>"
  obtain st' fds' env' where run: "callbackService_Task_round answering_library sample_ca sample_callback sample_trust
      \<lparr>cryptoMutex = True\<rparr> ?st [] blank_env = (st', fds', env')"
    using prod_cases3 by blast
  have anchor: "anchor_usable sample_ca (cb_trustAnchorId (cs_config (cs_snapshot sample_callback))) sample_trust"
    by (simp add: anchor_usable_def sample_callback_valid(3) anchor_id_ok_def anchor_at_def sample_trust_def sample_anchor_def sample_ca_def)
  show ?thesis
    using callback_delivered[OF _ sample_callback_valid(1,2) answering_peer _ _ _ _ anchor run, of sample_event "[]"]
    unfolding run by (simp add: sample_telemetry_def)
qed

end
