(* ===== verification/Health_Check_Service.thy ===== *)
theory Health_Check_Service
  imports Callback_Service Buzzer_Service Health_Check_Config Tls_Server_Credentials
begin

text \<open>
  \<open>Srv/Src/health_check_service.c\<close>: the task that initialises the stores and then checks every
  enabled resource once per period.  The record \<open>device\<close> gathers the state of the modules it
  calls and its own two arrays.  What the network does in the check of one resource is the
  library argument of that check; console output is omitted, and so is
  \<open>healthCheckService_PrintRtc\<close>, which only prints.
\<close>

subsection \<open>Definitions\<close>

record device =
  dv_platform :: TlsPlatform_State
  dv_trust :: TlsTrustStore_State
  dv_callback_config :: CallbackConfig_State
  dv_config :: HealthCheckConfig_State
  dv_log :: HealthCheckLog_State
  dv_credentials :: TlsServerCredentials_State
  dv_callback :: CallbackService_State
  dv_buzzer :: BuzzerService_State
  dv_time :: TimeService_State
  certificateWarningAt :: "u32 list"
  certificateWarningExpiry :: "u32 list"

definition HEALTH_CHECK_WAIT_MS :: u32 where
  "HEALTH_CHECK_WAIT_MS = 1000"

definition CERTIFICATE_WARNING_WINDOW_SECONDS :: u32 where
  "CERTIFICATE_WARNING_WINDOW_SECONDS = 10 * 24 * 60 * 60"

definition CERTIFICATE_WARNING_PERIOD_SECONDS :: u32 where
  "CERTIFICATE_WARNING_PERIOD_SECONDS = 60 * 60"

definition healthCheckService_WarnCertificate :: "u8 \<Rightarrow> u32 \<Rightarrow> u32 \<Rightarrow> device \<Rightarrow> device" where
  "healthCheckService_WarnCertificate index expiresAt now dv =
     (if expiresAt = 0 \<or> expiresAt \<le> now \<or> expiresAt - now \<ge> CERTIFICATE_WARNING_WINDOW_SECONDS then dv
      else
        let i = unat index;
            dv1 = (if certificateWarningExpiry dv ! i \<noteq> expiresAt
                   then dv\<lparr>certificateWarningExpiry := (certificateWarningExpiry dv)[i := expiresAt],
                           certificateWarningAt := (certificateWarningAt dv)[i := 0]\<rparr>
                   else dv) in
        if certificateWarningAt dv1 ! i \<noteq> 0 \<and> now - certificateWarningAt dv1 ! i < CERTIFICATE_WARNING_PERIOD_SECONDS then dv1
        else
          let (sent, buzzer) = BuzzerService_CertificateWarning (index + 1) (dv_buzzer dv1);
              dv2 = dv1\<lparr>dv_buzzer := buzzer\<rparr>
          in if sent then dv2\<lparr>certificateWarningAt := (certificateWarningAt dv2)[i := now]\<rparr> else dv2)"

text \<open>\<open>resourceHealthy\<close> of a transport result.\<close>

definition resource_healthy :: "TlsTransport_ResultTypeDef \<Rightarrow> bool" where
  "resource_healthy result \<longleftrightarrow> res_status result = TLS_TRANSPORT_OK \<and> res_httpStatus result = 200"

definition healthCheckService_CheckResource ::
  "tls_library \<Rightarrow> mbedtls_ca \<Rightarrow> u8 \<Rightarrow> HealthCheckConfig_ResourceTypeDef \<Rightarrow> device \<Rightarrow> int list \<Rightarrow> env \<Rightarrow> device \<times> int list \<times> env" where
  "healthCheckService_CheckResource lib mb index resource dv open_sockets env =
     (let (_, result, open1, env1) =
            TlsTransport_Head lib mb (Some (c_str (r_host resource))) (r_port resource) (Some (c_str (r_path resource)))
              (r_trustAnchorId resource) (dv_trust dv) (dv_platform dv) open_sockets env;
          dv1 = (if \<not> resource_healthy result
                 then dv\<lparr>dv_buzzer := snd (BuzzerService_HealthCheckAlert (index + 1) (dv_buzzer dv))\<rparr> else dv);
          (_, checkedAt) = TimeService_GetUnixTime 0 (dv_time dv1) env1;
          dv2 = (if resource_healthy result
                 then healthCheckService_WarnCertificate index (res_certificateExpiresAt result) checkedAt dv1 else dv1);
          (logStatus, logEntry, log', env2) =
            HealthCheckLog_Append index (r_trustAnchorId resource) checkedAt (Some result) (dv_log dv2) env1;
          dv3 = dv2\<lparr>dv_log := log'\<rparr>
      in (if logStatus \<noteq> HEALTH_CHECK_STATUS_OK then dv3
          else if \<not> resource_healthy result then dv3\<lparr>dv_callback := CallbackService_Enqueue logEntry (dv_callback dv3)\<rparr>
          else dv3,
          open1, env2))"

text \<open>The loop over the configured resources, from slot \<open>index\<close> on.\<close>

fun healthCheckService_CheckLoop ::
  "(u8 \<Rightarrow> tls_library) \<Rightarrow> mbedtls_ca \<Rightarrow> u8 \<Rightarrow> HealthCheckConfig_ResourceTypeDef list \<Rightarrow> device \<Rightarrow> int list \<Rightarrow> env \<Rightarrow>
   device \<times> int list \<times> env" where
  "healthCheckService_CheckLoop libs mb index [] dv open_sockets env = (dv, open_sockets, env)"
| "healthCheckService_CheckLoop libs mb index (resource # rest) dv open_sockets env =
     (if r_occupied resource = 0 \<or> r_enabled resource = 0
      then healthCheckService_CheckLoop libs mb (index + 1) rest dv open_sockets env
      else
        let (dv1, open1, env1) = healthCheckService_CheckResource (libs index) mb index resource dv open_sockets env
        in healthCheckService_CheckLoop libs mb (index + 1) rest dv1 open1 env1)"

text \<open>The initialisation at the start of the task; \<open>None\<close> is \<open>System_ErrorHandler\<close>, which does not
  return.  The flags say which kernel objects could be created: the callback queue and task and the task of
  the management interface (\<open>ApiService_Init\<close> only creates it).\<close>

definition healthCheckService_Task_init ::
  "mbedtls_boot \<Rightarrow> bool \<Rightarrow> bool \<Rightarrow> bool \<Rightarrow> device \<Rightarrow> env \<Rightarrow> device option \<times> env" where
  "healthCheckService_Task_init mb queue_created callback_task_created api_task_created dv env =
     (let (s1, platform, env1) = TlsPlatform_Init mb (dv_platform dv) env in
      if s1 \<noteq> HEALTH_CHECK_STATUS_OK then (None, env1)
      else let (s2, trust, env2) = TlsTrustStore_Init (dv_trust dv) env1 in
      if s2 \<noteq> HEALTH_CHECK_STATUS_OK then (None, env2)
      else let (s3, callback_config, env3) = CallbackConfig_Init (dv_callback_config dv) env2 in
      if s3 \<noteq> HEALTH_CHECK_STATUS_OK then (None, env3)
      else let (s4, config, env4) = HealthCheckConfig_Init (dv_config dv) env3 in
      if s4 \<noteq> HEALTH_CHECK_STATUS_OK then (None, env4)
      else let (s5, log', env5) = HealthCheckLog_Init (dv_log dv) env4 in
      if s5 \<noteq> HEALTH_CHECK_STATUS_OK then (None, env5)
      else let (s6, credentials, env6) = TlsServerCredentials_Init (dv_credentials dv) env5 in
      if s6 \<noteq> HEALTH_CHECK_STATUS_OK then (None, env6)
      else let (s7, callback) = CallbackService_Init queue_created callback_task_created (dv_callback dv) in
      if s7 \<noteq> HEALTH_CHECK_STATUS_OK \<or> \<not> api_task_created then (None, env6)
      else (Some (dv\<lparr>dv_platform := platform, dv_trust := trust, dv_callback_config := callback_config, dv_config := config,
              dv_log := log', dv_credentials := credentials, dv_callback := callback\<rparr>), env6))"

text \<open>One round of the loop.  \<open>uninitialised\<close> is what the local array \<open>resources\<close> holds before
  \<open>HealthCheckConfig_GetResources\<close> fills it.\<close>

definition healthCheckService_Task_round ::
  "(u8 \<Rightarrow> tls_library) \<Rightarrow> mbedtls_ca \<Rightarrow> bool \<Rightarrow> HealthCheckConfig_ResourceTypeDef list \<Rightarrow> device \<Rightarrow> int list \<Rightarrow> env \<Rightarrow>
   device \<times> int list \<times> env" where
  "healthCheckService_Task_round libs mb network_ready uninitialised dv open_sockets env =
     (if \<not> network_ready \<or> TimeService_IsSynchronized (dv_time dv) = 0
      then (dv, open_sockets, env\<lparr>ticks := ticks env + HEALTH_CHECK_WAIT_MS\<rparr>)
      else
        let (resources, env1) = HealthCheckConfig_GetResources uninitialised (dv_config dv) env;
            (dv1, open1, env2) = healthCheckService_CheckLoop libs mb 0 resources dv open_sockets env1;
            (period, env3) = HealthCheckConfig_GetPeriodSeconds (dv_config dv1) env2
        in (dv1, open1, env3\<lparr>ticks := ticks env3 + period * 1000\<rparr>))"

text \<open>The slots a round has to check, counted from \<open>index\<close>, and the records of failed checks.\<close>

fun due :: "u8 \<Rightarrow> HealthCheckConfig_ResourceTypeDef list \<Rightarrow> u8 list" where
  "due index [] = []"
| "due index (resource # rest) =
     (if r_occupied resource \<noteq> 0 \<and> r_enabled resource \<noteq> 0 then [index] else []) @ due (index + 1) rest"

definition record_failed :: "healthCheckLog_RecordTypeDef \<Rightarrow> bool" where
  "record_failed r \<longleftrightarrow> \<not> (lr_status r = 0 \<and> lr_httpStatus r = 200)"

lemma length_due: "length (due index resources) \<le> length resources"
  by (induction index resources rule: due.induct) auto

subsection \<open>One request keeps the hardware\<close>

lemma Parse_frame: "TlsTrustStore_Parse mb a ts env = (s, d, env') \<Longrightarrow> only_time env env'"
  by (auto simp: TlsTrustStore_Parse_def Let_def dest: only_time_Take split: prod.splits if_splits)

lemma Attempt_frame:
  assumes "tlsTransport_Attempt lib mb verb host port resource anchorId body ct ts fds env = (d, r, ctx, fd, fds', env')"
  shows "only_time env env'"
proof -
  obtain s a env1 where p: "TlsTrustStore_Parse mb anchorId ts env = (s, a, env1)"
    using prod_cases3 by blast
  have "env' = env \<or> env' = env1"
    using assms by (auto simp: tlsTransport_Attempt_def p Let_def split: prod.splits if_splits)
  then show ?thesis
    using Parse_frame[OF p] by auto
qed

lemma Request_keeps:
  assumes "TlsTransport_Request lib mb verb host port resource anchorId body ct ts ps fds env = (s, r, fds', env')"
  shows "cells env' = cells env" "healthy env \<Longrightarrow> healthy env'"
proof -
  obtain l env1 where l: "TlsPlatform_Lock ps env = (l, env1)" by fastforce
  obtain d r1 ctx fd fds1 env2 where a: "tlsTransport_Attempt lib mb (the verb) (the host) port (the resource) anchorId
      (the body) ct ts fds env1 = (d, r1, ctx, fd, fds1, env2)"
    using prod_cases6 by blast
  have "env' = env \<or> env' = env1 \<or> env' = env2\<lparr>ticks := ticks env2 + request_ticks lib\<rparr>"
    using assms unfolding TlsTransport_Request_def l a Let_def prod.case by (simp split: if_splits)
  then show "cells env' = cells env" "healthy env \<Longrightarrow> healthy env'"
    using Lock_frame[OF l] Attempt_frame[OF a] by (auto simp: only_time_def healthy_def)
qed

lemmas Head_keeps = Request_keeps[of _ _ "Some ''HEAD''" _ _ _ _ "Some ''''" None, folded TlsTransport_Head_def]

subsection \<open>One check\<close>

lemma WarnCertificate_keeps [simp]:
  "dv_log (healthCheckService_WarnCertificate index e now dv) = dv_log dv"
  "dv_callback (healthCheckService_WarnCertificate index e now dv) = dv_callback dv"
  "dv_config (healthCheckService_WarnCertificate index e now dv) = dv_config dv"
  "dv_time (healthCheckService_WarnCertificate index e now dv) = dv_time dv"
  "dv_trust (healthCheckService_WarnCertificate index e now dv) = dv_trust dv"
  "dv_platform (healthCheckService_WarnCertificate index e now dv) = dv_platform dv"
  by (simp_all add: healthCheckService_WarnCertificate_def Let_def split: prod.split)

text \<open>A check, seen from the log and the callback queue.\<close>

lemma CheckResource_outcome:
  assumes run: "healthCheckService_CheckResource lib mb index resource dv fds env = (dv', fds', env')"
    and head: "TlsTransport_Head lib mb (Some (c_str (r_host resource))) (r_port resource) (Some (c_str (r_path resource)))
      (r_trustAnchorId resource) (dv_trust dv) (dv_platform dv) fds env = (s, result, fds1, env1)"
  obtains status entry where
    "HealthCheckLog_Append index (r_trustAnchorId resource) (snd (TimeService_GetUnixTime 0 (dv_time dv) env1)) (Some result)
       (dv_log dv) env1 = (status, entry, dv_log dv', env')"
    "dv_callback dv' = (if status = HEALTH_CHECK_STATUS_OK \<and> \<not> resource_healthy result
       then CallbackService_Enqueue entry (dv_callback dv) else dv_callback dv)"
    "dv_config dv' = dv_config dv" "dv_time dv' = dv_time dv" "fds' = fds1"
proof -
  obtain u checkedAt where t: "TimeService_GetUnixTime 0 (dv_time dv) env1 = (u, checkedAt)" by fastforce
  obtain status entry lg env2 where a: "HealthCheckLog_Append index (r_trustAnchorId resource) checkedAt (Some result)
      (dv_log dv) env1 = (status, entry, lg, env2)"
    using prod_cases4 by blast
  show ?thesis
    using that[of status entry] run
    by (cases "resource_healthy result") (auto simp: healthCheckService_CheckResource_def head t a Let_def split: if_splits)
qed

lemma Append_step:
  assumes run: "HealthCheckLog_Append ri anchor now (Some result) st env = (status, entry, st', env')"
    and inv: "log_inv st (cells env)" and seq: "nextSequence st \<noteq> 0xFFFFFFFF" and h: "healthy env"
    and r: "r = log_record (nextSequence st) ri anchor now result"
  shows "status = HEALTH_CHECK_STATUS_OK" "healthy env'" "log_inv st' (cells env')" "entry = Some (log_entry r)"
    "nextSequence st' = nextSequence st + 1" "nextSlot st' = (if nextSlot st < 102 then nextSlot st + 1 else 1)"
    "log_view st' (cells env') =
       (if nextSlot st < 102 then log_view st (cells env) else sector_log (cells env) (activeSector st)) @ [r]"
    "nextSlot st < 102 \<Longrightarrow> sector_log (cells env') (activeSector st') = sector_log (cells env) (activeSector st) @ [r]"
proof -
  show ok: "status = HEALTH_CHECK_STATUS_OK"
    by (rule Append_healthy[OF run inv h])
  note fin = Append_ok[OF run[unfolded ok] inv seq, folded r]
  show "log_inv st' (cells env')" "entry = Some (log_entry r)" "nextSequence st' = nextSequence st + 1"
    "log_view st' (cells env') =
       (if nextSlot st < 102 then log_view st (cells env) else sector_log (cells env) (activeSector st)) @ [r]"
    by (rule fin)+
  obtain env1 where w: "healthy env1" "healthCheckLog_WriteRecord r (append_base st) env1 = (status, entry, st', env')"
      "nextSlot st < 102 \<Longrightarrow> cells env1 = cells env"
    using run inv by (rule Append_cases) (use h r in auto)
  note wr = WriteRecord_cases[OF w(2) append_base_fields(2)]
  have reserved: "length (lr_reserved r) = 2"
    by (simp add: r)
  show "healthy env'" "nextSlot st' = (if nextSlot st < 102 then nextSlot st + 1 else 1)"
    using touches_healthy[OF wr(2)[OF reserved]] w(1) wr(1)[OF reserved] by (auto simp: append_base_def)
  assume slot: "nextSlot st < 102"
  then have b: "append_base st = st" and act: "activeSector st' = activeSector st"
    using wr(1)[OF reserved] by (simp_all add: append_base_def)
  have "cells env' (unat (healthCheckLog_SectorBase (activeSector st XOR 1)) + i) =
      cells env (unat (healthCheckLog_SectorBase (activeSector st XOR 1)) + i)" if "i < 4096" for i
    using wr(2)[OF reserved] w(3)[OF slot] that slot log_sectors_apart[of "activeSector st"] inv
    by (auto simp: touches_def b unat_slot_address log_inv_def)
  then have "sector_log (cells env') (activeSector st XOR 1) = sector_log (cells env) (activeSector st XOR 1)"
    by (intro used_slots_cong(2)) blast
  then show "sector_log (cells env') (activeSector st') = sector_log (cells env) (activeSector st) @ [r]"
    using fin(2) slot by (simp add: log_view_def act)
qed

text \<open>What a check leaves, on hardware that answers.\<close>

lemma CheckResource_step:
  assumes run: "healthCheckService_CheckResource lib mb index resource dv fds env = (dv', fds', env')"
    and inv: "log_inv (dv_log dv) (cells env)" "nextSequence (dv_log dv) \<noteq> 0xFFFFFFFF" "healthy env"
    and queue: "callbackQueue (dv_callback dv) = Some waiting" "length waiting \<le> CALLBACK_QUEUE_LENGTH"
  obtains r where "lr_resourceIndex r = index" "lr_sequence r = nextSequence (dv_log dv)"
    "log_inv (dv_log dv') (cells env')" "healthy env'" "dv_config dv' = dv_config dv"
    "nextSequence (dv_log dv') = nextSequence (dv_log dv) + 1"
    "nextSlot (dv_log dv') = (if nextSlot (dv_log dv) < 102 then nextSlot (dv_log dv) + 1 else 1)"
    "log_view (dv_log dv') (cells env') = (if nextSlot (dv_log dv) < 102 then log_view (dv_log dv) (cells env)
       else sector_log (cells env) (activeSector (dv_log dv))) @ [r]"
    "nextSlot (dv_log dv) < 102 \<Longrightarrow>
       sector_log (cells env') (activeSector (dv_log dv')) = sector_log (cells env) (activeSector (dv_log dv)) @ [r]"
    "callbackQueue (dv_callback dv') = Some (newest_of CALLBACK_QUEUE_LENGTH (waiting @ map log_entry (filter record_failed [r])))"
proof -
  obtain s result fds1 env1 where head: "TlsTransport_Head lib mb (Some (c_str (r_host resource))) (r_port resource)
      (Some (c_str (r_path resource))) (r_trustAnchorId resource) (dv_trust dv) (dv_platform dv) fds env = (s, result, fds1, env1)"
    using prod_cases4 by blast
  note keep = Head_keeps[OF head]
  define r where "r = log_record (nextSequence (dv_log dv)) index (r_trustAnchorId resource)
    (snd (TimeService_GetUnixTime 0 (dv_time dv) env1)) result"
  obtain status entry where a: "HealthCheckLog_Append index (r_trustAnchorId resource)
      (snd (TimeService_GetUnixTime 0 (dv_time dv) env1)) (Some result) (dv_log dv) env1 = (status, entry, dv_log dv', env')"
    "dv_callback dv' = (if status = HEALTH_CHECK_STATUS_OK \<and> \<not> resource_healthy result
       then CallbackService_Enqueue entry (dv_callback dv) else dv_callback dv)" "dv_config dv' = dv_config dv"
    using CheckResource_outcome[OF run head] by blast
  have "log_inv (dv_log dv) (cells env1)" "healthy env1"
    using inv keep by simp_all
  note step = Append_step[OF a(1) this(1) inv(2) this(2) r_def, unfolded keep(1)]
  have failed: "record_failed r \<longleftrightarrow> \<not> resource_healthy result"
    by (cases "res_status result") (simp_all add: r_def log_record_def record_failed_def resource_healthy_def Let_def split: prod.split)
  have "newest_of CALLBACK_QUEUE_LENGTH waiting = waiting"
    using queue(2) by (simp add: newest_of_def)
  then have "callbackQueue (dv_callback dv') =
      Some (newest_of CALLBACK_QUEUE_LENGTH (waiting @ map log_entry (filter record_failed [r])))"
    using Enqueue_queue(1)[OF queue, of "log_entry r"] a(2) step(1,4) queue(1) by (simp add: failed)
  moreover have "lr_resourceIndex r = index" "lr_sequence r = nextSequence (dv_log dv)"
    by (simp_all add: r_def log_record_def Let_def split: prod.split)
  ultimately show ?thesis
    using that[of r] step a(3) by blast
qed

subsection \<open>A round\<close>

lemma CheckLoop_logs:
  assumes "healthCheckService_CheckLoop libs mb index resources dv fds env = (dv', fds', env')"
    and "log_inv (dv_log dv) (cells env)" "unat (nextSequence (dv_log dv)) + length resources < 4294967296" "healthy env"
    and "callbackQueue (dv_callback dv) = Some waiting" "length waiting \<le> CALLBACK_QUEUE_LENGTH" "length resources \<le> 102"
  shows "\<exists>new. map lr_resourceIndex new = due index resources \<and>
    log_view (dv_log dv') (cells env') =
      (if nextSlot (dv_log dv) + length new \<le> 102 then log_view (dv_log dv) (cells env)
       else sector_log (cells env) (activeSector (dv_log dv))) @ new \<and>
    callbackQueue (dv_callback dv') = Some (newest_of CALLBACK_QUEUE_LENGTH (waiting @ map log_entry (filter record_failed new))) \<and>
    log_inv (dv_log dv') (cells env') \<and> dv_config dv' = dv_config dv \<and> healthy env'"
  using assms
proof (induction libs mb index resources dv fds env arbitrary: waiting rule: healthCheckService_CheckLoop.induct)
  case (1 libs mb index dv fds env)
  then show ?case
    by (auto simp: log_inv_def newest_of_def)
next
  case (2 libs mb index resource rest dv fds env)
  show ?case
  proof (cases "r_occupied resource = 0 \<or> r_enabled resource = 0")
    case True
    with 2(1)[OF True, of waiting] 2(3-) show ?thesis
      by auto
  next
    case False
    obtain dv1 fds1 env1 where c: "healthCheckService_CheckResource (libs index) mb index resource dv fds env = (dv1, fds1, env1)"
      using prod_cases3 by blast
    have seq: "nextSequence (dv_log dv) \<noteq> 0xFFFFFFFF"
      using 2(5) by auto
    obtain r where r: "lr_resourceIndex r = index" "log_inv (dv_log dv1) (cells env1)" "healthy env1" "dv_config dv1 = dv_config dv"
      "nextSequence (dv_log dv1) = nextSequence (dv_log dv) + 1"
      "nextSlot (dv_log dv1) = (if nextSlot (dv_log dv) < 102 then nextSlot (dv_log dv) + 1 else 1)"
      "log_view (dv_log dv1) (cells env1) = (if nextSlot (dv_log dv) < 102 then log_view (dv_log dv) (cells env)
         else sector_log (cells env) (activeSector (dv_log dv))) @ [r]"
      "nextSlot (dv_log dv) < 102 \<Longrightarrow>
         sector_log (cells env1) (activeSector (dv_log dv1)) = sector_log (cells env) (activeSector (dv_log dv)) @ [r]"
      "callbackQueue (dv_callback dv1) = Some (newest_of CALLBACK_QUEUE_LENGTH (waiting @ map log_entry (filter record_failed [r])))"
      using CheckResource_step[OF c 2(4) seq 2(6,7,8)] by metis
    have sq: "unat (nextSequence (dv_log dv1)) + length rest < 4294967296"
      using 2(5) unat_add_no_wrap[of "nextSequence (dv_log dv)" 1] by (simp add: r(5))
    have loop: "healthCheckService_CheckLoop libs mb (index + 1) rest dv1 fds1 env1 = (dv', fds', env')"
      using 2(3) False by (simp add: c)
    obtain new where new: "map lr_resourceIndex new = due (index + 1) rest"
      "log_view (dv_log dv') (cells env') =
        (if nextSlot (dv_log dv1) + length new \<le> 102 then log_view (dv_log dv1) (cells env1)
         else sector_log (cells env1) (activeSector (dv_log dv1))) @ new"
      "callbackQueue (dv_callback dv') = Some (newest_of CALLBACK_QUEUE_LENGTH
        (newest_of CALLBACK_QUEUE_LENGTH (waiting @ map log_entry (filter record_failed [r])) @ map log_entry (filter record_failed new)))"
      "log_inv (dv_log dv') (cells env')" "dv_config dv' = dv_config dv1" "healthy env'"
      using 2(2)[OF False c[symmetric] refl refl loop r(2) sq r(3,9)] 2(9) by auto
    have "length new \<le> length rest"
      using new(1) length_due[of "index + 1" rest] by (metis length_map)
    then have "log_view (dv_log dv') (cells env') =
      (if nextSlot (dv_log dv) + length (r # new) \<le> 102 then log_view (dv_log dv) (cells env)
       else sector_log (cells env) (activeSector (dv_log dv))) @ r # new"
      using new(2) r(6,7,8) 2(4,9) by (auto simp: log_inv_def split: if_splits)
    then show ?thesis
      using new r(1,4) False by (intro exI[of _ "r # new"]) (auto simp: newest_of_append)
  qed
qed

subsection \<open>Properties\<close>

text \<open>C7: one round of the task, with the network up, the clock set and hardware that answers,
  whatever the checked servers do: the log gains exactly one record for every occupied and
  enabled slot, in slot order and after all older records it keeps, and exactly the records of the failed
  checks are queued for the callback, in the same order, the newest three of what then
  waits being kept.\<close>

theorem round_logs_and_reports:
  assumes "log_reach (dv_log dv) (cells env)" "unat (nextSequence (dv_log dv)) + 6 < 4294967296" "healthy env"
    and "length (hc_resources (cfg_snapshot (dv_config dv))) = 6" "TimeService_IsSynchronized (dv_time dv) \<noteq> 0"
    and "callbackQueue (dv_callback dv) = Some waiting" "length waiting \<le> CALLBACK_QUEUE_LENGTH"
    and "healthCheckService_Task_round libs mb True uninitialised dv fds env = (dv', fds', env')"
  shows "\<exists>new. map lr_resourceIndex new = due 0 (hc_resources (cfg_snapshot (dv_config dv))) \<and>
    log_view (dv_log dv') (cells env') =
      (if nextSlot (dv_log dv) + length new \<le> 102 then log_view (dv_log dv) (cells env)
       else sector_log (cells env) (activeSector (dv_log dv))) @ new \<and>
    callbackQueue (dv_callback dv') = Some (newest_of CALLBACK_QUEUE_LENGTH (waiting @ map log_entry (filter record_failed new)))"
proof -
  let ?rs = "hc_resources (cfg_snapshot (dv_config dv))"
  obtain env1 where g: "HealthCheckConfig_GetResources uninitialised (dv_config dv) env = (?rs, env1)" "healthy env1"
      "cells env1 = cells env"
    using xSemaphoreTake_healthy[OF assms(3)] touches_nothing(2) by (auto simp: HealthCheckConfig_GetResources_def)
  obtain dv1 fds1 env2 where l: "healthCheckService_CheckLoop libs mb 0 ?rs dv fds env1 = (dv1, fds1, env2)"
    using prod_cases3 by blast
  obtain period env3 where p: "HealthCheckConfig_GetPeriodSeconds (dv_config dv1) env2 = (period, env3)" by fastforce
  have "cells env3 = cells env2"
    using p by (auto simp: HealthCheckConfig_GetPeriodSeconds_def split: prod.splits dest: xSemaphoreTake_frame(1))
  then have "dv' = dv1" "cells env' = cells env2"
    using assms(5,8) by (auto simp: healthCheckService_Task_round_def g(1) l p)
  then show ?thesis
    using CheckLoop_logs[OF l _ _ g(2) assms(6,7)] log_reach_inv[OF assms(1)] assms(2,4) g(3) by auto
qed

definition checked_resource :: HealthCheckConfig_ResourceTypeDef where
  "checked_resource = \<lparr>r_occupied = 1, r_enabled = 1, r_trustAnchorId = 1, r_reserved = 0, r_port = 443,
     r_host = strncpy (memset_chars 64) ''a.example'' 63, r_path = strncpy (memset_chars 80) ''/'' 79\<rparr>"

definition sample_device :: device where
  "sample_device = \<lparr>dv_platform = \<lparr>cryptoMutex = True\<rparr>, dv_trust = sample_trust, dv_callback_config = sample_callback,
     dv_config = hc_static\<lparr>cfg_snapshot := healthCheckConfig_SetDefault
       \<lparr>hc_resources := [zero_resource, checked_resource, zero_resource, zero_resource, zero_resource, zero_resource]\<rparr>\<rparr>,
     dv_log = fst log_first, dv_credentials = fst tc_keyed,
     dv_callback = \<lparr>callbackQueue = Some [], callbackTelemetry = sample_telemetry\<rparr>, dv_buzzer = \<lparr>buzzerQueue = Some []\<rparr>,
     dv_time = \<lparr>synchronizedUnixTime = 1700000000, synchronizedAtTick = 0, synchronized = 1\<rparr>,
     certificateWarningAt = replicate 6 0, certificateWarningExpiry = replicate 6 0\<rparr>"

theorem round_logs_and_reports_witness:
  "map lr_resourceIndex (log_view
     (dv_log (fst (healthCheckService_Task_round (\<lambda>_. silent_library) sample_ca True [] sample_device [] (snd log_first))))
     (cells (snd (snd (healthCheckService_Task_round (\<lambda>_. silent_library) sample_ca True [] sample_device [] (snd log_first)))))) = [1]"
proof -
  obtain dv' fds' env' where run: "healthCheckService_Task_round (\<lambda>_. silent_library) sample_ca True [] sample_device [] (snd log_first)
      = (dv', fds', env')"
    using prod_cases3 by blast
  have dv: "dv_log sample_device = fst log_first" "callbackQueue (dv_callback sample_device) = Some []"
    "hc_resources (cfg_snapshot (dv_config sample_device)) =
       [zero_resource, checked_resource, zero_resource, zero_resource, zero_resource, zero_resource]"
    "TimeService_IsSynchronized (dv_time sample_device) \<noteq> 0"
    by (simp_all add: sample_device_def TimeService_IsSynchronized_def)
  have d: "due 0 (hc_resources (cfg_snapshot (dv_config sample_device))) = [1]"
    by (simp add: dv(3) zero_resource_def checked_resource_def)
  have "\<exists>new. map lr_resourceIndex new = [1] \<and> log_view (dv_log dv') (cells env') = [] @ new"
    using round_logs_and_reports[OF _ _ _ _ dv(4,2) _ run] log_first_reach unfolding d dv(1)
    by (force simp: dv(3) split: if_splits)
  then show ?thesis
    by (auto simp: run)
qed

end
