(* ===== verification/Api_Json.thy ===== *)
theory Api_Json
  imports C_Stdio Flash_Chip
begin

text \<open>
  The JSON helpers of \<open>Srv/Src/api_service.c\<close>.  They do not parse: a member is found by the
  first occurrence of its quoted key in the body.  A body is the C string the handlers see,
  an output buffer the whole array, because a failed extraction leaves what it has
  already copied.  The keys are literals of at most 15 characters, so that the pattern
  fits its 40 bytes.
\<close>

subsection \<open>Definitions\<close>

definition json_pattern :: "string \<Rightarrow> string" where
  "json_pattern key = CHR 0x22 # key @ [CHR 0x22]"

text \<open>The copying loop: success, and the output array.\<close>

fun apiService_JsonCopy :: "string \<Rightarrow> nat \<Rightarrow> nat \<Rightarrow> string \<Rightarrow> bool \<times> string" where
  "apiService_JsonCopy [] len capacity output = (False, output)"
| "apiService_JsonCopy (c # cursor) len capacity output =
     (if c = CHR 0x22 then (True, output[len := CHR 0x00])
      else if c = CHR 0x5C \<or> (of_char c :: nat) < 0x20 \<or> len \<ge> capacity - 1 then (False, output)
      else apiService_JsonCopy cursor (len + 1) capacity (output[len := c]))"

definition apiService_JsonString :: "string \<Rightarrow> string \<Rightarrow> string \<Rightarrow> bool \<times> string" where
  "apiService_JsonString json key output =
     (case strstr json (json_pattern key) of
        None \<Rightarrow> (False, output)
      | Some found \<Rightarrow>
          let cursor = dropWhile is_blank (drop (length (json_pattern key)) found) in
          if deref cursor \<noteq> CHR '':'' then (False, output)
          else
            let cursor = dropWhile is_blank (tl cursor) in
            if deref cursor \<noteq> CHR 0x22 then (False, output)
            else apiService_JsonCopy (tl cursor) 0 (length output) output)"

definition is_json_space :: "char \<Rightarrow> bool" where
  "is_json_space c \<longleftrightarrow> c = CHR '' '' \<or> c = CHR 0x09 \<or> c = CHR 0x0D \<or> c = CHR 0x0A"

function apiService_JsonHasKey :: "string \<Rightarrow> string \<Rightarrow> bool" where
  "apiService_JsonHasKey json key =
     (case strstr json (json_pattern key) of
        None \<Rightarrow> False
      | Some cursor \<Rightarrow>
          let rest = drop (length (json_pattern key)) cursor in
          if deref (dropWhile is_json_space rest) = CHR '':'' then True else apiService_JsonHasKey rest key)"
  by pat_completeness auto

termination
proof (relation "measure (\<lambda>(json, key). length json)")
  fix json key cursor rest
  assume "strstr json (json_pattern key) = Some cursor" "rest = drop (length (json_pattern key)) cursor"
  then show "((rest, key), (json, key)) \<in> measure (\<lambda>(json, key). length json)"
    using strstr_suffix[of json "json_pattern key" cursor]
    by (auto simp: json_pattern_def dest!: suffix_length_le prefix_length_le)
qed simp

declare apiService_JsonHasKey.simps [simp del]

text \<open>What follows the first colon after the key, blanks skipped.\<close>

definition json_value :: "string \<Rightarrow> string \<Rightarrow> string option" where
  "json_value json key =
     (case strstr json (json_pattern key) of
        None \<Rightarrow> None
      | Some found \<Rightarrow>
          (case strchr (drop (length (json_pattern key)) found) (CHR '':'') of
             None \<Rightarrow> None
           | Some cursor \<Rightarrow> Some (dropWhile is_blank (tl cursor))))"

definition apiService_JsonBoolean :: "string \<Rightarrow> string \<Rightarrow> u8 \<Rightarrow> bool \<times> u8" where
  "apiService_JsonBoolean json key v =
     (case json_value json key of
        None \<Rightarrow> (False, v)
      | Some cursor \<Rightarrow>
          if strncmp_eq cursor ''true'' then (True, 1)
          else if strncmp_eq cursor ''false'' then (True, 0)
          else (False, v))"

definition apiService_JsonNumber :: "string \<Rightarrow> string \<Rightarrow> u32 \<Rightarrow> bool \<times> u32" where
  "apiService_JsonNumber json key v =
     (case json_value json key of
        None \<Rightarrow> (False, v)
      | Some cursor \<Rightarrow>
          let (parsed, endp, _) = strtoul cursor in
          if endp = cursor then (False, v) else (True, parsed))"

text \<open>The text in the buffer grows; \<open>None\<close> when it does not fit or a character cannot be
  represented.\<close>

fun apiService_AppendLoop :: "nat \<Rightarrow> string \<Rightarrow> string \<Rightarrow> string option" where
  "apiService_AppendLoop capacity out [] = Some out"
| "apiService_AppendLoop capacity out (c # cs) =
     (if (of_char c :: nat) < 0x20 then None
      else if c = CHR 0x22 \<or> c = CHR 0x5C then
        if capacity - length out \<le> 2 then None else apiService_AppendLoop capacity (out @ [CHR 0x5C, c]) cs
      else if capacity - length out \<le> 1 then None
      else apiService_AppendLoop capacity (out @ [c]) cs)"

definition apiService_AppendJsonString :: "nat \<Rightarrow> string \<Rightarrow> string \<Rightarrow> string option" where
  "apiService_AppendJsonString capacity out v =
     (if length out \<ge> capacity then None else apiService_AppendLoop capacity out v)"

text \<open>Characters a JSON string may hold unescaped, and the text between the quotes as a JSON
  reader understands it.\<close>

definition json_plain :: "char \<Rightarrow> bool" where
  "json_plain c \<longleftrightarrow> c \<noteq> CHR 0x22 \<and> c \<noteq> CHR 0x5C \<and> 0x20 \<le> (of_char c :: nat)"

fun json_read :: "string \<Rightarrow> string option" where
  "json_read [] = Some []"
| "json_read (c # cs) =
     (if c = CHR 0x5C then
        (case cs of
           d # ds \<Rightarrow> if d = CHR 0x22 \<or> d = CHR 0x5C then map_option ((#) d) (json_read ds) else None
         | [] \<Rightarrow> None)
      else if json_plain c then map_option ((#) c) (json_read cs) else None)"

subsection \<open>Extraction\<close>

lemma length_JsonCopy [simp]: "length (snd (apiService_JsonCopy cursor n capacity out)) = length out"
  by (induction cursor n capacity out rule: apiService_JsonCopy.induct) auto

lemma JsonCopy_plain:
  assumes "list_all json_plain v" "n + length v < capacity" "length out = capacity"
  shows "apiService_JsonCopy (v @ CHR 0x22 # rest) n capacity out =
    (True, take n out @ v @ CHR 0x00 # drop (Suc (n + length v)) out)"
  using assms
proof (induction v arbitrary: n out)
  case Nil
  then show ?case
    by (simp add: upd_conv_take_nth_drop)
next
  case (Cons c v)
  then have "apiService_JsonCopy (v @ CHR 0x22 # rest) (n + 1) capacity (out[n := c]) =
      (True, take (n + 1) (out[n := c]) @ v @ CHR 0x00 # drop (Suc (n + 1 + length v)) (out[n := c]))"
    by (intro Cons.IH) simp_all
  then show ?case
    using Cons.prems by (simp add: json_plain_def take_Suc_conv_app_nth)
qed

lemma strstr_here: "prefix needle s \<Longrightarrow> strstr s needle = Some s"
  by (cases s) auto

text \<open>A text without occurrence before the key is skipped.\<close>

lemma strstr_skip:
  assumes "\<And>a b. before = a @ b \<Longrightarrow> b \<noteq> [] \<Longrightarrow> \<not> prefix needle (b @ s)"
  shows "strstr (before @ s) needle = strstr s needle"
  using assms
proof (induction before)
  case (Cons c before)
  have "\<not> prefix needle (c # before @ s)"
    using Cons.prems[of "[]" "c # before"] by simp
  moreover have "strstr (before @ s) needle = strstr s needle"
  proof (rule Cons.IH)
    fix a b assume "before = a @ b" "b \<noteq> []"
    then show "\<not> prefix needle (b @ s)"
      using Cons.prems[of "c # a" b] by simp
  qed
  ultimately show ?case
    by simp
qed simp

lemma dropWhile_not_blank: "\<not> is_blank c \<Longrightarrow> dropWhile is_blank (c # s) = c # s"
  by simp

text \<open>The quoted key, a colon and a quoted value without quotes, backslashes and control
  characters give the value back.\<close>

lemma JsonString_member:
  assumes "strstr json (json_pattern key) = Some (json_pattern key @ '':'' @ [CHR 0x22] @ v @ [CHR 0x22] @ rest)"
    and "list_all json_plain v" "length v < length out"
  shows "apiService_JsonString json key out = (True, v @ CHR 0x00 # drop (Suc (length v)) out)"
  using JsonCopy_plain[OF assms(2), of 0 "length out" out rest] assms(1,3)
  by (simp add: apiService_JsonString_def deref_def is_blank_def)

lemma json_plain_NUL: "list_all json_plain v \<Longrightarrow> CHR 0x00 \<notin> set v"
proof
  assume "list_all json_plain v" "CHR 0x00 \<in> set v"
  then have "json_plain (CHR 0x00)"
    unfolding list_all_iff by blast
  then show False
    by (simp add: json_plain_def)
qed

lemma JsonString_member_c_str:
  assumes "strstr json (json_pattern key) = Some (json_pattern key @ '':'' @ [CHR 0x22] @ v @ [CHR 0x22] @ rest)"
    and "list_all json_plain v" "length v < length out"
  shows "fst (apiService_JsonString json key out)" "c_str (snd (apiService_JsonString json key out)) = v"
  using JsonString_member[OF assms] json_plain_NUL[OF assms(2)] by simp_all

lemma length_JsonString [simp]: "length (snd (apiService_JsonString json key out)) = length out"
  by (simp add: apiService_JsonString_def Let_def split: option.split)

text \<open>A backslash in the value makes the extraction fail after the characters before it have
  replaced those of the output.\<close>

lemma JsonCopy_backslash:
  assumes "list_all json_plain v" "n + length v < capacity" "length out = capacity"
  shows "apiService_JsonCopy (v @ CHR 0x5C # rest) n capacity out =
    (False, take n out @ v @ drop (n + length v) out)"
  using assms
proof (induction v arbitrary: n out)
  case Nil
  then show ?case
    by simp
next
  case (Cons c v)
  then have "apiService_JsonCopy (v @ CHR 0x5C # rest) (n + 1) capacity (out[n := c]) =
      (False, take (n + 1) (out[n := c]) @ v @ drop (n + 1 + length v) (out[n := c]))"
    by (intro Cons.IH) simp_all
  then show ?case
    using Cons.prems by (simp add: json_plain_def take_Suc_conv_app_nth)
qed

subsection \<open>Escaping\<close>

lemma json_read_steps:
  "c = CHR 0x22 \<or> c = CHR 0x5C \<Longrightarrow> json_read (CHR 0x5C # c # s) = map_option ((#) c) (json_read s)"
  "json_plain c \<Longrightarrow> json_read (c # s) = map_option ((#) c) (json_read s)"
  by (auto simp: json_plain_def)

declare json_read.simps(2) [simp del]

text \<open>Whatever is appended reads back as the original, and stays within the buffer.\<close>

lemma AppendLoop_reads:
  assumes "apiService_AppendLoop capacity out v = Some out'"
  shows "\<exists>t. out' = out @ t \<and> json_read t = Some v \<and> (length out < capacity \<longrightarrow> length out' < capacity)"
  using assms
proof (induction capacity out v rule: apiService_AppendLoop.induct)
  case (1 capacity out)
  then show ?case
    by simp
next
  case (2 capacity out c cs)
  show ?case
  proof (cases "c = CHR 0x22 \<or> c = CHR 0x5C")
    case True
    then obtain t where "out' = (out @ [CHR 0x5C, c]) @ t" "json_read t = Some cs" "length out' < capacity"
      using 2 by (auto split: if_splits)
    then show ?thesis
      using True by (intro exI[of _ "CHR 0x5C # c # t"]) (simp add: json_read_steps(1))
  next
    case False
    then obtain t where "out' = (out @ [c]) @ t" "json_read t = Some cs" "length out' < capacity" "0x20 \<le> (of_char c :: nat)"
      using 2 by (auto split: if_splits)
    then show ?thesis
      using False by (intro exI[of _ "c # t"]) (simp add: json_read_steps(2) json_plain_def)
  qed
qed

end
