(* ===== verification/Api_Request.thy ===== *)
theory Api_Request
  imports Api_Json
begin

text \<open>
  How \<open>Srv/Src/api_service.c\<close> reads a request (\<open>apiService_ReadRequest\<close>).  \<open>mbedtls_ssl_read\<close> is the
  parameter \<open>rd\<close>: the number of the call and the room left give the result and, when it is
  positive, that many bytes.  The request structure is an argument and a result, because
  the function does not write it on every path.
\<close>

subsection \<open>Definitions\<close>

record ApiService_RequestTypeDef =
  rq_method :: string
  rq_path :: string
  rq_authorization :: string
  rq_body :: string

definition API_SERVICE_REQUEST_SIZE :: nat where
  "API_SERVICE_REQUEST_SIZE = 2560"

definition API_SERVICE_BODY_SIZE :: nat where
  "API_SERVICE_BODY_SIZE = 2048"

definition apiService_FindHeaderEnd :: "string \<Rightarrow> string option" where
  "apiService_FindHeaderEnd request = strstr request (CRLF @ CRLF)"

text \<open>The \<open>Content-Length\<close> of a header: 0 without the line, \<open>None\<close> when it is refused.\<close>

definition length_value :: "string \<Rightarrow> nat option" where
  "length_value line =
     (let v = dropWhile is_blank (drop 17 line) in
      if \<not> is_digit (deref v) then None
      else
        let (parsed, endp, range) = strtoul v; endp = dropWhile is_blank endp in
        if range \<or> (deref endp \<noteq> CHR 0x0D \<and> deref endp \<noteq> CHR 0x00) \<or> unat parsed > API_SERVICE_BODY_SIZE then None
        else Some (unat parsed))"

definition content_length :: "string \<Rightarrow> nat option" where
  "content_length header =
     (case strstr header (CRLF @ ''Content-Length:'') of
        Some line \<Rightarrow> length_value line
      | None \<Rightarrow> (case strstr header (CRLF @ ''content-length:'') of Some line \<Rightarrow> length_value line | None \<Rightarrow> Some 0))"

text \<open>What the first complete header decides: the length of the header with its blank line and
  of the body.\<close>

definition header_lengths :: "int \<Rightarrow> nat \<Rightarrow> string \<Rightarrow> int + (nat \<times> nat) option" where
  "header_lengths bad capacity buffer =
     (case apiService_FindHeaderEnd (c_str buffer) of
        None \<Rightarrow> Inr None
      | Some tail \<Rightarrow>
          let pos = length (c_str buffer) - length tail in
          (case content_length (take pos buffer) of
             None \<Rightarrow> Inl bad
           | Some expected \<Rightarrow>
               if pos + 4 \<ge> capacity \<or> expected > capacity - (pos + 4) - 1 then Inl bad else Inr (Some (pos + 4, expected))))"

text \<open>The receiving loop: the bytes read and the lengths when the request is complete, or the
  value returned.\<close>

function apiService_ReadLoop ::
  "(nat \<Rightarrow> nat \<Rightarrow> int \<times> (nat \<Rightarrow> char)) \<Rightarrow> int \<Rightarrow> nat \<Rightarrow> nat \<Rightarrow> string \<Rightarrow> (nat \<times> nat) option \<Rightarrow> int + string \<times> nat \<times> nat" where
  "apiService_ReadLoop rd bad capacity call buffer lengths =
     (if length buffer \<ge> capacity - 1 then Inl bad
      else
        let (result, bytes) = rd call (capacity - length buffer - 1) in
        if result \<le> 0 then Inl result
        else
          let buffer1 = buffer @ map bytes [0..<nat result] in
          (case (case lengths of None \<Rightarrow> header_lengths bad capacity buffer1 | Some l \<Rightarrow> Inr (Some l)) of
             Inl e \<Rightarrow> Inl e
           | Inr None \<Rightarrow> apiService_ReadLoop rd bad capacity (Suc call) buffer1 None
           | Inr (Some (requestLength, expected)) \<Rightarrow>
               if length buffer1 \<ge> requestLength + expected then Inr (buffer1, requestLength, expected)
               else apiService_ReadLoop rd bad capacity (Suc call) buffer1 (Some (requestLength, expected))))"
  by pat_completeness auto

termination
  by (relation "measure (\<lambda>(rd, bad, capacity, call, buffer, lengths). capacity - length buffer)") auto

declare apiService_ReadLoop.simps [simp del]

definition to_lower :: "char \<Rightarrow> nat" where
  "to_lower c = or (of_char c) 0x20"

text \<open>\<open>lwip_strnicmp(str1, str2, len) == 0\<close> for \<open>len > 0\<close>.\<close>

fun lwip_strnicmp :: "string \<Rightarrow> string \<Rightarrow> nat \<Rightarrow> bool" where
  "lwip_strnicmp str1 str2 0 \<longleftrightarrow> True"
| "lwip_strnicmp str1 str2 (Suc len) \<longleftrightarrow>
     (let c1 = deref str1; c2 = deref str2 in
      if c1 \<noteq> c2 \<and> \<not> (97 \<le> to_lower c1 \<and> to_lower c1 \<le> 122 \<and> to_lower c1 = to_lower c2) then False
      else c1 = CHR 0x00 \<or> lwip_strnicmp (tl str1) (tl str2) len)"

text \<open>The token of an \<open>Authorization\<close> line, given from the line on: empty for another scheme, \<open>None\<close> when it
  does not fit.\<close>

definition bearer_token :: "string \<Rightarrow> string option" where
  "bearer_token line =
     (let v = dropWhile is_blank (drop 14 line) in
      if \<not> lwip_strnicmp v ''Bearer'' 6 \<or> \<not> is_blank (deref (drop 6 v)) then Some []
      else
        let v = dropWhile is_blank (drop 6 v);
            raw = (case strstr v CRLF of None \<Rightarrow> v | Some e \<Rightarrow> take (length v - length e) v);
            token = rev (dropWhile is_blank (rev raw)) in
        if length token \<ge> 65 then None else Some token)"

function find_authorization :: "string \<Rightarrow> string option" where
  "find_authorization cursor =
     (case strstr cursor CRLF of
        None \<Rightarrow> Some []
      | Some found \<Rightarrow>
          let line = drop 2 found in
          if lwip_strnicmp line ''Authorization:'' 14 then bearer_token line else find_authorization line)"
  by pat_completeness auto

termination
proof (relation "measure length")
  fix cursor found line :: string
  assume "strstr cursor CRLF = Some found" "line = drop 2 found"
  then show "(line, cursor) \<in> measure length"
    using strstr_suffix[of cursor CRLF found] by (auto dest!: suffix_length_le prefix_length_le)
qed simp

declare find_authorization.simps [simp del]

definition apiService_ReadRequest ::
  "(nat \<Rightarrow> nat \<Rightarrow> int \<times> (nat \<Rightarrow> char)) \<Rightarrow> int \<Rightarrow> nat \<Rightarrow> ApiService_RequestTypeDef \<Rightarrow> int \<times> ApiService_RequestTypeDef" where
  "apiService_ReadRequest rd bad capacity request =
     (case apiService_ReadLoop rd bad capacity 0 [] None of
        Inl e \<Rightarrow> (e, request)
      | Inr (buffer, requestLength, expected) \<Rightarrow>
          let header = take (requestLength - 4) buffer in
          (case scan_word 7 header of
             None \<Rightarrow> (bad, request)
           | Some (verb, rest) \<Rightarrow>
               (case scan_word 79 rest of
                  None \<Rightarrow> (bad, request\<lparr>rq_method := verb\<rparr>)
                | Some (path, _) \<Rightarrow>
                    let request = request\<lparr>rq_method := verb, rq_path := path, rq_authorization := []\<rparr> in
                    (case find_authorization header of
                       None \<Rightarrow> (bad, request)
                     | Some token \<Rightarrow>
                         (0, request\<lparr>rq_authorization := token, rq_body := take expected (drop requestLength buffer)\<rparr>)))))"

text \<open>A request as a client writes it, and a connection that delivers a text in arbitrary
  pieces: before call \<open>k\<close>, \<open>f k\<close> of its characters have arrived.\<close>

definition request_lines :: "string \<Rightarrow> string \<Rightarrow> string \<Rightarrow> string \<Rightarrow> string list" where
  "request_lines verb path token body =
     [verb @ '' '' @ path @ '' HTTP/1.1'', ''Host: device''] @
     (if token = [] then [] else [''Authorization: Bearer '' @ token]) @ [''Content-Length: '' @ decimal (length body)]"

definition header_text :: "string list \<Rightarrow> string" where
  "header_text ls = concat (map (\<lambda>l. l @ CRLF) ls)"

definition delivers :: "(nat \<Rightarrow> nat \<Rightarrow> int \<times> (nat \<Rightarrow> char)) \<Rightarrow> (nat \<Rightarrow> nat) \<Rightarrow> string \<Rightarrow> bool" where
  "delivers rd f s \<longleftrightarrow> f 0 = 0 \<and> (\<forall>k. f k < length s \<longrightarrow> f k < f (Suc k) \<and> f (Suc k) \<le> length s \<and>
     (\<forall>room. fst (rd k room) = int (f (Suc k) - f k) \<and> (\<forall>i < f (Suc k) - f k. snd (rd k room) i = s ! (f k + i))))"

definition word_ok :: "string \<Rightarrow> bool" where
  "word_ok w \<longleftrightarrow> w \<noteq> [] \<and> list_all (\<lambda>c. \<not> is_space c \<and> c \<noteq> CHR 0x00) w"

subsection \<open>Lines\<close>

lemma strstr_line: "CHR 0x0D \<notin> set l \<Longrightarrow> strstr (l @ s) (CHR 0x0D # n) = strstr s (CHR 0x0D # n)"
  by (induction l) auto

lemma strstr_CRLF:
  "\<not> prefix n s \<Longrightarrow> strstr (CRLF @ s) (CRLF @ n) = strstr s (CRLF @ n)"
  "prefix n s \<Longrightarrow> strstr (CRLF @ s) (CRLF @ n) = Some (CRLF @ s)"
  by (simp_all add: CRLF_def)

lemma strstr_line_CRLF: "CHR 0x0D \<notin> set l \<Longrightarrow> strstr (l @ s) (CRLF @ n) = strstr s (CRLF @ n)"
  using strstr_line[of l s "CHR 0x0A # n"] by (simp add: CRLF_def)

definition line_ok :: "string \<Rightarrow> bool" where
  "line_ok l \<longleftrightarrow> l \<noteq> [] \<and> CHR 0x0D \<notin> set l \<and> CHR 0x00 \<notin> set l"

lemma header_text_simps [simp]:
  "header_text [] = []" "header_text (l # ls) = l @ CRLF @ header_text ls"
  by (simp_all add: header_text_def)

lemma header_end:
  "list_all line_ok ls \<Longrightarrow> ls \<noteq> [] \<Longrightarrow> strstr (header_text ls @ CRLF @ rest) (CRLF @ CRLF) = Some (CRLF @ CRLF @ rest)"
proof (induction ls)
  case (Cons l ls)
  have l: "CHR 0x0D \<notin> set l"
    using Cons.prems by (simp add: line_ok_def)
  show ?case
  proof (cases "ls = []")
    case True
    then show ?thesis
      using strstr_line_CRLF[OF l, of "CRLF @ CRLF @ rest" CRLF] by (simp add: strstr_CRLF(2))
  next
    case False
    then obtain m ms where ls: "ls = m # ms"
      by (cases ls) auto
    have "\<not> prefix CRLF (header_text ls @ CRLF @ rest)"
      using Cons.prems by (cases m) (auto simp: ls line_ok_def CRLF_def)
    then show ?thesis
      using strstr_line_CRLF[OF l, of "CRLF @ header_text ls @ CRLF @ rest" CRLF] Cons.IH Cons.prems False
      by (simp add: strstr_CRLF(1))
  qed
qed simp

lemma header_text_NUL: "list_all line_ok ls \<Longrightarrow> CHR 0x00 \<notin> set (header_text ls)"
  by (induction ls) (auto simp: line_ok_def CRLF_def)

lemma length_header_text: "ls \<noteq> [] \<Longrightarrow> 2 \<le> length (header_text ls)"
  by (cases ls) simp_all

text \<open>No proper beginning of the header with its blank line has its end in it.\<close>

lemma header_end_late:
  assumes "list_all line_ok ls" "ls \<noteq> []" "n < length (header_text ls) + 2"
  shows "strstr (take n (header_text ls @ CRLF)) (CRLF @ CRLF) = None"
proof (rule ccontr)
  let ?h = "header_text ls @ CRLF"
  assume "strstr (take n ?h) (CRLF @ CRLF) \<noteq> None"
  then obtain t where t: "suffix t (take n ?h)" "prefix (CRLF @ CRLF) t"
    using strstr_suffix by blast
  then obtain a where a: "take n ?h = a @ t"
    by (auto simp: suffix_def)
  have split: "?h = a @ t @ drop n ?h"
    using append_take_drop_id[of n ?h] unfolding a append_assoc by (rule sym)
  have "suffix (t @ drop n ?h) ?h"
    using split by (metis suffixI)
  moreover have "prefix (CRLF @ CRLF) (t @ drop n ?h)"
    using t(2) by (rule prefix_prefix)
  ultimately have "suffix (t @ drop n ?h) (CRLF @ CRLF)"
    using strstr_first[OF header_end[OF assms(1,2), of "[]", simplified append_Nil2]] by blast
  then have "length t + length (drop n ?h) \<le> 4"
    using suffix_length_le by fastforce
  moreover have "4 \<le> length t" "0 < length (drop n ?h)"
    using prefix_length_le[OF t(2)] assms(3) by simp_all
  ultimately show False
    by simp
qed

subsection \<open>Receiving\<close>

text \<open>What the loop decides after each piece of a header \<open>ls\<close> with body \<open>body\<close>.\<close>

lemma header_lengths_prefix:
  assumes ok: "list_all line_ok ls" "ls \<noteq> []" and h: "h = header_text ls" and s: "s = h @ CRLF @ body"
    and cl: "content_length (take (length h - 2) h) = Some (length body)" and fits: "length s < capacity"
  shows "n < length h + 2 \<Longrightarrow> header_lengths bad capacity (take n s) = Inr None"
    "length h + 2 \<le> n \<Longrightarrow> header_lengths bad capacity (take n s) = Inr (Some (length h + 2, length body))"
proof -
  have nul: "CHR 0x00 \<notin> set (h @ CRLF)"
    using header_text_NUL[OF ok(1)] by (simp add: h CRLF_def)
  have two: "2 \<le> length h"
    using length_header_text[OF ok(2)] h by simp
  show "header_lengths bad capacity (take n s) = Inr None" if "n < length h + 2"
  proof -
    have "take n s = take n (h @ CRLF)"
      using that by (simp add: s take_append)
    moreover have "CHR 0x00 \<notin> set (take n (h @ CRLF))"
      using nul by (meson in_set_takeD)
    ultimately show ?thesis
      using header_end_late[OF ok, of n] that by (simp add: header_lengths_def apiService_FindHeaderEnd_def h)
  qed
  show "header_lengths bad capacity (take n s) = Inr (Some (length h + 2, length body))" if "length h + 2 \<le> n"
  proof -
    let ?b = "take (n - length (h @ CRLF)) body"
    have t: "take n s = h @ CRLF @ ?b"
      using that by (simp add: s take_append)
    have c: "c_str (take n s) = h @ CRLF @ c_str ?b"
      using nul unfolding t c_str_def by (simp add: takeWhile_append)
    have f: "apiService_FindHeaderEnd (c_str (take n s)) = Some (CRLF @ CRLF @ c_str ?b)"
      using header_end[OF ok, of "c_str ?b"] by (simp add: apiService_FindHeaderEnd_def c h)
    have "take (length h - 2) (take n s) = take (length h - 2) h"
      using two by (simp add: t)
    moreover have "length (c_str (take n s)) - length (CRLF @ CRLF @ c_str ?b) = length h - 2"
      using two by (simp add: c)
    moreover have "\<not> (length h + 2 \<ge> capacity \<or> length body > capacity - (length h + 2) - 1)"
      using fits by (simp add: s)
    ultimately show ?thesis
      using f cl two by (simp add: header_lengths_def Let_def)
  qed
qed

lemma ReadLoop_delivers:
  assumes ok: "list_all line_ok ls" "ls \<noteq> []" and h: "h = header_text ls" and s: "s = h @ CRLF @ body"
    and cl: "content_length (take (length h - 2) h) = Some (length body)" and fits: "length s < capacity"
    and dl: "delivers rd f s"
    and st: "f k < length s" "lengths = (if f k < length h + 2 then None else Some (length h + 2, length body))"
  shows "apiService_ReadLoop rd bad capacity k (take (f k) s) lengths = Inr (s, length h + 2, length body)"
  using st
proof (induction "length s - f k" arbitrary: k lengths rule: less_induct)
  case less
  let ?n = "f (Suc k)"
  obtain result bytes where rd: "rd k (capacity - length (take (f k) s) - 1) = (result, bytes)" by fastforce
  have step: "f k < ?n" "?n \<le> length s" "result = int (?n - f k)" "\<forall>i < ?n - f k. bytes i = s ! (f k + i)"
    using dl less.prems(1) rd unfolding delivers_def by (metis fst_conv snd_conv)+
  have join: "take (f k) s @ map bytes [0..<nat result] = take ?n s"
    using step by (intro nth_equalityI) (auto simp: nth_append)
  have c: "\<not> capacity - 1 \<le> length (take (f k) s)" "\<not> result \<le> 0"
    using step fits less.prems(1) by simp_all
  have one: "apiService_ReadLoop rd bad capacity k (take (f k) s) lengths =
    (case (case lengths of None \<Rightarrow> header_lengths bad capacity (take ?n s) | Some l \<Rightarrow> Inr (Some l)) of
       Inl e \<Rightarrow> Inl e
     | Inr None \<Rightarrow> apiService_ReadLoop rd bad capacity (Suc k) (take ?n s) None
     | Inr (Some (requestLength, expected)) \<Rightarrow>
         if length (take ?n s) \<ge> requestLength + expected then Inr (take ?n s, requestLength, expected)
         else apiService_ReadLoop rd bad capacity (Suc k) (take ?n s) (Some (requestLength, expected)))"
    unfolding apiService_ReadLoop.simps[of rd bad capacity k "take (f k) s" lengths] if_not_P[OF c(1)] rd Let_def prod.case
      if_not_P[OF c(2)] join ..
  note lens = header_lengths_prefix[OF ok h s cl fits, of ?n bad]
  have total: "length s = length h + 2 + length body"
    by (simp add: s)
  have IH: "?n < length s \<Longrightarrow>
      apiService_ReadLoop rd bad capacity (Suc k) (take ?n s) (if ?n < length h + 2 then None else Some (length h + 2, length body)) =
      Inr (s, length h + 2, length body)"
    using step(1,2) less.prems(1) by (intro less.hyps[OF _ _ refl]) simp_all
  show ?case
  proof (cases "?n < length h + 2")
    case True
    then show ?thesis
      using one lens(1) IH less.prems(2) step(1) total by simp
  next
    case False
    then have "(case lengths of None \<Rightarrow> header_lengths bad capacity (take ?n s) | Some l \<Rightarrow> Inr (Some l)) =
        Inr (Some (length h + 2, length body))"
      using lens(2) less.prems(2) by simp
    then show ?thesis
      using one IH False step(2) total by (cases "?n < length s") simp_all
  qed
qed

subsection \<open>Understanding\<close>

lemma word_ok_simps:
  assumes "word_ok w"
  shows "w \<noteq> []" "\<And>c. c \<in> set w \<Longrightarrow> \<not> is_space c" "CHR 0x0D \<notin> set w" "CHR 0x00 \<notin> set w"
    "\<not> is_space (hd w)" "\<not> is_blank (hd w)" "\<not> is_blank (last w)"
proof -
  show ne: "w \<noteq> []" and sp: "\<And>c. c \<in> set w \<Longrightarrow> \<not> is_space c" and "CHR 0x00 \<notin> set w"
    using assms by (auto simp: word_ok_def list_all_iff)
  show "CHR 0x0D \<notin> set w"
    using sp[of "CHR 0x0D"] by (auto simp: is_space_def)
  show "\<not> is_space (hd w)"
    using sp ne by simp
  show "\<not> is_blank (hd w)" "\<not> is_blank (last w)"
    using sp[of "hd w"] sp[of "last w"] ne by (auto simp: is_space_def is_blank_def)
qed

lemma scan_word_word:
  assumes "word_ok w" "length w \<le> n" "s = [] \<or> is_space (hd s)" "list_all is_space blanks"
  shows "scan_word n (blanks @ w @ s) = Some (w, s)"
proof -
  note w = word_ok_simps[OF assms(1)]
  have d: "dropWhile is_space (blanks @ w @ s) = w @ s"
    using assms(4) w(1,5) by (cases w) (auto simp: list_all_iff)
  have "takeWhile (\<lambda>c. \<not> is_space c) (w @ s) = w"
    using w(2) assms(3) by (cases s) (auto simp: takeWhile_append)
  moreover have "0 < n"
    using assms(2) w(1) by (cases w) auto
  ultimately show ?thesis
    using assms(2) w(1) by (simp add: scan_word_def d Let_def)
qed

lemma decimal_first:
  obtains d ds where "decimal n = d # ds" "is_digit d" "\<not> is_blank d"
proof -
  obtain d ds where d: "decimal n = d # ds"
    by (cases "decimal n") auto
  then have "is_digit d"
    using decimal_digits[of d n] by simp
  moreover from this have "\<not> is_blank d"
    unfolding is_blank_def by (auto simp: is_digit_def less_eq_char_def)
  ultimately show ?thesis
    by (rule that[OF d])
qed

lemma length_value_decimal:
  assumes "n \<le> 2048"
  shows "length_value (CRLF @ ''Content-Length: '' @ decimal n) = Some n"
proof -
  obtain d ds where d: "decimal n = d # ds" "is_digit d" "\<not> is_blank d"
    by (rule decimal_first)
  have v: "dropWhile is_blank (drop 17 (CRLF @ ''Content-Length: '' @ decimal n)) = decimal n"
    using d by (simp add: CRLF_def is_blank_def)
  have "strtoul (decimal n) = (of_nat n, [], False)"
    using strtoul_decimal[of n "[]"] assms by simp
  moreover have "is_digit (deref (decimal n))"
    using d by (simp add: deref_def)
  moreover have "unat (of_nat n :: u32) = n"
    using assms by (simp add: unat_of_nat take_bit_nat_eq_self)
  ultimately show ?thesis
    using assms unfolding length_value_def v by (simp add: API_SERVICE_BODY_SIZE_def) (simp add: deref_def)
qed

text \<open>The header without its last line break.\<close>

lemma header_text_last: "take (length (header_text (ls @ [l])) - 2) (header_text (ls @ [l])) = header_text ls @ l"
  by (simp add: header_text_def)

lemma request_header:
  "take (length (header_text (request_lines verb path token body)) - 2) (header_text (request_lines verb path token body)) =
     verb @ '' '' @ path @ '' HTTP/1.1'' @ CRLF @ ''Host: device'' @ CRLF @
     (if token = [] then [] else ''Authorization: Bearer '' @ token @ CRLF) @ ''Content-Length: '' @ decimal (length body)"
  unfolding request_lines_def append_assoc[symmetric] header_text_last by (cases "token = []") simp_all

lemma request_lines_ok:
  assumes "word_ok verb" "word_ok path" "token \<noteq> [] \<longrightarrow> word_ok token"
  shows "list_all line_ok (request_lines verb path token body)" "request_lines verb path token body \<noteq> []"
proof -
  have "CHR 0x0D \<notin> set (decimal n)" "CHR 0x00 \<notin> set (decimal n)" for n
    using decimal_digits[of "CHR 0x0D" n] decimal_digits[of "CHR 0x00" n] by (auto simp: is_digit_def)
  then show "list_all line_ok (request_lines verb path token body)" "request_lines verb path token body \<noteq> []"
    using word_ok_simps(3,4)[OF assms(1)] word_ok_simps(3,4)[OF assms(2)] word_ok_simps(3,4)[of token] assms(3)
    by (auto simp: request_lines_def line_ok_def)
qed

lemma content_length_request:
  assumes "word_ok verb" "word_ok path" "token \<noteq> [] \<longrightarrow> word_ok token" "length body \<le> 2048"
  shows "content_length (verb @ '' '' @ path @ '' HTTP/1.1'' @ CRLF @ ''Host: device'' @ CRLF @
     (if token = [] then [] else ''Authorization: Bearer '' @ token @ CRLF) @ ''Content-Length: '' @ decimal (length body)) =
     Some (length body)"
proof -
  let ?cl = "CRLF @ ''Content-Length: '' @ decimal (length body)"
  let ?auth = "CRLF @ (''Authorization: Bearer '' @ token) @ ?cl"
  have last: "strstr ?cl (CRLF @ ''Content-Length:'') = Some ?cl"
    by (rule strstr_CRLF(2)) simp
  have token: "CHR 0x0D \<notin> set token"
    using assms(3) word_ok_simps(3)[of token] by (cases "token = []") auto
  have auth: "strstr ?auth (CRLF @ ''Content-Length:'') = Some ?cl"
    using strstr_CRLF(1)[of "''Content-Length:''" "(''Authorization: Bearer '' @ token) @ ?cl"]
      strstr_line_CRLF[of "''Authorization: Bearer '' @ token" ?cl "''Content-Length:''"] token last by simp
  have rest: "strstr (CRLF @ ''Host: device'' @ s) (CRLF @ ''Content-Length:'') = strstr s (CRLF @ ''Content-Length:'')" for s
    using strstr_CRLF(1)[of "''Content-Length:''" "''Host: device'' @ s"] strstr_line_CRLF[of "''Host: device''" s "''Content-Length:''"]
    by simp
  have first: "CHR 0x0D \<notin> set (verb @ '' '' @ path @ '' HTTP/1.1'')"
    using word_ok_simps(3)[OF assms(1)] word_ok_simps(3)[OF assms(2)] by simp
  have "strstr ((verb @ '' '' @ path @ '' HTTP/1.1'') @ CRLF @ ''Host: device'' @ (if token = [] then ?cl else ?auth))
      (CRLF @ ''Content-Length:'') = Some ?cl"
    unfolding strstr_line_CRLF[OF first] rest using last auth by simp
  then have "strstr (verb @ '' '' @ path @ '' HTTP/1.1'' @ CRLF @ ''Host: device'' @ CRLF @
     (if token = [] then [] else ''Authorization: Bearer '' @ token @ CRLF) @ ''Content-Length: '' @ decimal (length body))
      (CRLF @ ''Content-Length:'') = Some ?cl"
    by (cases "token = []") simp_all
  then show ?thesis
    using length_value_decimal[OF assms(4)] by (simp add: content_length_def)
qed

lemma bearer_token_word:
  assumes "word_ok token" "length token < 65"
  shows "bearer_token (''Authorization: Bearer '' @ token @ CRLF @ rest) = Some token"
proof -
  note w = word_ok_simps[OF assms(1)]
  obtain c cs where c: "token = c # cs" "\<not> is_blank c"
    using w(1,6) by (cases token) auto
  have v: "dropWhile is_blank (drop 14 (''Authorization: Bearer '' @ token @ CRLF @ rest)) = ''Bearer '' @ token @ CRLF @ rest"
    by (simp add: is_blank_def)
  have e: "lwip_strnicmp (''Bearer '' @ token @ CRLF @ rest) ''Bearer'' 6"
    by (simp add: numeral_eq_Suc deref_def)
  have b: "is_blank (deref (drop 6 (''Bearer '' @ token @ CRLF @ rest)))"
    by (simp add: deref_def is_blank_def)
  have d: "dropWhile is_blank (drop 6 (''Bearer '' @ token @ CRLF @ rest)) = token @ CRLF @ rest"
    using c by (simp add: is_blank_def)
  have "strstr (token @ CRLF @ rest) CRLF = Some (CRLF @ rest)"
    using strstr_line_CRLF[OF w(3), of "CRLF @ rest" "[]"] by (simp add: strstr_here)
  moreover have "rev (dropWhile is_blank (rev token)) = token"
    using w(1,7) by (metis dropWhile_not_blank hd_rev list.collapse rev_is_Nil_conv rev_rev_ident)
  ultimately show ?thesis
    unfolding bearer_token_def v Let_def d using e b assms(2) by simp
qed

lemma find_authorization_skip:
  assumes "CHR 0x0D \<notin> set l" "\<not> lwip_strnicmp s ''Authorization:'' 14"
  shows "find_authorization (l @ CRLF @ s) = find_authorization s"
  using strstr_line_CRLF[OF assms(1), of "CRLF @ s" "[]"] assms(2)
  by (simp add: find_authorization.simps[of "l @ CRLF @ s"] strstr_here)

lemma find_authorization_request:
  assumes "word_ok verb" "word_ok path" "token \<noteq> [] \<longrightarrow> word_ok token \<and> length token < 65"
  shows "find_authorization (verb @ '' '' @ path @ '' HTTP/1.1'' @ CRLF @ ''Host: device'' @ CRLF @
     (if token = [] then [] else ''Authorization: Bearer '' @ token @ CRLF) @ ''Content-Length: '' @ decimal (length body)) =
     Some token"
proof -
  let ?cl = "''Content-Length: '' @ decimal (length body)"
  have first: "CHR 0x0D \<notin> set (verb @ '' '' @ path @ '' HTTP/1.1'')"
    using word_ok_simps(3)[OF assms(1)] word_ok_simps(3)[OF assms(2)] by simp
  have host: "\<not> lwip_strnicmp (''Host: device'' @ s) ''Authorization:'' 14" for s
    using lwip_strnicmp.simps(2)[of "''Host: device'' @ s" "''Authorization:''" 13] by (simp add: deref_def to_lower_def)
  have cl: "\<not> lwip_strnicmp ?cl ''Authorization:'' 14"
    using lwip_strnicmp.simps(2)[of ?cl "''Authorization:''" 13] by (simp add: deref_def to_lower_def)
  have none: "find_authorization ?cl = Some []"
  proof -
    have "CHR 0x0D \<notin> set ?cl"
      using decimal_digits[of "CHR 0x0D"] by (auto simp: is_digit_def)
    then have "strstr ?cl CRLF = None"
      using strstr_line_CRLF[of ?cl "[]" "[]"] by (simp add: CRLF_def)
    then show ?thesis
      by (simp add: find_authorization.simps)
  qed
  show ?thesis
  proof (cases "token = []")
    case True
    then show ?thesis
      using find_authorization_skip[OF first host, of "CRLF @ ?cl"] find_authorization_skip[OF _ cl, of "''Host: device''"] none
      by simp
  next
    case False
    let ?auth = "''Authorization: Bearer '' @ token @ CRLF @ ?cl"
    have "lwip_strnicmp ?auth ''Authorization:'' 14"
      by (simp add: numeral_eq_Suc deref_def)
    moreover have "strstr (''Host: device'' @ CRLF @ ?auth) CRLF = Some (CRLF @ ?auth)"
      using strstr_line_CRLF[of "''Host: device''" "CRLF @ ?auth" "[]"] by (simp add: strstr_here)
    moreover have "drop 2 (CRLF @ ?auth) = ?auth"
      by (simp add: CRLF_def)
    moreover have "bearer_token ?auth = Some token"
      using bearer_token_word[of token ?cl] assms(3) False by blast
    ultimately have "find_authorization (''Host: device'' @ CRLF @ ?auth) = Some token"
      by (simp only: find_authorization.simps[of "''Host: device'' @ CRLF @ ?auth"] option.case Let_def if_True)
    then show ?thesis
      using find_authorization_skip[OF first host, of "CRLF @ ?auth"] False by simp
  qed
qed

subsection \<open>Properties\<close>

lemma request_delivered:
  assumes "word_ok verb" "length verb \<le> 7" "word_ok path" "length path \<le> 79"
    and "token \<noteq> [] \<longrightarrow> word_ok token \<and> length token < 65" "length body \<le> 2048"
    and "s = header_text (request_lines verb path token body) @ CRLF @ body" "length s < capacity" "delivers rd f s"
  shows "apiService_ReadRequest rd bad capacity request =
    (0, \<lparr>rq_method = verb, rq_path = path, rq_authorization = token, rq_body = body\<rparr>)"
proof -
  let ?h = "header_text (request_lines verb path token body)"
  have token: "token \<noteq> [] \<longrightarrow> word_ok token"
    using assms(5) by blast
  note ok = request_lines_ok[OF assms(1,3) token, of body]
  have cl: "content_length (take (length ?h - 2) ?h) = Some (length body)"
    unfolding request_header by (rule content_length_request[OF assms(1,3) token assms(6)])
  have start: "f 0 = 0" "0 < length s"
    using assms(7,9) by (simp_all add: delivers_def)
  have loop: "apiService_ReadLoop rd bad capacity 0 [] None = Inr (s, length ?h + 2, length body)"
    using ReadLoop_delivers[OF ok refl assms(7) cl assms(8,9), of 0 None bad] start length_header_text[OF ok(2)] by simp
  have header: "take (length ?h + 2 - 4) s = take (length ?h - 2) ?h"
    using length_header_text[OF ok(2)] by (simp add: assms(7))
  have body: "take (length body) (drop (length ?h + 2) s) = body"
    by (simp add: assms(7))
  have sp: "is_space (CHR '' '')" "is_space (hd CRLF)"
    by (simp_all add: is_space_def CRLF_def)
  define rest where "rest = '' HTTP/1.1'' @ CRLF @ ''Host: device'' @ CRLF @
     (if token = [] then [] else ''Authorization: Bearer '' @ token @ CRLF) @ ''Content-Length: '' @ decimal (length body)"
  have w: "scan_word 7 (verb @ '' '' @ path @ rest) = Some (verb, '' '' @ path @ rest)"
    "scan_word 79 ('' '' @ path @ rest) = Some (path, rest)"
    using scan_word_word[OF assms(1,2), of "'' '' @ path @ rest" "[]"] scan_word_word[OF assms(3,4), of rest "'' ''"] sp
    by (simp_all add: rest_def)
  have a: "find_authorization (verb @ '' '' @ path @ rest) = Some token"
    unfolding rest_def by (rule find_authorization_request[OF assms(1,3,5)])
  have h: "take (length ?h - 2) ?h = verb @ '' '' @ path @ rest"
    unfolding request_header rest_def ..
  show ?thesis
    unfolding apiService_ReadRequest_def loop sum.case prod.case header h Let_def w option.case a body by simp
qed

text \<open>C0: reading inverts writing.  Every request line with a method of at most seven and a path of
  at most 79 characters, with or without a bearer token, and every body of at most 2048
  bytes whatever they are, is read back exactly when the text fits the buffer, however the
  connection cuts it into pieces.\<close>

theorem request_roundtrip:
  assumes "word_ok verb" "length verb \<le> 7" "word_ok path" "length path \<le> 79"
    and "token \<noteq> [] \<longrightarrow> word_ok token \<and> length token < 65" "length body \<le> 2048"
    and "s = header_text (request_lines verb path token body) @ CRLF @ body" "length s < API_SERVICE_REQUEST_SIZE"
    and "delivers rd f s"
  shows "apiService_ReadRequest rd bad API_SERVICE_REQUEST_SIZE request =
    (0, \<lparr>rq_method = verb, rq_path = path, rq_authorization = token, rq_body = body\<rparr>)"
  by (rule request_delivered[OF assms])

definition byte_by_byte :: "string \<Rightarrow> nat \<Rightarrow> nat \<Rightarrow> int \<times> (nat \<Rightarrow> char)" where
  "byte_by_byte s k room = (if k < length s then 1 else 0, \<lambda>_. s ! k)"

theorem request_roundtrip_witness:
  "fst (apiService_ReadRequest
     (byte_by_byte (header_text (request_lines ''PUT'' ''/api/v1/tls/certificate'' ''abc'' [CHR 0x30, CHR 0x00]) @ CRLF @
       [CHR 0x30, CHR 0x00]))
     (- 28928) API_SERVICE_REQUEST_SIZE \<lparr>rq_method = [], rq_path = [], rq_authorization = [], rq_body = []\<rparr>) = 0"
proof -
  let ?s = "header_text (request_lines ''PUT'' ''/api/v1/tls/certificate'' ''abc'' [CHR 0x30, CHR 0x00]) @ CRLF @ [CHR 0x30, CHR 0x00]"
  have "delivers (byte_by_byte ?s) (\<lambda>k. k) ?s"
    by (simp add: delivers_def byte_by_byte_def)
  moreover have "word_ok ''PUT''" "word_ok ''/api/v1/tls/certificate''" "word_ok ''abc''"
    by (simp_all add: word_ok_def is_space_def)
  moreover have "decimal (Suc (Suc 0)) = ''2''"
    by code_simp
  then have "length ?s < API_SERVICE_REQUEST_SIZE"
    by (simp add: request_lines_def API_SERVICE_REQUEST_SIZE_def CRLF_def)
  ultimately show ?thesis
    using request_roundtrip[of "''PUT''" "''/api/v1/tls/certificate''" "''abc''" "[CHR 0x30, CHR 0x00]" ?s
        "byte_by_byte ?s" "\<lambda>k. k" "- 28928" "\<lparr>rq_method = [], rq_path = [], rq_authorization = [], rq_body = []\<rparr>"]
    by simp
qed

text \<open>A peer that closes the connection before its request is complete: \<open>mbedtls_ssl_read\<close> returns 0, which the
  caller takes for success, with the request structure as it was.\<close>

lemma ReadRequest_eof: "fst (rd 0 2559) = 0 \<Longrightarrow> apiService_ReadRequest rd bad API_SERVICE_REQUEST_SIZE request = (0, request)"
  by (cases "rd 0 2559") (simp add: apiService_ReadRequest_def apiService_ReadLoop.simps[of rd bad _ 0] API_SERVICE_REQUEST_SIZE_def)

end
