(* ===== verification/Telemetry_Service.thy ===== *)
theory Telemetry_Service
  imports Time_Service
begin

text \<open>
  \<open>Srv/Src/telemetry_service.c\<close>: the registered tasks and their stack reserves.  A task handle is a number;
  what the kernel reports as the high-water mark of a task's stack, in words of four bytes, is the
  parameter \<open>highWater\<close>.
\<close>

record TelemetryService_SnapshotTypeDef =
  tl_uptimeMs :: u32
  tl_stackMinFreeBytes :: "u32 list"

record TelemetryService_State =
  taskHandles :: "nat option list"

definition TELEMETRY_TASK_COUNT :: nat where
  "TELEMETRY_TASK_COUNT = 9"

definition TelemetryService_RegisterTask :: "nat \<Rightarrow> nat option \<Rightarrow> TelemetryService_State \<Rightarrow> TelemetryService_State" where
  "TelemetryService_RegisterTask taskId handle st =
     (if taskId \<ge> TELEMETRY_TASK_COUNT \<or> handle = None then st
      else st\<lparr>taskHandles := (taskHandles st)[taskId := handle]\<rparr>)"

definition TelemetryService_GetSnapshot ::
  "(nat \<Rightarrow> u32) \<Rightarrow> TelemetryService_State \<Rightarrow> env \<Rightarrow> TelemetryService_SnapshotTypeDef" where
  "TelemetryService_GetSnapshot highWater st env =
     \<lparr>tl_uptimeMs = TimeService_GetUptimeMs env,
      tl_stackMinFreeBytes = map (\<lambda>handle. case handle of None \<Rightarrow> 0 | Some h \<Rightarrow> highWater h * 4) (taskHandles st)\<rparr>"

text \<open>A registered task keeps its slot, and only its slot.\<close>

lemma RegisterTask_slot:
  assumes "taskId < TELEMETRY_TASK_COUNT" "length (taskHandles st) = TELEMETRY_TASK_COUNT"
  shows "tl_stackMinFreeBytes (TelemetryService_GetSnapshot highWater (TelemetryService_RegisterTask taskId (Some h) st) env) =
    (tl_stackMinFreeBytes (TelemetryService_GetSnapshot highWater st env))[taskId := highWater h * 4]"
  using assms by (simp add: TelemetryService_GetSnapshot_def TelemetryService_RegisterTask_def map_update)

end
