(* ===== verification/Api_Reply.thy ===== *)
theory Api_Reply
  imports Callback_Service Api_Json Auth_Service Tls_Server_Credentials
begin

text \<open>
  The replies of \<open>Srv/Src/api_service.c\<close>.  A reply is the list of texts handed to
  \<open>apiService_WriteAll\<close> one after the other, or the error returned instead when a text does not fit
  its buffer; nothing of the device changes once a reply is chosen.  \<open>snprintf\<close> whose result is ignored
  cuts the text to the buffer (\<open>into\<close>).  \<open>gmtime_r\<close> is the proleptic Gregorian calendar on a 64-bit
  \<open>time_t\<close>, which cannot fail for 32-bit values.
\<close>

subsection \<open>Definitions\<close>

datatype api_reply = Reply "string list" | Buffer_Too_Small

definition into :: "nat \<Rightarrow> string \<Rightarrow> string" where
  "into capacity s = take (capacity - 1) s"

definition truth :: "bool \<Rightarrow> string" where
  "truth b = (if b then ''true'' else ''false'')"

text \<open>The sending loop of \<open>apiService_WriteAll\<close>: \<open>wr\<close> is \<open>mbedtls_ssl_write\<close>, by the number of
  the call and the number of bytes that remain.\<close>

function apiService_WriteAll :: "(nat \<Rightarrow> nat \<Rightarrow> int) \<Rightarrow> nat \<Rightarrow> nat \<Rightarrow> int \<times> nat" where
  "apiService_WriteAll wr call remaining =
     (if remaining = 0 then (0, call)
      else
        let result = wr call remaining in
        if result \<le> 0 then (result, Suc call)
        else apiService_WriteAll wr (Suc call) (remaining - nat result))"
  by pat_completeness auto

termination by (relation "measure (\<lambda>(wr, call, remaining). remaining)") auto

declare apiService_WriteAll.simps [simp del]

fun write_texts :: "(nat \<Rightarrow> nat \<Rightarrow> int) \<Rightarrow> nat \<Rightarrow> string list \<Rightarrow> int" where
  "write_texts wr call [] = 0"
| "write_texts wr call (s # ss) =
     (let (result, call1) = apiService_WriteAll wr call (length s)
      in if result \<noteq> 0 then result else write_texts wr call1 ss)"

text \<open>The value a handler returns for its reply.\<close>

definition send_reply :: "(nat \<Rightarrow> nat \<Rightarrow> int) \<Rightarrow> int \<Rightarrow> api_reply \<Rightarrow> int" where
  "send_reply wr too_small r = (case r of Reply ss \<Rightarrow> write_texts wr 0 ss | Buffer_Too_Small \<Rightarrow> too_small)"

definition API_SERVICE_RESPONSE_SIZE :: nat where
  "API_SERVICE_RESPONSE_SIZE = 2048"

definition reply_head :: "nat \<Rightarrow> string \<Rightarrow> nat \<Rightarrow> string" where
  "reply_head status reason len =
     ''HTTP/1.1 '' @ decimal status @ '' '' @ reason @ CRLF @ ''Content-Type: application/json'' @ CRLF @
     ''Content-Length: '' @ decimal len @ CRLF @ ''Connection: close'' @ CRLF @ ''Cache-Control: no-store'' @ CRLF @ CRLF"

definition apiService_Respond :: "nat \<Rightarrow> string \<Rightarrow> string \<Rightarrow> api_reply" where
  "apiService_Respond status reason json =
     (let response = reply_head status reason (length json) @ json
      in if length response \<ge> API_SERVICE_RESPONSE_SIZE then Buffer_Too_Small else Reply [response])"

definition apiService_RespondHeadersOnly :: "nat \<Rightarrow> string \<Rightarrow> string \<Rightarrow> api_reply" where
  "apiService_RespondHeadersOnly status reason json =
     (let response = reply_head status reason (length json)
      in if length response \<ge> API_SERVICE_RESPONSE_SIZE then Buffer_Too_Small else Reply [response])"

definition apiService_Error :: "nat \<Rightarrow> string \<Rightarrow> string \<Rightarrow> api_reply" where
  "apiService_Error status reason code =
     apiService_Respond status reason (into 96 (''{\"error\":\"'' @ code @ ''\"}''))"

definition apiService_TransportStatusText :: "u8 \<Rightarrow> string" where
  "apiService_TransportStatusText status =
     (if status = 0 then ''ok''
      else if status = 1 then ''dns_error''
      else if status = 2 then ''connect_error''
      else if status = 3 then ''config_error''
      else if status = 4 then ''certificate_error''
      else if status = 5 then ''handshake_error''
      else if status = 6 then ''io_error''
      else if status = 7 then ''protocol_error''
      else ''unknown'')"

text \<open>\<open>gmtime_r\<close>: the year and the day of the year, then the month and the day.\<close>

function gmtime_year :: "nat \<Rightarrow> nat \<Rightarrow> nat \<times> nat" where
  "gmtime_year y days =
     (if days < (if leap_year y then 366 else 365) then (y, days)
      else gmtime_year (y + 1) (days - (if leap_year y then 366 else 365)))"
  by pat_completeness auto

termination by (relation "measure snd") auto

declare gmtime_year.simps [simp del]

fun gmtime_month :: "nat list \<Rightarrow> nat \<Rightarrow> nat \<Rightarrow> nat \<times> nat" where
  "gmtime_month [] m days = (m, days)"
| "gmtime_month (l # ls) m days = (if days < l then (m, days) else gmtime_month ls (m + 1) (days - l))"

definition gmtime_text :: "u32 \<Rightarrow> string" where
  "gmtime_text t =
     (let n = unat t; (y, yday) = gmtime_year 1970 (n div 86400); (m, mday) = gmtime_month (month_lengths y) 1 yday
      in decimal_pad 4 y @ ''-'' @ decimal_pad 2 m @ ''-'' @ decimal_pad 2 (mday + 1) @ ''T'' @
         decimal_pad 2 (n mod 86400 div 3600) @ '':'' @ decimal_pad 2 (n mod 3600 div 60) @ '':'' @ decimal_pad 2 (n mod 60) @ ''Z'')"

text \<open>One entry of the log, before the length check.\<close>

definition expiry_fields :: "HealthCheckLog_EntryTypeDef \<Rightarrow> string" where
  "expiry_fields entry =
     into 192
       (if le_certificateExpiresAt entry = 0
        then ''\"expiring_date\":null,\"days_left\":null,\"anchor_id\":'' @ decimal (unat (le_certificateAnchorId entry)) @
             '',\"expiring\":false''
        else ''\"expiring_date\":\"'' @ gmtime_text (le_certificateExpiresAt entry) @ ''\",\"days_left\":'' @
             decimal_int (sint (le_certificateDaysLeft entry)) @ '',\"anchor_id\":'' @
             decimal (unat (le_certificateAnchorId entry)) @ '',\"expiring\":'' @ truth (le_certificateExpiring entry \<noteq> 0))"

definition apiService_FormatLogEntry :: "HealthCheckLog_EntryTypeDef \<Rightarrow> bool \<Rightarrow> string" where
  "apiService_FormatLogEntry entry first =
     (if first then '''' else '','') @
     ''{\"sequence\":'' @ decimal (unat (le_sequence entry)) @
     '',\"timestamp\":'' @ decimal (unat (le_timestampUnix entry)) @
     '',\"resource_index\":'' @ decimal (unat (le_resourceIndex entry)) @
     '',\"status\":\"'' @ apiService_TransportStatusText (le_status entry) @
     ''\",\"http_status\":'' @ decimal (unat (le_httpStatus entry)) @
     '',\"elapsed_ms\":'' @ decimal (unat (le_elapsedMs entry)) @
     '',\"detail\":'' @ decimal_int (sint (le_detail entry)) @
     '',\"certificate\":{'' @ expiry_fields entry @ ''}}''"

fun log_fragments :: "bool \<Rightarrow> HealthCheckLog_EntryTypeDef list \<Rightarrow> string list" where
  "log_fragments first [] = []"
| "log_fragments first (e # es) = apiService_FormatLogEntry e first # log_fragments False es"

definition apiService_RespondLogs :: "HealthCheckLog_EntryTypeDef list \<Rightarrow> api_reply" where
  "apiService_RespondLogs entries =
     (let fragments = log_fragments True entries; start = ''{\"logs\":[''; end_text = '']}'' in
      if list_ex (\<lambda>fragment. fragment = [] \<or> length fragment \<ge> 384) fragments then Buffer_Too_Small
      else
        let header = reply_head 200 ''OK'' (length start + length end_text + sum_list (map length fragments)) in
        if length header \<ge> 192 then Buffer_Too_Small
        else Reply ([header, start] @ fragments @ [end_text]))"

definition apiService_TlsCredentialsRespond ::
  "TlsServerCredentials_StatusTypeDef \<Rightarrow> string \<Rightarrow> string \<Rightarrow> api_reply" where
  "apiService_TlsCredentialsRespond status awaiting invalidError =
     (case status of
        TLS_SERVER_CREDENTIALS_STATUS_ACTIVATED \<Rightarrow> apiService_Respond 200 ''OK'' ''{\"status\":\"activated\"}''
      | TLS_SERVER_CREDENTIALS_STATUS_PENDING \<Rightarrow>
          apiService_Respond 202 ''Accepted'' (into 64 (''{\"status\":\"pending\",\"awaiting\":\"'' @ awaiting @ ''\"}''))
      | TLS_SERVER_CREDENTIALS_STATUS_MISMATCH \<Rightarrow> apiService_Error 409 ''Conflict'' ''key_mismatch''
      | TLS_SERVER_CREDENTIALS_STATUS_INVALID_DATA \<Rightarrow> apiService_Error 400 ''Bad Request'' invalidError
      | _ \<Rightarrow> apiService_Error 500 ''Internal Server Error'' ''storage_error'')"

definition apiService_TrustStoreError :: "TlsTrustStore_StatusTypeDef \<Rightarrow> api_reply" where
  "apiService_TrustStoreError status =
     (case status of
        TLS_TRUST_STORE_STATUS_INVALID_ARGUMENT \<Rightarrow> apiService_Error 400 ''Bad Request'' ''invalid_certificate_body''
      | TLS_TRUST_STORE_STATUS_INVALID_CERTIFICATE \<Rightarrow> apiService_Error 400 ''Bad Request'' ''invalid_certificate''
      | TLS_TRUST_STORE_STATUS_NO_MEMORY \<Rightarrow> apiService_Error 503 ''Service Unavailable'' ''tls_memory_exhausted''
      | TLS_TRUST_STORE_STATUS_NOT_CA \<Rightarrow> apiService_Error 400 ''Bad Request'' ''certificate_not_ca''
      | TLS_TRUST_STORE_STATUS_NOT_FOUND \<Rightarrow> apiService_Error 404 ''Not Found'' ''trust_anchor_not_found''
      | TLS_TRUST_STORE_STATUS_FULL \<Rightarrow> apiService_Error 409 ''Conflict'' ''trust_anchor_limit_reached''
      | _ \<Rightarrow> apiService_Error 500 ''Internal Server Error'' ''storage_error'')"

definition apiService_Tokens :: "AuthService_TokenPairTypeDef \<Rightarrow> api_reply" where
  "apiService_Tokens tokens =
     apiService_Respond 200 ''OK'' (into 384
       (''{\"token_type\":\"Bearer\",\"access_token\":\"'' @ c_str (t_accessToken tokens) @
        ''\",\"expires_in\":'' @ decimal (unat (t_accessExpiresIn tokens)) @
        '',\"refresh_token\":\"'' @ c_str (t_refreshToken tokens) @
        ''\",\"refresh_expires_in\":'' @ decimal (unat (t_refreshExpiresIn tokens)) @ ''}''))"

text \<open>A list of pieces formatted one after the other into a buffer; \<open>None\<close> when one does not fit
  completely.\<close>

fun append_pieces :: "nat \<Rightarrow> string \<Rightarrow> string list \<Rightarrow> string option" where
  "append_pieces capacity json [] = Some json"
| "append_pieces capacity json (p # ps) =
     (if p = [] \<or> length p \<ge> capacity - length json then None else append_pieces capacity (json @ p) ps)"

definition close_list :: "nat \<Rightarrow> string \<Rightarrow> string" where
  "close_list capacity json = json @ into (capacity - length json) '']}''"

definition JSON_LIST_SIZE :: nat where
  "JSON_LIST_SIZE = API_SERVICE_RESPONSE_SIZE - 192"

text \<open>The reply for a list: the pieces with a closing bracket, or the error.\<close>

definition reply_list :: "string \<Rightarrow> string list \<Rightarrow> api_reply" where
  "reply_list start pieces =
     (case append_pieces JSON_LIST_SIZE start pieces of
        None \<Rightarrow> apiService_Error 500 ''Internal Server Error'' ''response_too_large''
      | Some json \<Rightarrow> apiService_Respond 200 ''OK'' (close_list JSON_LIST_SIZE json))"

subsection \<open>Facts\<close>

lemma WriteAll_complete:
  assumes "\<And>k n. 0 < n \<Longrightarrow> 0 < wr k n"
  shows "fst (apiService_WriteAll wr call n) = 0"
  using assms
proof (induction wr call n rule: apiService_WriteAll.induct)
  case (1 wr call remaining)
  show ?case
  proof (cases "remaining = 0")
    case False
    then have "\<not> wr call remaining \<le> 0"
      using 1(2)[of remaining call] by simp
    then show ?thesis
      using 1 False by (subst apiService_WriteAll.simps) (simp add: Let_def)
  qed (simp add: apiService_WriteAll.simps)
qed

end
