(* ===== verification/Network_Service.thy ===== *)
theory Network_Service
  imports Telemetry_Service
begin

text \<open>
  \<open>Srv/Src/network_service.c\<close> and \<open>NetworkInterface_UpdateLink\<close> of
  \<open>Core/Src/network_interface.c\<close>: DHCP with a static fallback, and whether the network is ready.  The
  state is the file's variables with the flags and addresses of the lwIP interface.  What one call of the
  core functions meets is the record \<open>network_input\<close>: the link as the MAC reports it (\<open>None\<close> is an
  error), whether the DHCP client holds an address, the two clock readings, and the DHCP calls as functions
  on the interface.
\<close>

subsection \<open>Definitions\<close>

datatype NetworkConfiguration_TypeDef =
    NETWORK_CONFIGURATION_NONE
  | NETWORK_CONFIGURATION_DHCP
  | NETWORK_CONFIGURATION_FALLBACK

record netif =
  nf_link_up :: bool
  nf_up :: bool
  nf_address :: u32
  nf_netmask :: u32
  nf_gateway :: u32
  nf_dns :: u32

record NetworkService_State =
  networkInterface :: netif
  networkInitOk :: bool
  networkReady :: u8
  linkPollAt :: u32
  dhcpStartedAt :: u32
  activeConfiguration :: NetworkConfiguration_TypeDef

record network_input =
  in_added :: bool
  in_link :: "bool option"
  in_supplied :: bool
  in_link_now :: u32
  in_now :: u32
  in_dhcp_start :: "netif \<Rightarrow> bool \<times> netif"
  in_dhcp_stop :: "netif \<Rightarrow> netif"

definition NETWORK_DHCP_TIMEOUT_MS :: u32 where
  "NETWORK_DHCP_TIMEOUT_MS = 10000"

definition NETWORK_LINK_POLL_PERIOD_MS :: u32 where
  "NETWORK_LINK_POLL_PERIOD_MS = 100"

text \<open>An address from its four bytes, the first one first.\<close>

definition ip4 :: "u32 \<Rightarrow> u32 \<Rightarrow> u32 \<Rightarrow> u32 \<Rightarrow> u32" where
  "ip4 a b c d = ((a * 256 + b) * 256 + c) * 256 + d"

definition netif_set_addr :: "u32 \<Rightarrow> u32 \<Rightarrow> u32 \<Rightarrow> netif \<Rightarrow> netif" where
  "netif_set_addr address netmask gateway n = n\<lparr>nf_address := address, nf_netmask := netmask, nf_gateway := gateway\<rparr>"

definition NetworkService_IsReady :: "NetworkService_State \<Rightarrow> u8" where
  "NetworkService_IsReady st = networkReady st"

definition networkService_Report :: "NetworkService_State \<Rightarrow> NetworkService_State" where
  "networkService_Report st = st\<lparr>networkReady := (if nf_link_up (networkInterface st) then 1 else 0)\<rparr>"

definition networkService_ApplyFallback :: "network_input \<Rightarrow> NetworkService_State \<Rightarrow> NetworkService_State" where
  "networkService_ApplyFallback inp st =
     (let n = (if nf_link_up (networkInterface st) then networkInterface st else in_dhcp_stop inp (networkInterface st));
          n = netif_set_addr (ip4 192 168 0 50) (ip4 255 255 255 0) (ip4 192 168 0 1) n;
          n = n\<lparr>nf_dns := ip4 8 8 8 8\<rparr>
      in networkService_Report (st\<lparr>networkInterface := n, activeConfiguration := NETWORK_CONFIGURATION_FALLBACK\<rparr>))"

definition networkService_StartDhcp :: "network_input \<Rightarrow> NetworkService_State \<Rightarrow> NetworkService_State" where
  "networkService_StartDhcp inp st =
     (let n = (netif_set_addr 0 0 0 (networkInterface st))\<lparr>nf_dns := 0\<rparr>;
          (started, n1) = in_dhcp_start inp n;
          st1 = st\<lparr>networkInterface := n1, dhcpStartedAt := in_link_now inp,
                   activeConfiguration := NETWORK_CONFIGURATION_NONE, networkReady := 0\<rparr>
      in if \<not> started then networkService_ApplyFallback inp st1 else st1)"

definition networkService_LinkChanged :: "network_input \<Rightarrow> NetworkService_State \<Rightarrow> NetworkService_State" where
  "networkService_LinkChanged inp st =
     (if nf_link_up (networkInterface st)
      then networkService_StartDhcp inp (st\<lparr>networkInterface := (networkInterface st)\<lparr>nf_up := True\<rparr>\<rparr>)
      else st\<lparr>networkInterface := (in_dhcp_stop inp (networkInterface st))\<lparr>nf_up := False\<rparr>,
              dhcpStartedAt := in_link_now inp, activeConfiguration := NETWORK_CONFIGURATION_NONE, networkReady := 0\<rparr>)"

text \<open>\<open>netif_set_link_up\<close> and \<open>netif_set_link_down\<close> change the flag and call the link callback.\<close>

definition NetworkInterface_UpdateLink :: "network_input \<Rightarrow> NetworkService_State \<Rightarrow> bool \<times> NetworkService_State" where
  "NetworkInterface_UpdateLink inp st =
     (case in_link inp of
        None \<Rightarrow> (False, st)
      | Some linkUp \<Rightarrow>
          (True,
           if linkUp = nf_link_up (networkInterface st) then st
           else networkService_LinkChanged inp (st\<lparr>networkInterface := (networkInterface st)\<lparr>nf_link_up := linkUp\<rparr>\<rparr>)))"

definition networkService_CoreInit :: "network_input \<Rightarrow> NetworkService_State \<Rightarrow> NetworkService_State" where
  "networkService_CoreInit inp st =
     (if \<not> in_added inp then st\<lparr>networkInitOk := False\<rparr>
      else
        let st1 = st\<lparr>networkInterface := \<lparr>nf_link_up = False, nf_up = False, nf_address = 0, nf_netmask = 0, nf_gateway = 0,
                       nf_dns = nf_dns (networkInterface st)\<rparr>,
                     networkReady := 0, activeConfiguration := NETWORK_CONFIGURATION_NONE, dhcpStartedAt := in_now inp\<rparr>;
            (ok, st2) = NetworkInterface_UpdateLink inp st1 in
        if \<not> ok then st2\<lparr>networkInitOk := False\<rparr>
        else
          (if nf_link_up (networkInterface st2) then st2
           else st2\<lparr>networkInterface := (networkInterface st2)\<lparr>nf_up := False\<rparr>\<rparr>)\<lparr>networkInitOk := True\<rparr>)"

definition networkService_CoreProcess :: "network_input \<Rightarrow> NetworkService_State \<Rightarrow> NetworkService_State" where
  "networkService_CoreProcess inp st =
     (let (ok, st1) = NetworkInterface_UpdateLink inp st in
      if \<not> ok \<or> \<not> nf_link_up (networkInterface st1) then st1
      else if in_supplied inp then
        if activeConfiguration st1 \<noteq> NETWORK_CONFIGURATION_DHCP
        then networkService_Report (st1\<lparr>activeConfiguration := NETWORK_CONFIGURATION_DHCP\<rparr>)
        else st1
      else if activeConfiguration st1 = NETWORK_CONFIGURATION_NONE \<and> in_now inp - dhcpStartedAt st1 \<ge> NETWORK_DHCP_TIMEOUT_MS
      then networkService_ApplyFallback inp st1
      else st1)"

text \<open>One round of the task's loop: the core function runs every 100 ms.  \<open>posted\<close> says whether
  the stack accepted the callback.\<close>

definition networkService_Task_round :: "u32 \<Rightarrow> bool \<Rightarrow> network_input \<Rightarrow> NetworkService_State \<Rightarrow> NetworkService_State" where
  "networkService_Task_round now posted inp st =
     (if now - linkPollAt st \<ge> NETWORK_LINK_POLL_PERIOD_MS
      then let st1 = st\<lparr>linkPollAt := now\<rparr> in if posted then networkService_CoreProcess inp st1 else st1
      else st)"

text \<open>The task's variables in the order of its life.  The DHCP calls leave the link flag alone.\<close>

definition documented_dhcp :: "network_input \<Rightarrow> bool" where
  "documented_dhcp inp \<longleftrightarrow>
     (\<forall>n. nf_link_up (snd (in_dhcp_start inp n)) = nf_link_up n \<and> nf_link_up (in_dhcp_stop inp n) = nf_link_up n)"

inductive network_reach :: "NetworkService_State \<Rightarrow> bool" where
  init: "documented_dhcp inp \<Longrightarrow> in_added inp \<Longrightarrow> network_reach (networkService_CoreInit inp st)"
| round: "network_reach st \<Longrightarrow> documented_dhcp inp \<Longrightarrow> network_reach (networkService_Task_round now posted inp st)"

text \<open>The ready flag is set exactly when a configuration is active, and only with the link up.\<close>

definition network_inv :: "NetworkService_State \<Rightarrow> bool" where
  "network_inv st \<longleftrightarrow> (networkReady st \<noteq> 0 \<longleftrightarrow> activeConfiguration st \<noteq> NETWORK_CONFIGURATION_NONE) \<and>
     (networkReady st \<noteq> 0 \<longrightarrow> nf_link_up (networkInterface st))"

subsection \<open>The flag\<close>

lemma Fallback_inv:
  "documented_dhcp inp \<Longrightarrow> nf_link_up (networkInterface st) \<Longrightarrow> network_inv (networkService_ApplyFallback inp st)"
  by (simp add: networkService_ApplyFallback_def networkService_Report_def netif_set_addr_def network_inv_def Let_def)

lemma StartDhcp_inv:
  assumes "documented_dhcp inp" "nf_link_up (networkInterface st)"
  shows "network_inv (networkService_StartDhcp inp st)"
proof -
  let ?n = "(netif_set_addr 0 0 0 (networkInterface st))\<lparr>nf_dns := 0\<rparr>"
  obtain started n1 where d: "in_dhcp_start inp ?n = (started, n1)"
    by fastforce
  have "nf_link_up n1 = nf_link_up ?n"
    using assms(1) d unfolding documented_dhcp_def by (metis snd_conv)
  then have "nf_link_up n1"
    using assms(2) by (simp add: netif_set_addr_def)
  then show ?thesis
    using d Fallback_inv[OF assms(1)] by (simp add: networkService_StartDhcp_def network_inv_def Let_def)
qed

lemma LinkChanged_inv: "documented_dhcp inp \<Longrightarrow> network_inv (networkService_LinkChanged inp st)"
  by (simp add: networkService_LinkChanged_def StartDhcp_inv) (simp add: network_inv_def)

lemma UpdateLink_inv:
  "documented_dhcp inp \<Longrightarrow> network_inv st \<Longrightarrow> network_inv (snd (NetworkInterface_UpdateLink inp st))"
  by (simp add: NetworkInterface_UpdateLink_def LinkChanged_inv split: option.split)

lemma CoreProcess_inv:
  assumes "documented_dhcp inp" "network_inv st"
  shows "network_inv (networkService_CoreProcess inp st)"
proof -
  obtain ok st1 where u: "NetworkInterface_UpdateLink inp st = (ok, st1)"
    by fastforce
  then have "network_inv st1"
    using UpdateLink_inv[OF assms] by simp
  then show ?thesis
    using u Fallback_inv[OF assms(1), of st1]
    by (auto simp: networkService_CoreProcess_def networkService_Report_def network_inv_def)
qed

lemma reach_inv: "network_reach st \<Longrightarrow> network_inv st"
proof (induction rule: network_reach.induct)
  case (init inp st)
  let ?st1 = "st\<lparr>networkInterface := \<lparr>nf_link_up = False, nf_up = False, nf_address = 0, nf_netmask = 0, nf_gateway = 0,
      nf_dns = nf_dns (networkInterface st)\<rparr>, networkReady := 0, activeConfiguration := NETWORK_CONFIGURATION_NONE,
      dhcpStartedAt := in_now inp\<rparr>"
  obtain ok st2 where u: "NetworkInterface_UpdateLink inp ?st1 = (ok, st2)"
    by fastforce
  have "network_inv ?st1"
    by (simp add: network_inv_def)
  then have "network_inv st2"
    using UpdateLink_inv[OF init(1)] u by (metis snd_conv)
  then show ?case
    using u init(2) by (auto simp: networkService_CoreInit_def network_inv_def)
next
  case (round st inp now posted)
  then show ?case
    using CoreProcess_inv[of inp "st\<lparr>linkPollAt := now\<rparr>"]
    by (simp add: networkService_Task_round_def network_inv_def Let_def)
qed

text \<open>C0: In every reachable state the network is reported ready exactly when a configuration is
  active, and never without a link.\<close>

theorem network_ready_exact:
  assumes "network_reach st"
  shows "(NetworkService_IsReady st \<noteq> 0 \<longleftrightarrow> activeConfiguration st \<noteq> NETWORK_CONFIGURATION_NONE) \<and>
    (NetworkService_IsReady st \<noteq> 0 \<longrightarrow> nf_link_up (networkInterface st))"
  using reach_inv[OF assms] by (simp add: network_inv_def NetworkService_IsReady_def)

subsection \<open>Becoming ready\<close>

text \<open>With the link up, a round without a lease keeps the time DHCP was started until the
  network is ready.\<close>

lemma CoreProcess_up:
  assumes "documented_dhcp inp" "network_inv st" "in_link inp = Some True" "nf_link_up (networkInterface st)"
  shows "nf_link_up (networkInterface (networkService_CoreProcess inp st))"
    and "networkReady st \<noteq> 0 \<Longrightarrow> networkReady (networkService_CoreProcess inp st) \<noteq> 0"
    and "networkReady (networkService_CoreProcess inp st) = 0 \<Longrightarrow> dhcpStartedAt (networkService_CoreProcess inp st) = dhcpStartedAt st"
    and "in_now inp - dhcpStartedAt st \<ge> NETWORK_DHCP_TIMEOUT_MS \<Longrightarrow> networkReady (networkService_CoreProcess inp st) \<noteq> 0"
  using assms
  by (auto simp: networkService_CoreProcess_def NetworkInterface_UpdateLink_def networkService_Report_def
      networkService_ApplyFallback_def netif_set_addr_def network_inv_def Let_def)

lemma run_up:
  assumes "\<forall>inp \<in> set inputs. documented_dhcp inp \<and> in_link inp = Some True" "network_inv st" "nf_link_up (networkInterface st)"
    and "networkReady st \<noteq> 0 \<or> (\<exists>inp \<in> set inputs. in_now inp - dhcpStartedAt st \<ge> NETWORK_DHCP_TIMEOUT_MS)"
  shows "networkReady (fold networkService_CoreProcess inputs st) \<noteq> 0"
  using assms
proof (induction inputs arbitrary: st)
  case (Cons inp inputs)
  have inp: "documented_dhcp inp" "in_link inp = Some True"
    using Cons.prems(1) by simp_all
  note up = CoreProcess_up[OF inp(1) Cons.prems(2) inp(2) Cons.prems(3)]
  let ?st1 = "networkService_CoreProcess inp st"
  have "networkReady ?st1 \<noteq> 0 \<or> (\<exists>inp \<in> set inputs. in_now inp - dhcpStartedAt ?st1 \<ge> NETWORK_DHCP_TIMEOUT_MS)"
    using Cons.prems(4) up(2-4) by auto
  then show ?case
    using Cons.IH[of ?st1] Cons.prems(1) CoreProcess_inv[OF inp(1) Cons.prems(2)] up(1) by simp
qed simp

text \<open>C0: While the link stays up, the network becomes ready at the latest with the first poll ten
  seconds after DHCP was started, whatever the DHCP client does, and stays ready.\<close>

theorem network_becomes_ready:
  assumes "network_reach st" "nf_link_up (networkInterface st)"
    and "\<forall>inp \<in> set inputs. documented_dhcp inp \<and> in_link inp = Some True"
    and "\<exists>inp \<in> set inputs. in_now inp - dhcpStartedAt st \<ge> NETWORK_DHCP_TIMEOUT_MS"
  shows "NetworkService_IsReady (fold networkService_CoreProcess inputs st) \<noteq> 0"
  using run_up[OF assms(3) reach_inv[OF assms(1)] assms(2)] assms(4) by (simp add: NetworkService_IsReady_def)

subsection \<open>A board without a DHCP server\<close>

definition silent_input :: "u32 \<Rightarrow> network_input" where
  "silent_input t = \<lparr>in_added = True, in_link = Some True, in_supplied = False, in_link_now = t, in_now = t,
     in_dhcp_start = (\<lambda>n. (True, n)), in_dhcp_stop = (\<lambda>n. n)\<rparr>"

definition off_state :: NetworkService_State where
  "off_state = \<lparr>networkInterface = \<lparr>nf_link_up = False, nf_up = False, nf_address = 0, nf_netmask = 0, nf_gateway = 0, nf_dns = 0\<rparr>,
     networkInitOk = False, networkReady = 0, linkPollAt = 0, dhcpStartedAt = 0, activeConfiguration = NETWORK_CONFIGURATION_NONE\<rparr>"

lemma silent_documented: "documented_dhcp (silent_input t)"
  by (simp add: documented_dhcp_def silent_input_def)

lemma silent_reach: "network_reach (networkService_CoreInit (silent_input 0) off_state)"
  by (rule network_reach.init[OF silent_documented]) (simp add: silent_input_def)

lemma silent_init:
  "nf_link_up (networkInterface (networkService_CoreInit (silent_input 0) off_state))"
  "dhcpStartedAt (networkService_CoreInit (silent_input 0) off_state) = 0"
  "networkReady (networkService_CoreInit (silent_input 0) off_state) = 0"
  by (simp_all add: networkService_CoreInit_def silent_input_def off_state_def NetworkInterface_UpdateLink_def
      networkService_LinkChanged_def networkService_StartDhcp_def netif_set_addr_def Let_def)

theorem network_becomes_ready_witness:
  "NetworkService_IsReady (networkService_CoreInit (silent_input 0) off_state) = 0 \<and>
   NetworkService_IsReady (fold networkService_CoreProcess [silent_input 5000, silent_input 10000]
     (networkService_CoreInit (silent_input 0) off_state)) \<noteq> 0"
proof -
  have "\<exists>inp \<in> set [silent_input 5000, silent_input 10000].
      in_now inp - dhcpStartedAt (networkService_CoreInit (silent_input 0) off_state) \<ge> NETWORK_DHCP_TIMEOUT_MS"
    unfolding silent_init(2) by (simp add: silent_input_def NETWORK_DHCP_TIMEOUT_MS_def)
  moreover have "\<forall>inp \<in> set [silent_input 5000, silent_input 10000]. documented_dhcp inp \<and> in_link inp = Some True"
    using silent_documented by (simp add: silent_input_def[of 5000] silent_input_def[of 10000] documented_dhcp_def)
  ultimately show ?thesis
    using network_becomes_ready[OF silent_reach silent_init(1)] silent_init(3)
    unfolding NetworkService_IsReady_def by blast
qed

theorem network_ready_exact_witness:
  "NetworkService_IsReady (networkService_CoreInit (silent_input 0) off_state) \<noteq> 0 \<longleftrightarrow>
   activeConfiguration (networkService_CoreInit (silent_input 0) off_state) \<noteq> NETWORK_CONFIGURATION_NONE"
  using network_ready_exact[OF silent_reach] by blast

end
