(* ===== verification/Api_Service.thy ===== *)
theory Api_Service
  imports Api_Request Api_Reply Health_Check_Service Telemetry_Service Network_Service
begin

text \<open>
  The management interface, \<open>apiService_Dispatch\<close>, \<open>apiService_Task\<close> and
  \<open>ApiService_Init\<close> of \<open>Srv/Src/api_service.c\<close>.  The state is the device the health checks
  run on, extended with the sessions and accounts, the registered tasks and the network.  Each branch of the
  dispatcher is one definition here, named after its route; it takes the request, the
  actor where the branch needs one, the state and the environment, and gives the reply with the new state.
  What lies outside is the record \<open>api_context\<close>: the cryptographic library, the build's version texts,
  the kernel's stack marks, and the content of an array on the stack before it is filled.
\<close>

subsection \<open>State and context\<close>

record managed = device +
  dv_auth :: AuthService_State
  dv_telemetry :: TelemetryService_State
  dv_network :: NetworkService_State

record api_context =
  ac_crypto :: auth_crypto
  ac_ca :: mbedtls_ca
  ac_pk :: mbedtls_pk
  ac_version :: string
  ac_build :: string
  ac_highWater :: "nat \<Rightarrow> u32"
  ac_stack :: "HealthCheckConfig_ResourceTypeDef list"

type_synonym handled = "api_reply \<times> managed \<times> env"

definition is_call :: "ApiService_RequestTypeDef \<Rightarrow> string \<Rightarrow> string \<Rightarrow> bool" where
  "is_call request verb path \<longleftrightarrow> c_str (rq_method request) = verb \<and> c_str (rq_path request) = path"

definition is_call_below :: "ApiService_RequestTypeDef \<Rightarrow> string \<Rightarrow> string \<Rightarrow> bool" where
  "is_call_below request verb path \<longleftrightarrow> c_str (rq_method request) = verb \<and> strncmp_eq (c_str (rq_path request)) path"

abbreviation json_of :: "ApiService_RequestTypeDef \<Rightarrow> string" where
  "json_of request \<equiv> c_str (rq_body request)"

abbreviation body_of :: "ApiService_RequestTypeDef \<Rightarrow> u8 list" where
  "body_of request \<equiv> put_chars (rq_body request)"

definition administrator :: "AuthService_PrincipalTypeDef \<Rightarrow> bool" where
  "administrator actor \<longleftrightarrow> p_role actor = role_code USER_ROLE_ADMINISTRATOR"

definition forbidden :: api_reply where
  "forbidden = apiService_Error 403 ''Forbidden'' ''forbidden''"

abbreviation bad_request :: "string \<Rightarrow> api_reply" where
  "bad_request code \<equiv> apiService_Error 400 ''Bad Request'' code"

abbreviation unauthorized :: "string \<Rightarrow> api_reply" where
  "unauthorized code \<equiv> apiService_Error 401 ''Unauthorized'' code"

abbreviation not_found :: "string \<Rightarrow> api_reply" where
  "not_found code \<equiv> apiService_Error 404 ''Not Found'' code"

abbreviation internal_error :: "string \<Rightarrow> api_reply" where
  "internal_error code \<equiv> apiService_Error 500 ''Internal Server Error'' code"

abbreviation ok_json :: "string \<Rightarrow> api_reply" where
  "ok_json json \<equiv> apiService_Respond 200 ''OK'' json"

subsection \<open>Public routes\<close>

definition get_health :: "api_context \<Rightarrow> ApiService_RequestTypeDef \<Rightarrow> managed \<Rightarrow> env \<Rightarrow> handled" where
  "get_health cx request dv env =
     (let networkHealthy = (NetworkService_IsReady (dv_network dv) \<noteq> 0);
          timeHealthy = (TimeService_IsSynchronized (dv_time dv) \<noteq> 0);
          (flashHealthy, env1) = W25Q64_IsAvailable env;
          fine = (networkHealthy \<and> timeHealthy \<and> flashHealthy);
          uptimeSeconds = TimeService_GetUptimeMs env1 div 1000;
          json = into 256
            (''{\"status\":\"'' @ (if fine then ''ok'' else ''failed'') @ ''\",\"version\":\"'' @ ac_version cx @
             ''\",\"build_date\":\"'' @ ac_build cx @ ''\",\"uptime\":'' @ decimal (unat uptimeSeconds) @
             '',\"systems\":{\"api\":true,\"network\":'' @ truth networkHealthy @ '',\"time\":'' @ truth timeHealthy @
             '',\"flash\":'' @ truth flashHealthy @ ''}}'');
          status = (if fine then 200 else 503);
          reason = (if fine then ''OK'' else ''Service Unavailable'')
      in (if c_str (rq_method request) = ''HEAD'' then apiService_RespondHeadersOnly status reason json
          else apiService_Respond status reason json, dv, env1))"

definition post_token :: "api_context \<Rightarrow> ApiService_RequestTypeDef \<Rightarrow> managed \<Rightarrow> env \<Rightarrow> handled" where
  "post_token cx request dv env =
     (let (hasName, username) = apiService_JsonString (json_of request) ''username'' (memset_chars 25);
          (hasPassword, password) = apiService_JsonString (json_of request) ''password'' (memset_chars 129) in
      if \<not> hasName \<or> \<not> hasPassword then (bad_request ''invalid_request'', dv, env)
      else
        let (status, tokens, auth, env1) =
              AuthService_Login (ac_crypto cx) (dv_platform dv) (Some username) (Some (put_chars (c_str password)))
                zero_tokens (dv_auth dv) env;
            dv1 = dv\<lparr>dv_auth := auth\<rparr>
        in (if status \<noteq> AUTH_SERVICE_STATUS_OK then unauthorized ''invalid_credentials'' else apiService_Tokens tokens, dv1, env1))"

definition post_refresh :: "api_context \<Rightarrow> ApiService_RequestTypeDef \<Rightarrow> managed \<Rightarrow> env \<Rightarrow> handled" where
  "post_refresh cx request dv env =
     (let (hasToken, refresh) = apiService_JsonString (json_of request) ''refresh_token'' (memset_chars 65) in
      if \<not> hasToken then (bad_request ''invalid_request'', dv, env)
      else
        let (status, tokens, auth, env1) =
              AuthService_Refresh (ac_crypto cx) (dv_platform dv) (Some refresh) zero_tokens (dv_auth dv) env;
            dv1 = dv\<lparr>dv_auth := auth\<rparr>
        in (if status \<noteq> AUTH_SERVICE_STATUS_OK then unauthorized ''invalid_refresh_token'' else apiService_Tokens tokens, dv1, env1))"

definition apiService_Authorize ::
  "api_context \<Rightarrow> ApiService_RequestTypeDef \<Rightarrow> managed \<Rightarrow> env \<Rightarrow> AuthService_PrincipalTypeDef option \<times> env" where
  "apiService_Authorize cx request dv env =
     (let (status, actor, env1) = AuthService_Authorize (ac_crypto cx) (Some (rq_authorization request)) (dv_auth dv) env
      in (if status = AUTH_SERVICE_STATUS_OK then actor else None, env1))"

subsection \<open>Routes of every user\<close>

definition post_revoke :: "api_context \<Rightarrow> ApiService_RequestTypeDef \<Rightarrow> managed \<Rightarrow> env \<Rightarrow> handled" where
  "post_revoke cx request dv env =
     (let (status, auth, env1) = AuthService_Revoke (ac_crypto cx) (Some (rq_authorization request)) (dv_auth dv) env;
          dv1 = dv\<lparr>dv_auth := auth\<rparr>
      in (if status \<noteq> AUTH_SERVICE_STATUS_OK then unauthorized ''invalid_access_token'' else ok_json ''{\"revoked\":true}'', dv1, env1))"

definition get_rtc :: "managed \<Rightarrow> env \<Rightarrow> handled" where
  "get_rtc dv env =
     (let (status, unixTime) = TimeService_GetUnixTime 0 (dv_time dv) env in
      (if status \<noteq> HEALTH_CHECK_STATUS_OK then apiService_Respond 503 ''Service Unavailable'' ''{\"synchronized\":false}''
       else ok_json (into 128 (''{\"synchronized\":true,\"unix_time\":'' @ decimal (unat unixTime) @
              '',\"utc\":\"'' @ gmtime_text unixTime @ ''\"}'')), dv, env))"

definition stack_field :: "string \<Rightarrow> u32 \<Rightarrow> string" where
  "stack_field task bytes = ''\"'' @ task @ ''\":{\"stack_min_free_bytes\":'' @ decimal (unat bytes) @ ''}''"

definition get_telemetry :: "api_context \<Rightarrow> managed \<Rightarrow> env \<Rightarrow> handled" where
  "get_telemetry cx dv env =
     (let telemetry = TelemetryService_GetSnapshot (ac_highWater cx) (dv_telemetry dv) env;
          stack = (\<lambda>task. tl_stackMinFreeBytes telemetry ! task);
          callback = CallbackService_GetTelemetry (dv_callback dv);
          json = ''{\"uptime_ms\":'' @ decimal (unat (tl_uptimeMs telemetry)) @ '',\"dynamic_allocation\":false,\"tasks\":{'' @
            stack_field ''heartbeat'' (stack 0) @ '','' @ stack_field ''watchdog'' (stack 1) @ '','' @
            stack_field ''factory_reset'' (stack 2) @ '','' @ stack_field ''network'' (stack 3) @ '','' @
            stack_field ''time'' (stack 4) @ '','' @ stack_field ''buzzer'' (stack 5) @ '','' @
            stack_field ''health_check'' (stack 6) @ '','' @ stack_field ''callback'' (stack 7) @ '','' @
            stack_field ''api'' (stack 8) @ ''},\"callback\":{\"queue_depth\":'' @ decimal (unat (ct_queueDepth callback)) @
            '',\"dropped_count\":'' @ decimal (unat (ct_droppedCount callback)) @
            '',\"delivery_success_count\":'' @ decimal (unat (ct_deliverySuccessCount callback)) @
            '',\"delivery_failure_count\":'' @ decimal (unat (ct_deliveryFailureCount callback)) @
            '',\"last_transport_status\":'' @ decimal (unat (ct_lastTransportStatus callback)) @
            '',\"last_http_status\":'' @ decimal (unat (ct_lastHttpStatus callback)) @
            '',\"last_elapsed_ms\":'' @ decimal (unat (ct_lastElapsedMs callback)) @
            '',\"last_detail\":'' @ decimal_int (sint (ct_lastDetail callback)) @ ''}}''
      in (if length json \<ge> 1024 then internal_error ''response_too_large'' else ok_json json, dv, env))"

definition get_logs :: "managed \<Rightarrow> env \<Rightarrow> handled" where
  "get_logs dv env =
     (let (entries, env1) = HealthCheckLog_GetRecent 50 (dv_log dv) env in (apiService_RespondLogs entries, dv, env1))"

fun anchor_pieces :: "string \<Rightarrow> bool \<Rightarrow> TlsTrustStore_InfoTypeDef list \<Rightarrow> string option" where
  "anchor_pieces json first [] = Some json"
| "anchor_pieces json first (a # anchors) =
     (case append_pieces JSON_LIST_SIZE json
            [(if first then '''' else '','') @ ''{\"id\":'' @ decimal (unat (info_id a)) @
             '',\"der_length\":'' @ decimal (unat (info_derLength a)) @ '',\"subject\":\"''] of
        None \<Rightarrow> None
      | Some json1 \<Rightarrow>
          (case apiService_AppendJsonString JSON_LIST_SIZE json1 (c_str (info_subject a)) of
             None \<Rightarrow> None
           | Some json2 \<Rightarrow>
               (case append_pieces JSON_LIST_SIZE json2 [''\"}''] of
                  None \<Rightarrow> None
                | Some json3 \<Rightarrow> anchor_pieces json3 False anchors)))"

definition get_anchors :: "managed \<Rightarrow> env \<Rightarrow> handled" where
  "get_anchors dv env =
     (let (anchors, env1) = TlsTrustStore_List 6 (dv_trust dv) env in
      (case anchor_pieces ''{\"trust_anchors\":['' True anchors of
         None \<Rightarrow> internal_error ''response_too_large''
       | Some json \<Rightarrow> ok_json (close_list JSON_LIST_SIZE json), dv, env1))"

definition get_callback_config :: "managed \<Rightarrow> env \<Rightarrow> handled" where
  "get_callback_config dv env =
     (let (config, env1) = CallbackConfig_Get (dv_callback_config dv) env in
      (ok_json (into 320
         (''{\"enabled\":'' @ truth (cb_enabled config \<noteq> 0) @
          '',\"method\":\"'' @ (if cb_method config = CALLBACK_METHOD_POST then ''POST'' else ''GET'') @
          ''\",\"host\":\"'' @ c_str (cb_host config) @ ''\",\"port\":'' @ decimal (unat (cb_port config)) @
          '',\"path\":\"'' @ c_str (cb_path config) @ ''\",\"trust_anchor_id\":'' @ decimal (unat (cb_trustAnchorId config)) @ ''}'')),
       dv, env1))"

text \<open>The members of a resource, as three replies print them.\<close>

definition resource_text :: "nat \<Rightarrow> string \<Rightarrow> nat \<Rightarrow> string \<Rightarrow> bool \<Rightarrow> nat \<Rightarrow> string" where
  "resource_text index host port path enabled anchor =
     ''{\"index\":'' @ decimal index @ '',\"host\":\"'' @ host @ ''\",\"port\":'' @ decimal port @ '',\"path\":\"'' @ path @
     ''\",\"enabled\":'' @ truth enabled @ '',\"trust_anchor_id\":'' @ decimal anchor @ ''}''"

fun resource_pieces :: "nat \<Rightarrow> bool \<Rightarrow> HealthCheckConfig_ResourceTypeDef list \<Rightarrow> string list" where
  "resource_pieces index first [] = []"
| "resource_pieces index first (r # rs) =
     (if r_occupied r = 0 then resource_pieces (index + 1) first rs
      else ((if first then '''' else '','') @ resource_text index (c_str (r_host r)) (unat (r_port r)) (c_str (r_path r))
              (r_enabled r \<noteq> 0) (unat (r_trustAnchorId r))) # resource_pieces (index + 1) False rs)"

definition get_config :: "api_context \<Rightarrow> managed \<Rightarrow> env \<Rightarrow> handled" where
  "get_config cx dv env =
     (let (resources, env1) = HealthCheckConfig_GetResources (ac_stack cx) (dv_config dv) env;
          (period, env2) = HealthCheckConfig_GetPeriodSeconds (dv_config dv) env1
      in (reply_list (''{\"period_seconds\":'' @ decimal (unat period) @ '',\"resources\":['') (resource_pieces 0 True resources),
          dv, env2))"

subsection \<open>The buzzer\<close>

definition post_buzzer :: "ApiService_RequestTypeDef \<Rightarrow> AuthService_PrincipalTypeDef \<Rightarrow> managed \<Rightarrow> env \<Rightarrow> handled" where
  "post_buzzer request actor dv env =
     (if \<not> administrator actor then (forbidden, dv, env)
      else
        let (found, resourceIndex) = apiService_JsonNumber (json_of request) ''resource_index'' 0 in
        if \<not> found \<or> resourceIndex \<ge> 6 then (bad_request ''invalid_resource_index'', dv, env)
        else
          let resourceId = (ucast resourceIndex :: u8) + 1;
              (queued, buzzer) =
                (if is_call request ''POST'' ''/api/v1/buzzer/health-check-alert''
                 then BuzzerService_HealthCheckAlert resourceId (dv_buzzer dv)
                 else BuzzerService_CertificateWarning resourceId (dv_buzzer dv));
              dv1 = dv\<lparr>dv_buzzer := buzzer\<rparr>
          in (if \<not> queued then apiService_Error 503 ''Service Unavailable'' ''buzzer_busy''
              else apiService_Respond 202 ''Accepted'' (into 80
                (''{\"queued\":true,\"resource_index\":'' @ decimal (unat resourceIndex) @
                 '',\"resource_id\":'' @ decimal (unat resourceId) @ ''}'')), dv1, env))"

subsection \<open>Accounts\<close>

definition user_text :: "UserStore_RecordTypeDef \<Rightarrow> string" where
  "user_text u =
     '',{\"username\":\"'' @ c_str (u_username u) @ ''\",\"role\":\"'' @
     (if u_role u = role_code USER_ROLE_ADMINISTRATOR then ''administrator'' else ''user'') @
     ''\",\"enabled\":'' @ truth (u_enabled u \<noteq> 0) @ ''}''"

definition get_users :: "AuthService_PrincipalTypeDef \<Rightarrow> managed \<Rightarrow> env \<Rightarrow> handled" where
  "get_users actor dv env =
     (if \<not> administrator actor then (forbidden, dv, env)
      else
        let (users, env1) = AuthService_ListUsers (Some actor) 8 (dv_auth dv) env
        in (reply_list ''{\"users\":[{\"username\":\"master\",\"role\":\"administrator\",\"enabled\":true}'' (map user_text users), dv, env1))"

text \<open>The name in a path, cut to the size of the buffer.\<close>

definition path_username :: "ApiService_RequestTypeDef \<Rightarrow> string" where
  "path_username request =
     (strncpy (memset_chars 25) (drop 14 (c_str (rq_path request))) 24)[24 := CHR 0x00]"

text \<open>What \<open>PUT\<close> and \<open>POST\<close> start from: the name, the role's text and the flag, or the error.\<close>

definition user_start ::
  "ApiService_RequestTypeDef \<Rightarrow> bool \<Rightarrow> managed \<Rightarrow> env \<Rightarrow> (api_reply + string \<times> string \<times> u8) \<times> env" where
  "user_start request creating dv env =
     (if creating then
        let (found, username) = apiService_JsonString (json_of request) ''username'' (memset_chars 25)
        in (if \<not> found then Inl (bad_request ''invalid_request'') else Inr (username, strncpy (memset_chars 20) ''user'' 19, 1), env)
      else
        let username = path_username request;
            (status, found, env1) = UserStore_Find (Some username) (au_users (dv_auth dv)) env;
            existing = fst (the found)
        in (if status \<noteq> HEALTH_CHECK_STATUS_OK then Inl (not_found ''user_not_found'')
            else Inr (username,
              (strncpy (memset_chars 20)
                 (if u_role existing = role_code USER_ROLE_ADMINISTRATOR then ''administrator'' else ''user'') 19)[19 := CHR 0x00],
              u_enabled existing), env1))"

definition put_user :: "api_context \<Rightarrow> ApiService_RequestTypeDef \<Rightarrow> AuthService_PrincipalTypeDef \<Rightarrow> managed \<Rightarrow> env \<Rightarrow> handled" where
  "put_user cx request actor dv env =
     (let creating = is_call request ''POST'' ''/api/v1/users''; updating = is_call_below request ''PUT'' ''/api/v1/users/'' in
      if \<not> administrator actor then (forbidden, dv, env)
      else
        let (start, env1) = user_start request creating dv env in
        case start of
          Inl e \<Rightarrow> (e, dv, env1)
        | Inr (username, roleText, enabled) \<Rightarrow>
            let (hasPassword, password) = apiService_JsonString (json_of request) ''password'' (memset_chars 129) in
            if \<not> hasPassword then (bad_request ''password_required'', dv, env1)
            else
              let (_, roleText) = apiService_JsonString (json_of request) ''role'' roleText;
                  (_, enabled) = apiService_JsonBoolean (json_of request) ''enabled'' enabled;
                  role = (if c_str roleText = ''administrator'' then USER_ROLE_ADMINISTRATOR else USER_ROLE_USER);
                  (status, auth, env2) =
                    AuthService_PutUser (ac_crypto cx) (dv_platform dv) (Some actor) (Some username)
                      (Some (put_chars (c_str password))) role (enabled \<noteq> 0) updating (dv_auth dv) env1;
                  dv1 = dv\<lparr>dv_auth := auth\<rparr>
              in (if status = AUTH_SERVICE_STATUS_NOT_FOUND then not_found ''user_not_found''
                  else if status \<noteq> AUTH_SERVICE_STATUS_OK then bad_request ''user_not_saved''
                  else apiService_Respond (if creating then 201 else 200) (if creating then ''Created'' else ''OK'')
                    (into 96 (''{\"username\":\"'' @ c_str username @ ''\"}'')), dv1, env2))"

definition delete_user :: "ApiService_RequestTypeDef \<Rightarrow> AuthService_PrincipalTypeDef \<Rightarrow> managed \<Rightarrow> env \<Rightarrow> handled" where
  "delete_user request actor dv env =
     (if \<not> administrator actor then (forbidden, dv, env)
      else
        let username = path_username request;
            (status, auth, env1) = AuthService_DeleteUser (Some actor) (Some username) (dv_auth dv) env;
            dv1 = dv\<lparr>dv_auth := auth\<rparr>
        in (if status = AUTH_SERVICE_STATUS_NOT_FOUND then not_found ''user_not_found''
            else if status = AUTH_SERVICE_STATUS_FORBIDDEN then forbidden
            else if status \<noteq> AUTH_SERVICE_STATUS_OK then internal_error ''storage_error''
            else ok_json (into 64 (''{\"username\":\"'' @ c_str username @ ''\",\"deleted\":true}'')), dv1, env1))"

subsection \<open>Server credentials\<close>

definition put_certificate :: "api_context \<Rightarrow> ApiService_RequestTypeDef \<Rightarrow> AuthService_PrincipalTypeDef \<Rightarrow> managed \<Rightarrow> env \<Rightarrow> handled" where
  "put_certificate cx request actor dv env =
     (if \<not> administrator actor then (forbidden, dv, env)
      else if rq_body request = [] then (bad_request ''invalid_certificate_body'', dv, env)
      else
        let (status, credentials, env1) =
              TlsServerCredentials_StageCertificate (ac_pk cx) (Some (body_of request)) (dv_credentials dv) env
        in (apiService_TlsCredentialsRespond status ''private_key'' ''invalid_certificate'',
            dv\<lparr>dv_credentials := credentials\<rparr>, env1))"

definition put_private_key :: "api_context \<Rightarrow> ApiService_RequestTypeDef \<Rightarrow> AuthService_PrincipalTypeDef \<Rightarrow> managed \<Rightarrow> env \<Rightarrow> handled" where
  "put_private_key cx request actor dv env =
     (if \<not> administrator actor then (forbidden, dv, env)
      else if rq_body request = [] then (bad_request ''invalid_private_key_body'', dv, env)
      else
        let (status, credentials, env1) =
              TlsServerCredentials_StagePrivateKey (ac_pk cx) (Some (body_of request)) (dv_credentials dv) env
        in (apiService_TlsCredentialsRespond status ''certificate'' ''invalid_private_key'',
            dv\<lparr>dv_credentials := credentials\<rparr>, env1))"

subsection \<open>Trust anchors\<close>

definition post_anchor :: "api_context \<Rightarrow> ApiService_RequestTypeDef \<Rightarrow> AuthService_PrincipalTypeDef \<Rightarrow> managed \<Rightarrow> env \<Rightarrow> handled" where
  "post_anchor cx request actor dv env =
     (if \<not> administrator actor then (forbidden, dv, env)
      else
        let (status, assigned, trust, env1) = TlsTrustStore_Add (ac_ca cx) (Some (body_of request)) (dv_trust dv) env;
            dv1 = dv\<lparr>dv_trust := trust\<rparr>
        in (if status \<noteq> TLS_TRUST_STORE_STATUS_OK then apiService_TrustStoreError status
            else apiService_Respond 201 ''Created''
              (into 48 (''{\"id\":'' @ decimal (case assigned of None \<Rightarrow> 0 | Some i \<Rightarrow> unat i) @ ''}'')), dv1, env1))"

definition anchor_in_use :: "u8 \<Rightarrow> managed \<Rightarrow> env \<Rightarrow> bool \<times> env" where
  "anchor_in_use anchorId dv env =
     (let (checked, env1) = HealthCheckConfig_IsTrustAnchorInUse anchorId (dv_config dv) env in
      if checked then (True, env1) else CallbackConfig_IsTrustAnchorInUse anchorId (dv_callback_config dv) env1)"

fun any_anchor_in_use :: "u8 list \<Rightarrow> managed \<Rightarrow> env \<Rightarrow> bool \<times> env" where
  "any_anchor_in_use [] dv env = (False, env)"
| "any_anchor_in_use (i # is) dv env =
     (let (used, env1) = anchor_in_use i dv env in if used then (True, env1) else any_anchor_in_use is dv env1)"

definition anchor_conflict :: api_reply where
  "anchor_conflict = apiService_Error 409 ''Conflict'' ''trust_anchor_in_use''"

definition delete_anchors :: "AuthService_PrincipalTypeDef \<Rightarrow> managed \<Rightarrow> env \<Rightarrow> handled" where
  "delete_anchors actor dv env =
     (if \<not> administrator actor then (forbidden, dv, env)
      else
        let (used, env1) = any_anchor_in_use [1, 2, 3, 4, 5, 6] dv env in
        if used then (anchor_conflict, dv, env1)
        else
          let (status, trust, env2) = TlsTrustStore_Reset (dv_trust dv) env1; dv1 = dv\<lparr>dv_trust := trust\<rparr>
          in (if status \<noteq> TLS_TRUST_STORE_STATUS_OK then apiService_TrustStoreError status
              else ok_json ''{\"reset\":true}'', dv1, env2))"

definition change_anchor :: "api_context \<Rightarrow> ApiService_RequestTypeDef \<Rightarrow> AuthService_PrincipalTypeDef \<Rightarrow> managed \<Rightarrow> env \<Rightarrow> handled" where
  "change_anchor cx request actor dv env =
     (if \<not> administrator actor then (forbidden, dv, env)
      else
        let idText = drop 22 (c_str (rq_path request)); (idValue, idEnd) = strtol idText in
        if idEnd = idText \<or> idEnd \<noteq> [] \<or> idValue < 1 \<or> idValue > 6 then (not_found ''trust_anchor_not_found'', dv, env)
        else
          let anchorId = (of_int idValue :: u8) in
          if is_call_below request ''DELETE'' ''/api/v1/trust-anchors/'' then
            let (used, env1) = anchor_in_use anchorId dv env in
            if used then (anchor_conflict, dv, env1)
            else
              let (status, trust, env2) = TlsTrustStore_Delete anchorId (dv_trust dv) env1; dv1 = dv\<lparr>dv_trust := trust\<rparr>
              in (if status \<noteq> TLS_TRUST_STORE_STATUS_OK then apiService_TrustStoreError status
                  else ok_json (into 48 (''{\"id\":'' @ decimal (unat anchorId) @ '',\"deleted\":true}'')), dv1, env2)
          else
            let (status, trust, env1) = TlsTrustStore_Replace (ac_ca cx) anchorId (Some (body_of request)) (dv_trust dv) env;
                dv1 = dv\<lparr>dv_trust := trust\<rparr>
            in (if status \<noteq> TLS_TRUST_STORE_STATUS_OK then apiService_TrustStoreError status
                else ok_json (into 48 (''{\"id\":'' @ decimal (unat anchorId) @ '',\"replaced\":true}'')), dv1, env1))"

subsection \<open>The callback's configuration\<close>

text \<open>A member that is present must be readable.\<close>

definition member_ok :: "string \<Rightarrow> string \<Rightarrow> bool \<Rightarrow> bool" where
  "member_ok json key found \<longleftrightarrow> apiService_JsonHasKey json key \<longrightarrow> found"

definition member_value :: "string \<Rightarrow> string \<Rightarrow> bool \<times> 'a \<Rightarrow> 'a \<Rightarrow> 'a" where
  "member_value json key result old = (if apiService_JsonHasKey json key then snd result else old)"

definition put_callback_config :: "ApiService_RequestTypeDef \<Rightarrow> AuthService_PrincipalTypeDef \<Rightarrow> managed \<Rightarrow> env \<Rightarrow> handled" where
  "put_callback_config request actor dv env =
     (if \<not> administrator actor then (forbidden, dv, env)
      else
        let (config, env1) = CallbackConfig_Get (dv_callback_config dv) env;
            json = json_of request;
            verb0 = (strncpy (memset_chars 8) (if cb_method config = CALLBACK_METHOD_POST then ''POST'' else ''GET'') 7)[7 := CHR 0x00];
            enabled = apiService_JsonBoolean json ''enabled'' (cb_enabled config);
            verb = apiService_JsonString json ''method'' verb0;
            host = apiService_JsonString json ''host'' (cb_host config);
            path = apiService_JsonString json ''path'' (cb_path config);
            port = apiService_JsonNumber json ''port'' (ucast (cb_port config));
            anchor = apiService_JsonNumber json ''trust_anchor_id'' (ucast (cb_trustAnchorId config)) in
        if \<not> (member_ok json ''enabled'' (fst enabled) \<and> member_ok json ''method'' (fst verb) \<and> member_ok json ''host'' (fst host) \<and>
              member_ok json ''path'' (fst path) \<and> member_ok json ''port'' (fst port) \<and> member_ok json ''trust_anchor_id'' (fst anchor))
        then (bad_request ''invalid_request'', dv, env1)
        else
          let enabled = member_value json ''enabled'' enabled (cb_enabled config);
              verb = c_str (member_value json ''method'' verb verb0);
              port = member_value json ''port'' port (ucast (cb_port config));
              anchor = member_value json ''trust_anchor_id'' anchor (ucast (cb_trustAnchorId config)) in
          if verb \<noteq> ''GET'' \<and> verb \<noteq> ''POST'' then (bad_request ''invalid_method'', dv, env1)
          else if port = 0 \<or> port > 65535 then (bad_request ''invalid_port'', dv, env1)
          else
            let in_range = (anchor \<ge> 1 \<and> anchor \<le> 6);
                (present, env2) = (if in_range \<and> enabled \<noteq> 0 then TlsTrustStore_Exists (ucast anchor) (dv_trust dv) env1 else (True, env1)) in
            if \<not> in_range \<or> \<not> present then (bad_request ''invalid_trust_anchor'', dv, env2)
            else
              let config = config\<lparr>cb_enabled := enabled,
                    cb_method := (if verb = ''POST'' then CALLBACK_METHOD_POST else CALLBACK_METHOD_GET),
                    cb_port := ucast port, cb_trustAnchorId := ucast anchor,
                    cb_host := member_value json ''host'' host (cb_host config), cb_path := member_value json ''path'' path (cb_path config)\<rparr> in
              if \<not> CallbackConfig_IsValid (Some config) then (bad_request ''invalid_request'', dv, env2)
              else
                let (status, callback, env3) = CallbackConfig_Set (Some config) (dv_callback_config dv) env2
                in (if status \<noteq> HEALTH_CHECK_STATUS_OK then internal_error ''storage_error'' else ok_json ''{\"updated\":true}'',
                    dv\<lparr>dv_callback_config := callback\<rparr>, env3))"

subsection \<open>The resources\<close>

definition put_period :: "ApiService_RequestTypeDef \<Rightarrow> AuthService_PrincipalTypeDef \<Rightarrow> managed \<Rightarrow> env \<Rightarrow> handled" where
  "put_period request actor dv env =
     (if \<not> administrator actor then (forbidden, dv, env)
      else
        let (found, periodValue) = apiService_JsonNumber (json_of request) ''period_seconds'' 0 in
        if \<not> found then (bad_request ''invalid_request'', dv, env)
        else
          let (status, config, env1) = HealthCheckConfig_SetPeriodSeconds periodValue (dv_config dv) env;
              dv1 = dv\<lparr>dv_config := config\<rparr>
          in (if status = HEALTH_CHECK_CONFIG_STATUS_INVALID_ARGUMENT then bad_request ''invalid_period''
              else if status \<noteq> HEALTH_CHECK_CONFIG_STATUS_OK then internal_error ''storage_error''
              else ok_json (into 48 (''{\"period_seconds\":'' @ decimal (unat periodValue) @ ''}'')), dv1, env1))"

text \<open>The checks both writers of a resource make of the port and the anchor: the error, if any.\<close>

definition resource_check :: "u32 \<Rightarrow> u32 \<Rightarrow> managed \<Rightarrow> env \<Rightarrow> api_reply option \<times> env" where
  "resource_check portValue trustAnchorValue dv env =
     (if portValue = 0 \<or> portValue > 65535 then (Some (bad_request ''invalid_port''), env)
      else if trustAnchorValue < 1 \<or> trustAnchorValue > 6 then (Some (bad_request ''invalid_trust_anchor''), env)
      else
        let (present, env1) = TlsTrustStore_Exists (ucast trustAnchorValue) (dv_trust dv) env
        in (if present then None else Some (bad_request ''invalid_trust_anchor''), env1))"

definition post_resource :: "ApiService_RequestTypeDef \<Rightarrow> AuthService_PrincipalTypeDef \<Rightarrow> managed \<Rightarrow> env \<Rightarrow> handled" where
  "post_resource request actor dv env =
     (if \<not> administrator actor then (forbidden, dv, env)
      else
        let json = json_of request;
            (hasHost, host) = apiService_JsonString json ''host'' (memset_chars 64);
            (hasPath, path) = apiService_JsonString json ''path'' (memset_chars 80);
            (hasPort, portValue) = apiService_JsonNumber json ''port'' 0;
            (hasAnchor, trustAnchorValue) = apiService_JsonNumber json ''trust_anchor_id'' 0 in
        if \<not> hasHost \<or> \<not> hasPath \<or> \<not> hasPort \<or> \<not> hasAnchor then (bad_request ''invalid_request'', dv, env)
        else
          let (_, enabled) = apiService_JsonBoolean json ''enabled'' 1;
              (checked, env1) = resource_check portValue trustAnchorValue dv env in
          case checked of
            Some e \<Rightarrow> (e, dv, env1)
          | None \<Rightarrow>
              let (status, assigned, config, env2) =
                    HealthCheckConfig_AddResource (Some host) (ucast portValue) (Some path) (enabled \<noteq> 0)
                      (ucast trustAnchorValue) (dv_config dv) env1;
                  dv1 = dv\<lparr>dv_config := config\<rparr>
              in (if status = HEALTH_CHECK_CONFIG_STATUS_FULL then apiService_Error 409 ''Conflict'' ''resource_limit_reached''
                  else if status \<noteq> HEALTH_CHECK_CONFIG_STATUS_OK then bad_request ''invalid_request''
                  else apiService_Respond 201 ''Created'' (into 256
                    (resource_text (case assigned of None \<Rightarrow> 0 | Some i \<Rightarrow> i) (c_str host) (unat portValue) (c_str path) (enabled \<noteq> 0)
                       (unat trustAnchorValue))), dv1, env2))"

definition delete_resource :: "nat \<Rightarrow> managed \<Rightarrow> env \<Rightarrow> handled" where
  "delete_resource index dv env =
     (let (status, config, env1) = HealthCheckConfig_DeleteResource index (dv_config dv) env; dv1 = dv\<lparr>dv_config := config\<rparr>
      in (if status = HEALTH_CHECK_CONFIG_STATUS_NOT_FOUND then not_found ''resource_not_found''
          else if status \<noteq> HEALTH_CHECK_CONFIG_STATUS_OK then internal_error ''storage_error''
          else ok_json (into 48 (''{\"index\":'' @ decimal index @ '',\"deleted\":true}'')), dv1, env1))"

definition update_resource :: "api_context \<Rightarrow> ApiService_RequestTypeDef \<Rightarrow> nat \<Rightarrow> managed \<Rightarrow> env \<Rightarrow> handled" where
  "update_resource cx request index dv env =
     (let (resources, env1) = HealthCheckConfig_GetResources (ac_stack cx) (dv_config dv) env;
          old = resources ! index; json = json_of request in
      if r_occupied old = 0 then (not_found ''resource_not_found'', dv, env1)
      else
        let (_, host) = apiService_JsonString json ''host'' ((strncpy (memset_chars 64) (r_host old) 63)[63 := CHR 0x00]);
            (_, path) = apiService_JsonString json ''path'' ((strncpy (memset_chars 80) (r_path old) 79)[79 := CHR 0x00]);
            (_, portValue) = apiService_JsonNumber json ''port'' (ucast (r_port old));
            (_, enabled) = apiService_JsonBoolean json ''enabled'' (r_enabled old);
            (_, trustAnchorValue) = apiService_JsonNumber json ''trust_anchor_id'' (ucast (r_trustAnchorId old));
            (checked, env2) = resource_check portValue trustAnchorValue dv env1 in
        case checked of
          Some e \<Rightarrow> (e, dv, env2)
        | None \<Rightarrow>
            let (status, config, env3) =
                  HealthCheckConfig_UpdateResource index (Some host) (ucast portValue) (Some path) (enabled \<noteq> 0)
                    (ucast trustAnchorValue) (dv_config dv) env2;
                dv1 = dv\<lparr>dv_config := config\<rparr>
            in (if status = HEALTH_CHECK_CONFIG_STATUS_NOT_FOUND then not_found ''resource_not_found''
                else if status \<noteq> HEALTH_CHECK_CONFIG_STATUS_OK then bad_request ''invalid_request''
                else ok_json (into 256 (resource_text index (c_str host) (unat portValue) (c_str path) (enabled \<noteq> 0) (unat trustAnchorValue))),
                dv1, env3))"

definition change_resource :: "api_context \<Rightarrow> ApiService_RequestTypeDef \<Rightarrow> AuthService_PrincipalTypeDef \<Rightarrow> managed \<Rightarrow> env \<Rightarrow> handled" where
  "change_resource cx request actor dv env =
     (if \<not> administrator actor then (forbidden, dv, env)
      else
        let indexText = drop 31 (c_str (rq_path request)); (indexValue, indexEnd) = strtol indexText in
        if indexEnd = indexText \<or> indexEnd \<noteq> [] \<or> indexValue < 0 \<or> indexValue \<ge> 6 then (not_found ''resource_not_found'', dv, env)
        else if is_call_below request ''DELETE'' ''/api/v1/health-check/resources/'' then delete_resource (nat indexValue) dv env
        else update_resource cx request (nat indexValue) dv env)"

subsection \<open>The dispatcher\<close>

definition dispatch_user :: "api_context \<Rightarrow> ApiService_RequestTypeDef \<Rightarrow> AuthService_PrincipalTypeDef \<Rightarrow> managed \<Rightarrow> env \<Rightarrow> handled" where
  "dispatch_user cx request actor dv env =
     (if is_call request ''POST'' ''/api/v1/auth/revoke'' then post_revoke cx request dv env
      else if is_call request ''GET'' ''/api/v1/rtc'' then get_rtc dv env
      else if is_call request ''GET'' ''/api/v1/system/telemetry'' then get_telemetry cx dv env
      else if is_call request ''POST'' ''/api/v1/buzzer/health-check-alert'' \<or>
              is_call request ''POST'' ''/api/v1/buzzer/certificate-expiry-alert'' then post_buzzer request actor dv env
      else if is_call request ''GET'' ''/api/v1/users'' then get_users actor dv env
      else if is_call request ''POST'' ''/api/v1/users'' \<or> is_call_below request ''PUT'' ''/api/v1/users/''
      then put_user cx request actor dv env
      else if is_call_below request ''DELETE'' ''/api/v1/users/'' then delete_user request actor dv env
      else if is_call request ''PUT'' ''/api/v1/tls/certificate'' then put_certificate cx request actor dv env
      else if is_call request ''PUT'' ''/api/v1/tls/private-key'' then put_private_key cx request actor dv env
      else if is_call request ''GET'' ''/api/v1/trust-anchors'' then get_anchors dv env
      else if is_call request ''POST'' ''/api/v1/trust-anchors'' then post_anchor cx request actor dv env
      else if is_call request ''DELETE'' ''/api/v1/trust-anchors'' then delete_anchors actor dv env
      else if is_call_below request ''PUT'' ''/api/v1/trust-anchors/'' \<or> is_call_below request ''DELETE'' ''/api/v1/trust-anchors/''
      then change_anchor cx request actor dv env
      else if is_call request ''GET'' ''/api/v1/callback/config'' then get_callback_config dv env
      else if is_call request ''PUT'' ''/api/v1/callback/config'' then put_callback_config request actor dv env
      else if is_call request ''GET'' ''/api/v1/health-check/config'' then get_config cx dv env
      else if is_call request ''PUT'' ''/api/v1/health-check/config'' then put_period request actor dv env
      else if is_call request ''POST'' ''/api/v1/health-check/resources'' then post_resource request actor dv env
      else if is_call_below request ''PUT'' ''/api/v1/health-check/resources/'' \<or>
              is_call_below request ''DELETE'' ''/api/v1/health-check/resources/'' then change_resource cx request actor dv env
      else if is_call request ''GET'' ''/api/v1/health-check/logs'' then get_logs dv env
      else (not_found ''not_found'', dv, env))"

definition apiService_Dispatch :: "api_context \<Rightarrow> ApiService_RequestTypeDef \<Rightarrow> managed \<Rightarrow> env \<Rightarrow> handled" where
  "apiService_Dispatch cx request dv env =
     (if is_call request ''GET'' ''/health'' \<or> is_call request ''HEAD'' ''/health'' then get_health cx request dv env
      else if is_call request ''POST'' ''/api/v1/auth/token'' then post_token cx request dv env
      else if is_call request ''POST'' ''/api/v1/auth/refresh'' then post_refresh cx request dv env
      else
        let (actor, env1) = apiService_Authorize cx request dv env in
        case actor of
          None \<Rightarrow> (unauthorized ''invalid_access_token'', dv, env1)
        | Some p \<Rightarrow> dispatch_user cx request p dv env1)"

subsection \<open>The task\<close>

text \<open>What the TLS library returns while one client is served: the results of the calls up to
  the handshake, in order, and the bytes of the connection.\<close>

record api_connection =
  cn_setup :: "int list"
  cn_read :: "nat \<Rightarrow> nat \<Rightarrow> int \<times> (nat \<Rightarrow> char)"
  cn_bad_input :: int

fun first_error :: "int list \<Rightarrow> int" where
  "first_error [] = 0"
| "first_error (r # rs) = (if r \<noteq> 0 then r else first_error rs)"

definition apiService_Serve ::
  "api_context \<Rightarrow> api_connection \<Rightarrow> ApiService_RequestTypeDef \<Rightarrow> managed \<Rightarrow> env \<Rightarrow> api_reply option \<times> managed \<times> env" where
  "apiService_Serve cx cn uninitialised dv env =
     (let (locked, env1) = TlsPlatform_Lock (dv_platform dv) env in
      if locked \<noteq> HEALTH_CHECK_STATUS_OK then (None, dv, env1)
      else if first_error (cn_setup cn) \<noteq> 0 then (None, dv, env1)
      else
        let (result, request) = apiService_ReadRequest (cn_read cn) (cn_bad_input cn) API_SERVICE_REQUEST_SIZE uninitialised in
        if result = 0 then let (reply, dv1, env2) = apiService_Dispatch cx request dv env1 in (Some reply, dv1, env2)
        else (Some (bad_request ''invalid_request''), dv, env1))"

text \<open>Before it serves, the task loads the accounts; without them it idles for ever (\<open>None\<close>).\<close>

definition apiService_Task_init :: "managed \<Rightarrow> env \<Rightarrow> managed option \<times> env" where
  "apiService_Task_init dv env =
     (let (status, auth, env1) = AuthService_Init (dv_auth dv) env
      in (if status \<noteq> AUTH_SERVICE_STATUS_OK then None else Some (dv\<lparr>dv_auth := auth\<rparr>), env1))"

definition ApiService_Init :: "nat option \<Rightarrow> managed \<Rightarrow> HealthCheck_StatusTypeDef \<times> managed" where
  "ApiService_Init task dv =
     (if task = None then (HEALTH_CHECK_STATUS_ERROR, dv)
      else (HEALTH_CHECK_STATUS_OK, dv\<lparr>dv_telemetry := TelemetryService_RegisterTask 8 task (dv_telemetry dv)\<rparr>))"

end
