(* ===== verification/Api_Access.thy ===== *)
theory Api_Access
  imports Api_Service
begin

text \<open>
  Who may change what through the management interface.  A request that does not carry an
  administrator's access token leaves the flash and every part of the device's state but the session table as
  they were; one without any valid token reaches only the three public routes.
\<close>

subsection \<open>Operations that only read\<close>

lemma Find_time: "UserStore_Find n us env = (s, found, env') \<Longrightarrow> only_time env env'"
  by (auto simp: UserStore_Find_def Let_def dest: only_time_Take split: prod.splits if_splits option.splits)

lemma login_user_time: "login_user crypto ps username password st env = (s, role, env') \<Longrightarrow> only_time env env'"
  by (auto simp: login_user_def Let_def dest!: Find_time Derive_frame intro: only_time_trans split: prod.splits if_splits)

lemma Master_time: "AuthService_VerifyMasterPassword crypto ps password env = (s, env') \<Longrightarrow> only_time env env'"
  by (auto simp: AuthService_VerifyMasterPassword_def Let_def dest!: Derive_frame split: prod.splits if_splits)

text \<open>What signing in, refreshing and revoking may change.\<close>

definition sessions_only :: "AuthService_State \<Rightarrow> AuthService_State \<Rightarrow> bool" where
  "sessions_only st st' \<longleftrightarrow> st' = st\<lparr>sessions := sessions st'\<rparr>"

lemma sessions_only_simps [simp]: "sessions_only st st" "sessions_only st (st\<lparr>sessions := ss\<rparr>)"
  by (simp_all add: sessions_only_def)

lemma Issue_sessions:
  "authService_Issue crypto ps username role tokens st env = (s, tokens', st', env') \<Longrightarrow> sessions_only st st'"
  by (auto simp: authService_Issue_def Let_def split: prod.splits if_splits option.splits)

lemma Login_frame:
  assumes "AuthService_Login crypto ps username password tokens st env = (s, tokens', st', env')"
  shows "sessions_only st st' \<and> only_time env env'"
proof (cases "username = None \<or> password = None")
  case True
  then show ?thesis
    using assms by (auto simp: AuthService_Login_def)
next
  case False
  obtain status role env1 where c: "(if c_str (the username) = ''master''
      then let (status, env1) = AuthService_VerifyMasterPassword crypto ps password env
           in (status, role_code USER_ROLE_ADMINISTRATOR, env1)
      else login_user crypto ps (the username) (the password) st env) = (status, role, env1)"
    using prod_cases3 by blast
  have t1: "only_time env env1"
    using c by (auto dest: login_user_time Master_time split: if_splits prod.splits)
  obtain taken env2 where t: "xSemaphoreTake env1 = (taken, env2)"
    by fastforce
  have t2: "only_time env env2"
    using only_time_trans[OF t1] only_time_Take[OF t] by blast
  have run: "(if status \<noteq> AUTH_SERVICE_STATUS_OK then (status, tokens, st, env1)
      else if \<not> taken then (AUTH_SERVICE_STATUS_CRYPTO_ERROR, tokens, st, env2)
      else authService_Issue crypto ps (the username) role tokens st env2) = (s, tokens', st', env')"
    using assms False unfolding AuthService_Login_def c by (auto simp: t split: if_splits)
  then show ?thesis
    using t1 t2 Issue_sessions[of crypto ps "the username" role tokens st env2] Issue_cases(1)[of crypto ps "the username" role tokens st env2]
      only_time_trans[OF t2] by (auto split: if_splits)
qed

lemma Refresh_frame:
  "AuthService_Refresh crypto ps token tokens st env = (s, tokens', st', env') \<Longrightarrow> sessions_only st st' \<and> only_time env env'"
  by (auto simp: AuthService_Refresh_def Let_def dest: only_time_Take Issue_sessions Issue_cases(1)
      intro: only_time_trans split: prod.splits if_splits option.splits)

lemma Revoke_frame:
  "AuthService_Revoke crypto token st env = (s, st', env') \<Longrightarrow> sessions_only st st' \<and> only_time env env'"
  by (auto simp: AuthService_Revoke_def Let_def dest: only_time_Take Authorize_cases(1)
      intro: only_time_trans split: prod.splits if_splits option.splits)

lemma Authorize_frame: "apiService_Authorize cx request dv env = (p, env') \<Longrightarrow> only_time env env'"
  by (auto simp: apiService_Authorize_def Let_def dest: Authorize_cases(1) split: prod.splits)

lemma ReadBack_cells: "healthCheckLog_ReadBack sector n room env = (es, env') \<Longrightarrow> cells env' = cells env"
proof (induction n arbitrary: room env es env')
  case (Suc n)
  obtain s d env1 where r: "W25Q64_Read (slot_address sector n) 40 env = (s, d, env1)"
    using prod_cases3 by blast
  show ?case
    using Suc.prems Suc.IH[of _ env1] Read_spec(1)[OF r]
    by (auto simp: r Let_def split: if_splits prod.splits)
qed simp

lemma GetRecent_cells: "HealthCheckLog_GetRecent capacity st env = (es, env') \<Longrightarrow> cells env' = cells env"
  by (auto simp: HealthCheckLog_GetRecent_def Let_def only_time_def dest!: ReadBack_cells ScanSector_frame only_time_Take
      split: if_splits prod.splits)

lemma IsAvailable_cells: "W25Q64_IsAvailable env = (b, env') \<Longrightarrow> cells env' = cells env"
  by (auto simp: W25Q64_IsAvailable_def w25q64_Command_def spi_send_def spi_receive_def w25q64_Select_def w25q64_Deselect_def
      pop_event_def Let_def dest!: take_flash_cells split: prod.splits if_splits)

subsection \<open>Routes\<close>

text \<open>What a request that only reads leaves alone, and the routes that only read.\<close>

definition unchanged :: "managed \<Rightarrow> env \<Rightarrow> handled \<Rightarrow> bool" where
  "unchanged dv env r \<longleftrightarrow> cells (snd (snd r)) = cells env \<and>
     fst (snd r) = dv\<lparr>dv_auth := (dv_auth dv)\<lparr>sessions := sessions (dv_auth (fst (snd r)))\<rparr>\<rparr>"

lemma unchanged_same [simp]: "unchanged dv env (r, dv, env') \<longleftrightarrow> cells env' = cells env"
  by (simp add: unchanged_def)

lemma unchanged_if: "unchanged dv env x \<Longrightarrow> unchanged dv env y \<Longrightarrow> unchanged dv env (if b then x else y)"
  by simp

lemma unchanged_sessions: "sessions_only (dv_auth dv) auth \<and> only_time env env' \<Longrightarrow> unchanged dv env (r, dv\<lparr>dv_auth := auth\<rparr>, env')"
  by (simp add: unchanged_def only_time_def sessions_only_def)

lemma public_unchanged:
  "unchanged dv env (get_health cx request dv env)"
  "unchanged dv env (post_token cx request dv env)"
  "unchanged dv env (post_refresh cx request dv env)"
proof -
  show "unchanged dv env (get_health cx request dv env)"
    by (auto simp: get_health_def Let_def dest: IsAvailable_cells split: prod.splits)
  show "unchanged dv env (post_token cx request dv env)"
    unfolding post_token_def Let_def by (auto dest!: Login_frame intro!: unchanged_sessions split: prod.splits)
  show "unchanged dv env (post_refresh cx request dv env)"
    unfolding post_refresh_def Let_def by (auto dest!: Refresh_frame intro!: unchanged_sessions split: prod.splits)
qed

lemma reader_unchanged:
  "unchanged dv env (post_revoke cx request dv env)"
  "unchanged dv env (get_rtc dv env)"
  "unchanged dv env (get_telemetry cx dv env)"
  "unchanged dv env (get_anchors dv env)"
  "unchanged dv env (get_callback_config dv env)"
  "unchanged dv env (get_config cx dv env)"
  "unchanged dv env (get_logs dv env)"
proof -
  show "unchanged dv env (post_revoke cx request dv env)"
    unfolding post_revoke_def Let_def by (auto dest!: Revoke_frame intro!: unchanged_sessions split: prod.splits)
  show "unchanged dv env (get_rtc dv env)"
    by (simp add: get_rtc_def Let_def split: prod.split)
  show "unchanged dv env (get_telemetry cx dv env)"
    unfolding get_telemetry_def Let_def by simp
  show "unchanged dv env (get_anchors dv env)"
    by (auto simp: get_anchors_def TlsTrustStore_List_def only_time_def dest!: only_time_Take split: prod.splits if_splits)
  show "unchanged dv env (get_callback_config dv env)"
    by (auto simp: get_callback_config_def CallbackConfig_Get_def only_time_def Let_def dest!: only_time_Take split: prod.splits)
  show "unchanged dv env (get_config cx dv env)"
    by (auto simp: get_config_def HealthCheckConfig_GetResources_def HealthCheckConfig_GetPeriodSeconds_def only_time_def Let_def
        dest!: only_time_Take split: prod.splits)
  show "unchanged dv env (get_logs dv env)"
    by (auto simp: get_logs_def Let_def dest: GetRecent_cells split: prod.splits)
qed

text \<open>Every other route refuses a user who is no administrator before it does anything.\<close>

lemma writer_refuses:
  assumes "\<not> administrator actor"
  shows "post_buzzer request actor dv env = (forbidden, dv, env)"
    "get_users actor dv env = (forbidden, dv, env)"
    "put_user cx request actor dv env = (forbidden, dv, env)"
    "delete_user request actor dv env = (forbidden, dv, env)"
    "put_certificate cx request actor dv env = (forbidden, dv, env)"
    "put_private_key cx request actor dv env = (forbidden, dv, env)"
    "post_anchor cx request actor dv env = (forbidden, dv, env)"
    "delete_anchors actor dv env = (forbidden, dv, env)"
    "change_anchor cx request actor dv env = (forbidden, dv, env)"
    "put_callback_config request actor dv env = (forbidden, dv, env)"
    "put_period request actor dv env = (forbidden, dv, env)"
    "post_resource request actor dv env = (forbidden, dv, env)"
    "change_resource cx request actor dv env = (forbidden, dv, env)"
  unfolding post_buzzer_def get_users_def put_user_def delete_user_def put_certificate_def put_private_key_def
    post_anchor_def delete_anchors_def change_anchor_def put_callback_config_def put_period_def post_resource_def
    change_resource_def Let_def
  using assms by simp_all

lemma dispatch_user_unchanged:
  assumes "\<not> administrator actor"
  shows "unchanged dv env (dispatch_user cx request actor dv env)"
  unfolding dispatch_user_def writer_refuses[OF assms] by (intro unchanged_if reader_unchanged) simp_all

text \<open>C0: A request without the access token of an administrator's live session changes nothing but
  the session table: the flash keeps every byte, and the configuration, the accounts, the trust
  anchors, the credentials, the log and the queues stay as they are, whatever the method, the path and the
  body, and whatever the hardware does.\<close>

theorem api_admin_only:
  assumes "\<forall>actor. fst (apiService_Authorize cx request dv env) = Some actor \<longrightarrow> \<not> administrator actor"
    and "apiService_Dispatch cx request dv env = (reply, dv', env')"
  shows "cells env' = cells env \<and> dv' = dv\<lparr>dv_auth := (dv_auth dv)\<lparr>sessions := sessions (dv_auth dv')\<rparr>\<rparr>"
proof -
  obtain granted env1 where a: "apiService_Authorize cx request dv env = (granted, env1)"
    by fastforce
  have c: "cells env1 = cells env"
    using Authorize_frame[OF a] by (simp add: only_time_def)
  have "unchanged dv env1 (dispatch_user cx request actor dv env1)" if "granted = Some actor" for actor
    using dispatch_user_unchanged assms(1) a that by simp
  then have "unchanged dv env (dispatch_user cx request actor dv env1)" if "granted = Some actor" for actor
    using that c by (simp add: unchanged_def)
  then have "unchanged dv env (apiService_Dispatch cx request dv env)"
    unfolding apiService_Dispatch_def a using public_unchanged[of dv env cx request] c by (simp split: option.split)
  then show ?thesis
    using assms(2) by (simp add: unchanged_def)
qed

subsection \<open>A signed-in user without the role\<close>

definition user_auth :: AuthService_State where
  "user_auth = \<lparr>sessions = [zero_session\<lparr>s_active := 1, s_role := role_code USER_ROLE_USER\<rparr>],
     au_users = \<lparr>us_snapshot = zero_users, us_activeAddress = 0\<rparr>\<rparr>"

definition user_managed :: managed where
  "user_managed = device.extend sample_device
     (managed.fields user_auth \<lparr>taskHandles = replicate 9 None\<rparr> off_state)"

definition user_context :: api_context where
  "user_context = \<lparr>ac_crypto = \<lparr>mbedtls_pkcs5_pbkdf2_hmac_ext = (\<lambda>_ _ _. (0, replicate 32 0)), mbedtls_sha256 = (\<lambda>_. (0, replicate 32 0))\<rparr>,
     ac_ca = sample_ca, ac_pk = sample_mbedtls,
     ac_version = ''1'', ac_build = ''today'', ac_highWater = (\<lambda>_. 0), ac_stack = []\<rparr>"

definition user_request :: ApiService_RequestTypeDef where
  "user_request = \<lparr>rq_method = ''PUT'', rq_path = ''/api/v1/health-check/config'', rq_authorization = replicate 64 (CHR ''a''),
     rq_body = ''{\"period_seconds\":120}''\<rparr>"

lemma dv_auth_user [simp]: "dv_auth user_managed = user_auth"
  by (simp add: user_managed_def managed.defs device.defs)

lemma user_granted:
  "fst (apiService_Authorize user_context user_request user_managed blank_env) =
     Some \<lparr>p_username = (strncpy [] (memset_chars 25) 25)[24 := CHR 0x00], p_role = role_code USER_ROLE_USER\<rparr>"
proof -
  obtain b env1 where l: "xSemaphoreTake blank_env = (b, env1)"
    by fastforce
  have "b" "ticks env1 = ticks blank_env"
    using only_time_Take[OF l] by (simp_all add: only_time_def)
  then have "b" "TimeService_GetUptimeMs env1 = 0"
    by (simp_all add: TimeService_GetUptimeMs_def blank_env_def)
  then show ?thesis
    by (simp add: apiService_Authorize_def AuthService_Authorize_def authService_HashToken_def user_context_def user_request_def
        user_auth_def l access_matches_def zero_session_def c_str_def takeWhile_replicate)
qed

theorem api_admin_only_witness:
  "(\<exists>actor. fst (apiService_Authorize user_context user_request user_managed blank_env) = Some actor \<and> \<not> administrator actor) \<and>
   cells (snd (snd (apiService_Dispatch user_context user_request user_managed blank_env))) = cells blank_env \<and>
   dv_config (fst (snd (apiService_Dispatch user_context user_request user_managed blank_env))) = dv_config user_managed"
proof -
  obtain reply dv' env' where d: "apiService_Dispatch user_context user_request user_managed blank_env = (reply, dv', env')"
    using prod_cases3 by blast
  have "\<forall>actor. fst (apiService_Authorize user_context user_request user_managed blank_env) = Some actor \<longrightarrow> \<not> administrator actor"
    by (simp add: user_granted administrator_def)
  from api_admin_only[OF this d] have k: "cells env' = cells blank_env"
    "dv' = user_managed\<lparr>dv_auth := (dv_auth user_managed)\<lparr>sessions := sessions (dv_auth dv')\<rparr>\<rparr>"
    by blast+
  have "dv_config dv' = dv_config user_managed"
    by (subst k(2)) simp
  then show ?thesis
    using k(1) d by (simp add: user_granted administrator_def)
qed

end
