(* ===== verification/Spec2Isabelle.thy ===== *)
theory Spec2Isabelle
  imports Health_Check_Config Callback_Config User_Store Tls_Server_Credentials Tls_Trust_Store
    C_Stdio Time_Service Tls_Platform Tls_Transport Health_Check_Log Auth_Service Buzzer_Service Factory_Reset Callback_Service Health_Check_Service Api_Json Api_Request Telemetry_Service Api_Reply Network_Service Api_Service Api_Access
begin

text \<open>
  A verification development for the firmware of an STM32F767 board that watches HTTPS
  resources.

  \<^bold>\<open>The program.\<close>  A health-check task sends a HEAD request to every configured resource
  and writes the result to a log in an external W25Q64 NOR flash; a failed check sounds
  the buzzer and queues a callback to a configured server.  A management interface over
  HTTPS changes the configuration; its users, certificate and trust anchors live in the same flash.  A long press of the
  user button erases all of it.  Every store therefore rests on the flash driver, the
  transport rests on the trust store, the crypto lock and the clock, and authentication rests on the user
  store and the random generator.

  \<^bold>\<open>The environment.\<close>  \<open>Flash_Chip\<close> holds the record \<open>env\<close>: the cells of the flash chip, its
  write-enable latch and busy state, the SPI bus with its faults, the tick counter, and a list of events
  that decides how each hardware or kernel interaction ends (success, busy, data read).  Theorems quantify
  over all event lists, hence over power failures and bus errors at every point; \<open>healthy\<close>
  describes hardware that answers.  A function of the source is a HOL function from its arguments, the
  state of its module and \<open>env\<close> to its result, the new state and \<open>env\<close>.  Widths are kept: \<open>uint8_t\<close>,
  \<open>uint16_t\<close> and \<open>uint32_t\<close> are words, with wrap-around.

  \<^bold>\<open>Foundations.\<close>
  \<^item> \<open>Prelude\<close>, \<open>C_Stdio\<close>: machine types, the C library functions on character arrays, number
    formatting and scanning; \<open>strtoul_decimal\<close> is the print/parse round trip.
  \<^item> \<open>Object_Rep\<close>, \<open>Crc32\<close>: byte images of structs, and the CRC-32 loop with its detection of
    every burst of at most 32 bits.
  \<^item> \<open>W25q64\<close> (\<open>Periph/Src/w25q64.c\<close>), \<open>Flash_Layout\<close> (\<open>Periph/Inc/flash_layout.h\<close>): range check,
    paging and erasing; which bytes an operation may touch when it is cut short; disjointness of the
    stores.  The locale \<open>nor_flash\<close> is the contract the stores use.
  \<^item> \<open>Ab_Store\<close>, \<open>Ab_Service\<close>: the two-copy protocol as locales over \<open>nor_flash\<close>'s operations, with the
    crash argument proved once; interpreted by each of the five stores.

  \<^bold>\<open>Stores.\<close>  \<open>Health_Check_Config\<close>, \<open>Callback_Config\<close>, \<open>User_Store\<close> (\<open>Srv/Src\<close>, files of the same
  name), \<open>Tls_Server_Credentials\<close> and \<open>Tls_Trust_Store\<close> (\<open>TLS/Src\<close>): initialisation with migration of older
  images, every public operation, and the save with read-back.  The lemmas show that an operation
  commits or leaves the committed contents, also when power fails in it; that the operations refine an
  abstract list, map or slot array; and what first boot and migration give.
  \<open>Health_Check_Log\<close> (\<open>Srv/Src/health_check_log.c\<close>): appends, roll-over and boot scan keep
  the sequence of records, newest first.

  \<^bold>\<open>Services.\<close>
  \<^item> \<open>Time_Service\<close>, \<open>Tls_Platform\<close>: the clock across the wrap of the tick counter; the crypto
    lock and the polling of the random generator.
  \<^item> \<open>Tls_Transport\<close> (\<open>TLS/Src/tls_transport.c\<close>): one request from resolution to status
    line; success implies a verified peer, sockets are released, certificate dates are
    calendar dates.
  \<^item> \<open>Auth_Service\<close> (\<open>Srv/Src/auth_service.c\<close>): login, refresh, authorisation and user
    management; an authorised principal reflects the current user store.
  \<^item> \<open>Buzzer_Service\<close> (\<open>Srv/Src/buzzer_service.c\<close>): the event queue and the sounds.
  \<^item> \<open>Factory_Reset\<close> (\<open>Srv/Src/factory_reset_service.c\<close>): button, cancellation and an erasure that
    is completed after any interruption.

  \<^bold>\<open>Parameters.\<close>  mbedTLS and the socket calls of lwIP are not modelled: they are records of
  functions passed to the definitions that call them, with their documented behaviour as hypotheses
  where a theorem needs it.

  \<^bold>\<open>Bounds and fuel.\<close>  Loops of the source that are bounded by a constant or a length recurse
  on what remains, so they need no fuel.  Waiting loops (busy flag, generator, button) end by the
  source's own timeout on the tick counter, or consume one event each.  Event lists are
  finite; an exhausted list answers with success, so that \<open>healthy\<close> environments exist.

  \<^bold>\<open>Not modelled.\<close>  Start-up, clock and pin set-up, interrupts, console output and the Ethernet, PHY, SPI
  and timer drivers are register I/O.  The task that starts SNTP only calls lwIP.  FreeRTOS and lwIP are third-party
  code; only the calls the services make appear, queues as bounded lists.  The watchdog, heartbeat
  and telemetry tasks have no behaviour beyond kernel calls and register writes.
\<close>

section \<open>The device after a factory reset\<close>

lemma Platform_Init_healthy:
  assumes "TlsPlatform_Init mb st env = (s, st', env')" "healthy env" "platform_set_time mb = 0" "psa_crypto_init mb"
  shows "s = HEALTH_CHECK_STATUS_OK" "healthy env'" "cells env' = cells env"
proof -
  obtain created env1 where m: "xSemaphoreCreateMutexStatic env = (created, env1)" by fastforce
  obtain v env2 where r: "tlsPlatform_ReadRandom env1 = (v, env2)" by fastforce
  note mutex = xSemaphoreCreateMutexStatic_frame[OF m]
  have "created" "healthy env1" "cells env1 = cells env"
    using mutex(1) mutex(3)[OF assms(2)] by simp_all
  moreover from this(2) have "v \<noteq> None" "healthy env2" "cells env2 = cells env1"
    using PollRandom_frame[of "TimeService_GetUptimeMs env1" env1 v env2] r by (simp_all add: tlsPlatform_ReadRandom_def only_time_def)
  ultimately show "s = HEALTH_CHECK_STATUS_OK" "healthy env'" "cells env' = cells env"
    using assms(1,3,4) by (auto simp: TlsPlatform_Init_def m r)
qed

lemma Credentials_Init_blank:
  assumes "TlsServerCredentials_Init st env = (s, st', env')" "healthy env"
    and "sector_blank (cells env) FLASH_LAYOUT_TLS_SERVER_CREDENTIALS_SECTOR_A"
      "sector_blank (cells env) FLASH_LAYOUT_TLS_SERVER_CREDENTIALS_SECTOR_B"
  shows "s = HEALTH_CHECK_STATUS_OK" "healthy env'" "cells env' = cells env" "\<not> tc_hasValidSnapshot st'"
proof -
  obtain b1 x1 env1 where l1: "load_snapshot get_credentials 1556 tlsServerCredentials_IsValid
      FLASH_LAYOUT_TLS_SERVER_CREDENTIALS_SECTOR_A env = (b1, x1, env1)"
    using prod_cases3 by blast
  obtain b2 x2 env2 where l2: "load_snapshot get_credentials 1556 tlsServerCredentials_IsValid
      FLASH_LAYOUT_TLS_SERVER_CREDENTIALS_SECTOR_B env1 = (b2, x2, env2)"
    using prod_cases3 by blast
  have "\<not> tlsServerCredentials_IsValid (get_credentials (replicate 1556 0xFF))"
    by (simp add: tlsServerCredentials_IsValid_def get_credentials_def case_prod_unfold Let_def get_u32_blank)
  then have "\<not> b1" "\<not> b2" "cells env2 = cells env" "healthy env2"
    using load_both_blank[OF l1 l2 assms(2-4)] by (simp_all add: layout)
  then show "s = HEALTH_CHECK_STATUS_OK" "healthy env'" "cells env' = cells env" "\<not> tc_hasValidSnapshot st'"
    using assms(1) by (auto simp: TlsServerCredentials_Init_def l1 l2 Let_def)
qed

text \<open>What every store holds after the task's initialisation on reset flash.\<close>

lemma Task_init_reset:
  assumes run: "healthCheckService_Task_init mb True True True dv env = (r, env')"
    and blank: "reset_done (cells env)" and h: "healthy env" and lib: "platform_set_time mb = 0" "psa_crypto_init mb"
  obtains dv' where "r = Some dv'" "healthy env'"
    "cfg_snapshot (dv_config dv') = healthCheckConfig_Stamp healthCheckConfig_SetDefault"
    "cs_snapshot (dv_callback_config dv') = callbackConfig_Stamp callbackConfig_Default"
    "trustStoreSnapshot (dv_trust dv') = tlsTrustStore_Stamp zero_trust"
    "log_view (dv_log dv') (cells env') = []" "\<not> tc_hasValidSnapshot (dv_credentials dv')"
    "sector_blank (cells env') FLASH_LAYOUT_USER_STORE_SECTOR_A" "sector_blank (cells env') FLASH_LAYOUT_USER_STORE_SECTOR_B"
proof -
  obtain s1 platform env1 where i1: "TlsPlatform_Init mb (dv_platform dv) env = (s1, platform, env1)"
    using prod_cases3 by blast
  note p = Platform_Init_healthy[OF i1 h lib]
  have b1: "reset_done (cells env1)"
    using blank p(3) by simp
  obtain s2 trust env2 where i2: "TlsTrustStore_Init (dv_trust dv) env1 = (s2, trust, env2)"
    using prod_cases3 by blast
  have "\<forall>i. unat FLASH_LAYOUT_TLS_TRUST_STORE_BANK_A \<le> i \<and> i < W25Q64_CAPACITY_BYTES \<longrightarrow> cells env1 i = 0xFF"
    using b1 by (auto simp: reset_done_def layout)
  note t = ts_Init_blank[OF p(2) this i2]
  have cb: "sector_blank (cells env2) FLASH_LAYOUT_CALLBACK_CONFIG_SECTOR_A" "sector_blank (cells env2) FLASH_LAYOUT_CALLBACK_CONFIG_SECTOR_B"
    using b1 t(6) by (simp_all add: reset_done_def sector_blank_def layout)
  obtain s3 callback env3 where i3: "CallbackConfig_Init (dv_callback_config dv) env2 = (s3, callback, env3)"
    using prod_cases3 by blast
  note c = cb_Init_blank[OF t(1) cb i3]
  have top: "cells env3 i = 0xFF" if "unat (from_top 8) \<le> i" "i < W25Q64_CAPACITY_BYTES" for i
    using c(5)[of i] t(6)[of i] b1 that by (simp add: reset_done_def layout)
  obtain s4 config env4 where i4: "HealthCheckConfig_Init (dv_config dv) env3 = (s4, config, env4)"
    using prod_cases3 by blast
  have "hc_blank env3"
    using top c(2) by (simp add: hc_blank_def sector_blank_def layout)
  note g = Init_default[OF this i4]
  obtain s5 lg env5 where i5: "HealthCheckLog_Init (dv_log dv) env4 = (s5, lg, env5)"
    using prod_cases3 by blast
  have "sector_blank (cells env4) FLASH_LAYOUT_HEALTH_CHECK_LOG_SECTOR_0" "sector_blank (cells env4) FLASH_LAYOUT_HEALTH_CHECK_LOG_SECTOR_1"
    using top g(6) by (simp_all add: sector_blank_def layout)
  note l = log_boot[OF i5 g(2) this] log_Init_cases(1,2)[OF i5 g(2) refl]
  obtain s6 credentials env6 where i6: "TlsServerCredentials_Init (dv_credentials dv) env5 = (s6, credentials, env6)"
    using prod_cases3 by blast
  have "sector_blank (cells env5) FLASH_LAYOUT_TLS_SERVER_CREDENTIALS_SECTOR_A"
    "sector_blank (cells env5) FLASH_LAYOUT_TLS_SERVER_CREDENTIALS_SECTOR_B"
    using top g(6) l(4) by (simp_all add: sector_blank_def layout)
  note k = Credentials_Init_blank[OF i6 l(6) this]
  have users: "sector_blank (cells env6) FLASH_LAYOUT_USER_STORE_SECTOR_A" "sector_blank (cells env6) FLASH_LAYOUT_USER_STORE_SECTOR_B"
    using top g(6) l(4) k(3) by (simp_all add: sector_blank_def layout)
  show ?thesis
    using that run p(1) t(5) c(1) g(1) l(5) k users t(3) c(3) g(3) l(2)
    by (auto simp: healthCheckService_Task_init_def i1 i2 i3 i4 i5 i6 CallbackService_Init_def Let_def)
qed


lemma default_views:
  "config_view (healthCheckConfig_Stamp healthCheckConfig_SetDefault) = (60, [None, None, None, None, None, None])"
  "cs_config (callbackConfig_Stamp callbackConfig_Default) = cs_config callbackConfig_Default"
  "trust_view (tlsTrustStore_Stamp zero_trust) = replicate 6 None" "trust_view zero_trust = replicate 6 None"
proof -
  show "config_view (healthCheckConfig_Stamp healthCheckConfig_SetDefault) = (60, [None, None, None, None, None, None])"
    using config_view_first unfolding hc_first(4) .
  show "cs_config (callbackConfig_Stamp callbackConfig_Default) = cs_config callbackConfig_Default"
    by (simp add: callbackConfig_Stamp_def Let_def)
  show "trust_view (tlsTrustStore_Stamp zero_trust) = replicate 6 None" "trust_view zero_trust = replicate 6 None"
    using zero_trust_fit(2)[of 0] by (simp_all add: tlsTrustStore_Stamp_def Let_def trust_view_def zero_trust_def)
qed

text \<open>C4: a factory reset restores the delivered state of the whole device.  Once its marker has
  been written, the erasure may be cut short anywhere; after the pending reset has been
  resumed and the device has started on working hardware, the configuration has no resource and
  a period of 60 seconds, the callback is the disabled default, no trust anchor, no account and no log record is left,
  and the management server presents the compiled certificate and key.\<close>

theorem reset_restores_defaults:
  assumes "factoryResetService_WriteMarker env = (W25Q64_STATUS_OK, env1)"
    and "factoryResetService_ErasePersistentState env1 = (status, env2)"
    and "healthy env3" "cells env3 = cells env2"
    and "FactoryResetService_ResumePending env3 = (resumed, restarted, env4)"
    and "healthy env5" "cells env5 = cells env4" "platform_set_time mb = 0" "psa_crypto_init mb"
    and "healthCheckService_Task_init mb True True True dv env5 = (r, env6)"
    and "AuthService_Init au env6 = (s, au', env7)"
  shows "\<exists>dv'. r = Some dv' \<and> s = AUTH_SERVICE_STATUS_OK \<and>
    config_view (cfg_snapshot (dv_config dv')) = (60, [None, None, None, None, None, None]) \<and>
    cs_config (cs_snapshot (dv_callback_config dv')) = cs_config callbackConfig_Default \<and>
    trust_view (trustStoreSnapshot (dv_trust dv')) = replicate 6 None \<and>
    users_in_use (us_snapshot (au_users au')) = [] \<and> log_view (dv_log dv') (cells env7) = [] \<and>
    TlsServerCredentials_GetCertificate certificate (dv_credentials dv') = certificate \<and>
    TlsServerCredentials_GetPrivateKey key (dv_credentials dv') = key"
proof -
  have "reset_done (cells env5)"
    using reset_resumed[OF assms(1-5)] assms(7) by simp
  then obtain dv' where dv: "r = Some dv'" "healthy env6"
    "cfg_snapshot (dv_config dv') = healthCheckConfig_Stamp healthCheckConfig_SetDefault"
    "cs_snapshot (dv_callback_config dv') = callbackConfig_Stamp callbackConfig_Default"
    "trustStoreSnapshot (dv_trust dv') = tlsTrustStore_Stamp zero_trust"
    "log_view (dv_log dv') (cells env6) = []" "\<not> tc_hasValidSnapshot (dv_credentials dv')"
    "sector_blank (cells env6) FLASH_LAYOUT_USER_STORE_SECTOR_A" "sector_blank (cells env6) FLASH_LAYOUT_USER_STORE_SECTOR_B"
    using Task_init_reset[OF assms(10) _ assms(6,8,9)] by blast
  obtain created env8 where m: "xSemaphoreCreateMutexStatic env6 = (created, env8)" by fastforce
  have e8: "created" "healthy env8" "cells env8 = cells env6"
    using xSemaphoreCreateMutexStatic_frame(1,3)[OF m] dv(2) by simp_all
  obtain s9 us env9 where u: "UserStore_Init (au_users au) env8 = (s9, us, env9)"
    using prod_cases3 by blast
  note users = us_Init_blank[OF u e8(2)] dv(8,9)
  have "s = AUTH_SERVICE_STATUS_OK" "users_in_use (us_snapshot (au_users au')) = []" "cells env7 = cells env6"
    using assms(11) users e8 by (auto simp: AuthService_Init_def m u users_in_use_def zero_users_def)
  then show ?thesis
    using dv by (simp add: default_views TlsServerCredentials_GetCertificate_def TlsServerCredentials_GetPrivateKey_def)
qed

theorem reset_restores_defaults_witness:
  "\<exists>dv'. fst (healthCheckService_Task_init \<lparr>platform_set_time = 0, psa_crypto_init = True\<rparr> True True True sample_device
     (blank_env\<lparr>cells := cells (snd (snd (FactoryResetService_ResumePending (blank_env\<lparr>cells :=
       cells (snd (factoryResetService_ErasePersistentState (snd (factoryResetService_WriteMarker blank_env))))\<rparr>))))\<rparr>)) = Some dv' \<and>
     trust_view (trustStoreSnapshot (dv_trust dv')) = replicate 6 None"
proof -
  obtain s1 env1 where w: "factoryResetService_WriteMarker blank_env = (s1, env1)" by fastforce
  obtain s2 env2 where e: "factoryResetService_ErasePersistentState env1 = (s2, env2)" by fastforce
  let ?env3 = "blank_env\<lparr>cells := cells env2\<rparr>"
  obtain s3 b env4 where p: "FactoryResetService_ResumePending ?env3 = (s3, b, env4)"
    using prod_cases3 by blast
  let ?env5 = "blank_env\<lparr>cells := cells env4\<rparr>" and ?mb = "\<lparr>platform_set_time = 0, psa_crypto_init = True\<rparr>"
  obtain r env6 where t: "healthCheckService_Task_init ?mb True True True sample_device ?env5 = (r, env6)" by fastforce
  obtain s au' env7 where a: "AuthService_Init \<lparr>sessions = [], au_users = users_static\<rparr> env6 = (s, au', env7)"
    using prod_cases3 by blast
  have h: "healthy (blank_env\<lparr>cells := c\<rparr>)" for c
    by (simp add: healthy_def blank_env_def)
  have "s1 = W25Q64_STATUS_OK"
    using WriteMarker_spec(2)[OF w] by simp
  then show ?thesis
    using reset_restores_defaults[OF w[unfolded \<open>s1 = W25Q64_STATUS_OK\<close>] e h _ p h _ _ _ t a, of "[]" "[]"] by (auto simp: w e p t)
qed

end
